theory Spec2Isabelle
  imports Complex_Main "HOL-Library.Word" "HOL-Library.Char_ord" "HOL-Library.List_Lexorder"
begin

section \<open>Python string formatting\<close>

text \<open>
  The scripts build every command-line argument and every path with f-strings. The format
  specifications they use are modelled here on exact numbers: a Python \<open>int\<close> is an
  \<^typ>\<open>int\<close>, a finite Python \<open>float\<close> is the \<^typ>\<open>real\<close> number it denotes. Python
  rounds the exact value of a float correctly (ties to even) when it formats it, which is what
  \<open>round_half_even\<close> does. The float literals of the scripts (\<open>139.779999\<close>,
  \<open>35.552299\<close>, \<open>dur / 24.0\<close>) are read as the decimal or rational number written:
  the nearest double differs from it by less than \<open>10\<^sup>-\<^sup>1\<^sup>3\<close>, no tie is
  that close to any of them, and the four ties of \<open>dur / 24.0\<close> (at 3, 9, 15 and 21) are
  doubles exactly, so the digits printed are the same. Where a script computes with floats
  and the result is cut to an integer (the indices of a coordinate in \<open>complexity.py\<close>)
  the operations are rounded to binary64, see \<open>binary64\<close> below.
\<close>

type_synonym path = string

definition digit_char :: "nat \<Rightarrow> char" where
  "digit_char d = ''0123456789'' ! d"

fun show_nat :: "nat \<Rightarrow> string" where
  "show_nat n = (if n < 10 then [digit_char n] else show_nat (n div 10) @ [digit_char (n mod 10)])"

declare show_nat.simps [simp del]

fun ndigits :: "nat \<Rightarrow> int" where
  \<comment> \<open>the number of decimal digits\<close>
  "ndigits n = (if n < 10 then 1 else 1 + ndigits (n div 10))"

declare ndigits.simps [simp del]

definition zfill :: "nat \<Rightarrow> string \<Rightarrow> string" where
  \<comment> \<open>left padding with zeros up to a width; never truncates\<close>
  "zfill w s = replicate (w - length s) CHR ''0'' @ s"

definition fmt_d :: "int \<Rightarrow> string" where
  \<comment> \<open>\<open>f"{i:d}"\<close>\<close>
  "fmt_d i = (if i < 0 then ''-'' @ show_nat (nat (- i)) else show_nat (nat i))"

definition fmt_0d :: "nat \<Rightarrow> int \<Rightarrow> string" where
  \<comment> \<open>\<open>f"{i:0wd}"\<close>: the zeros go between the sign and the digits\<close>
  "fmt_0d w i = (if i < 0 then ''-'' @ zfill (w - 1) (show_nat (nat (- i)))
                 else zfill w (show_nat (nat i)))"

definition round_half_even :: "real \<Rightarrow> int" where
  "round_half_even x =
     (let f = \<lfloor>x\<rfloor>; d = x - of_int f
      in if d < 1 / 2 then f else if 1 / 2 < d then f + 1 else if even f then f else f + 1)"

definition fixed_digits :: "nat \<Rightarrow> real \<Rightarrow> string" where
  \<comment> \<open>the digits of \<open>|x|\<close> with \<open>p\<close> decimals, \<open>p > 0\<close>\<close>
  "fixed_digits p x =
     (let ds = zfill (p + 1) (show_nat (nat (round_half_even (\<bar>x\<bar> * 10 ^ p))))
      in take (length ds - p) ds @ ''.'' @ drop (length ds - p) ds)"

definition fmt_f :: "bool \<Rightarrow> nat \<Rightarrow> nat \<Rightarrow> real \<Rightarrow> string" where
  \<comment> \<open>\<open>f"{x:+0w.pf}"\<close>; \<open>plus_flag\<close> is the \<open>+\<close> flag, \<open>w = 0\<close> when no width is given\<close>
  "fmt_f plus_flag w p x =
     (let sg = (if x < 0 then ''-'' else if plus_flag then ''+'' else '''')
      in sg @ zfill (w - length sg) (fixed_digits p x))"

definition fmt_e :: "nat \<Rightarrow> int \<Rightarrow> string" where
  \<comment> \<open>\<open>f"{n:.pe}"\<close> of an integer (exact as a float below \<open>2\<^sup>5\<^sup>3\<close>), \<open>p > 0\<close>\<close>
  "fmt_e p n =
     (let a = nat \<bar>n\<bar>;
          e0 = ndigits a - 1;
          m0 = (if int p \<le> e0 then nat (round_half_even (real a / 10 ^ nat (e0 - int p)))
                else a * 10 ^ nat (int p - e0));
          carry = (m0 = 10 ^ (p + 1));
          m = (if carry then 10 ^ p else m0);
          e = (if a = 0 then 0 else if carry then e0 + 1 else e0);
          ds = zfill (p + 1) (show_nat m)
      in (if n < 0 then ''-'' else '''') @ take 1 ds @ ''.'' @ drop 1 ds
         @ ''e+'' @ zfill 2 (show_nat (nat e)))"

fun join :: "string \<Rightarrow> string list \<Rightarrow> string" where
  "join sep [] = []"
| "join sep [x] = x"
| "join sep (x # y # ys) = x @ sep @ join sep (y # ys)"

section \<open>The parameter sweep of \<open>complexity.py\<close> and \<open>ripples_flight.py\<close>\<close>

text \<open>
  What a script does to the outside world is recorded as a list of events, in the order of
  the calls: what it prints, the subprocesses it runs, and the videos it asks for.
\<close>

datatype event =
    Print string
  | SubprocessRun "string list"
  | Images2mp4 "path list" "int option"

record args =
  debug :: bool
  dryRun :: bool
  timeout :: real

record rargs = args +
  ffmpegPath :: "string option"
  ffprobePath :: "string option"
  plot :: bool

type_synonym comb = "int \<times> string \<times> int \<times> (real \<times> real \<times> real \<times> real)"

definition combs :: "comb list" where
  \<comment> \<open>the same literal in both scripts\<close>
  "combs =
     [ (9, ''110m'', 116000, (1, 0, 0, 1)),
       (17, ''50m'', 116000 div 2, (0, 1, 0, 1)),
       (33, ''10m'', 116000 div 4, (0, 0, 1, 1)) ]"

definition spd :: real where
  "spd = 500"

definition lon :: real where
  "lon = 139.779999"

definition lat :: real where
  "lat = 35.552299"

definition complexity_cmd :: "string \<Rightarrow> 'a args_scheme \<Rightarrow> comb \<Rightarrow> string list" where
  \<comment> \<open>\<open>pyver\<close> is \<open>sysconfig.get_python_version()\<close>; \<open>gshhgRes\<close> is \<open>"c"\<close> here\<close>
  "complexity_cmd pyver a = (\<lambda>(nAng, neRes, prec, color).
     (let freqLand = 8 * 928000 div prec;
          freqPlot = 928000 div prec;
          freqSimp = 928000 div prec
      in [ ''python'' @ pyver, ''-m'', ''gft'',
           ''0.0'', ''0.0'', fmt_f False 0 1 spd,
           ''--duration'', ''0.01'',
           ''--freqLand'', fmt_d freqLand,
           ''--freqPlot'', fmt_d freqPlot,
           ''--freqSimp'', fmt_d freqSimp,
           ''--GSHHG-resolution'', ''c'',
           ''--nAng'', fmt_d nAng,
           ''--NE-resolution'', neRes,
           ''--precision'', fmt_f False 0 1 (of_int prec) ]
         @ (if debug a then [''--debug''] else [])))"

definition ripples_cmd :: "string \<Rightarrow> 'a rargs_scheme \<Rightarrow> int \<Rightarrow> comb \<Rightarrow> string list" where
  "ripples_cmd pyver a dur = (\<lambda>(nAng, neRes, prec, color).
     (let freqLand = 8 * 928000 div prec;
          freqPlot = 928000 div prec;
          freqSimp = 928000 div prec
      in [ ''python'' @ pyver, ''-m'', ''gft'',
           fmt_f True 0 6 lon, fmt_f True 0 6 lat, fmt_f False 0 1 spd,
           ''--duration'', fmt_f False 0 2 (of_int dur / 24),
           ''--freqLand'', fmt_d freqLand,
           ''--freqPlot'', fmt_d freqPlot,
           ''--freqSimp'', fmt_d freqSimp,
           ''--GSHHG-resolution'', ''c'',
           ''--nAng'', fmt_d nAng,
           ''--NE-resolution'', neRes,
           ''--precision'', fmt_f False 0 1 (of_int prec) ]
         @ (if debug a then [''--debug''] else [])
         @ (if plot a then [''--plot''] else [])))"

definition run_gft :: "'a args_scheme \<Rightarrow> event list \<Rightarrow> string list \<Rightarrow> event list" where
  \<comment> \<open>the tail of both loop bodies: the message, then \<open>subprocess.run\<close> unless \<open>--dry-run\<close>\<close>
  \<open>run_gft a evs cmd =
     (let evs1 = evs @ [Print (''Running "'' @ join '' '' cmd @ ''" ...'')]
      in if \<not> dryRun a then evs1 @ [SubprocessRun cmd] else evs1)\<close>

definition complexity_sweep :: "string \<Rightarrow> 'a args_scheme \<Rightarrow> event list" where
  "complexity_sweep pyver a = foldl (\<lambda>evs c. run_gft a evs (complexity_cmd pyver a c)) [] combs"

definition ripples_sweep :: "string \<Rightarrow> 'a rargs_scheme \<Rightarrow> event list" where
  "ripples_sweep pyver a =
     foldl (\<lambda>evs dur. foldl (\<lambda>evs c. run_gft a evs (ripples_cmd pyver a dur c)) evs combs)
       [] [1..24]"

fun subprocess_runs :: "event list \<Rightarrow> string list list" where
  "subprocess_runs [] = []"
| "subprocess_runs (SubprocessRun cmd # es) = cmd # subprocess_runs es"
| "subprocess_runs (_ # es) = subprocess_runs es"

fun arg_after :: "string \<Rightarrow> string list \<Rightarrow> string option" where
  \<comment> \<open>the value that follows the first occurrence of an option on a command line\<close>
  "arg_after k [] = None"
| "arg_after k [x] = None"
| "arg_after k (x # y # ys) = (if x = k then Some y else arg_after k (y # ys))"

section \<open>Files on disk\<close>

text \<open>
  The only state the scripts share is the file system. It is a finite table from paths to
  contents; \<open>os.path.exists\<close>, reading and writing are lookups and updates of the table.
  Directories are not modelled: a write succeeds wherever it goes. Opening a missing file
  for reading raises, as in Python; what the geometry, plotting and video libraries compute
  from a content is left to parameters, and their calls are taken to return.
\<close>

type_synonym 'c fs = "(path \<times> 'c) list"

datatype py_error = FileNotFoundError path | IndexError

definition path_exists :: "'c fs \<Rightarrow> path \<Rightarrow> bool" where
  "path_exists files p = (map_of files p \<noteq> None)"

definition read_file :: "'c fs \<Rightarrow> path \<Rightarrow> py_error + 'c" where
  "read_file files p = (case map_of files p of None \<Rightarrow> Inl (FileNotFoundError p) | Some c \<Rightarrow> Inr c)"

definition write_file :: "'c fs \<Rightarrow> path \<Rightarrow> 'c \<Rightarrow> 'c fs" where
  "write_file files p c = (p, c) # filter (\<lambda>e. fst e \<noteq> p) files"

definition dirname :: "path \<Rightarrow> path" where
  \<comment> \<open>\<open>posixpath.dirname\<close>: up to the last slash, trailing slashes removed unless nothing else is left\<close>
  "dirname p =
     (let head = rev (dropWhile (\<lambda>c. c \<noteq> CHR ''/'') (rev p))
      in if head \<noteq> [] \<and> \<not> list_all (\<lambda>c. c = CHR ''/'') head
         then rev (dropWhile (\<lambda>c. c = CHR ''/'') (rev head)) else head)"

definition removesuffix :: "string \<Rightarrow> string \<Rightarrow> string" where
  "removesuffix s suffix =
     (if suffix \<noteq> [] \<and> length suffix \<le> length s \<and> drop (length s - length suffix) s = suffix
      then take (length s - length suffix) s else s)"

record 'c world =
  files :: "'c fs"
  events :: "event list"

section \<open>Paths by convention\<close>

definition comb_dname :: "comb \<Rightarrow> path" where
  \<comment> \<open>\<open>dname\<close> of \<open>complexity.py\<close>\<close>
  "comb_dname = (\<lambda>(nAng, neRes, prec, color).
     ''res='' @ neRes @ ''_cons=2.00e+00_tol=1.00e-10/local=F_nAng='' @ fmt_d nAng
       @ ''_prec='' @ fmt_e 2 prec)"

definition allLands_fname :: "comb \<Rightarrow> path" where
  "allLands_fname c = comb_dname c @ ''/allLands.wkb.gz''"

definition complexity_png :: "comb \<Rightarrow> path" where
  "complexity_png = (\<lambda>(nAng, neRes, prec, color).
     ''complexity_res='' @ neRes @ ''_cons=2.00e+00_nAng='' @ fmt_d nAng
       @ ''_prec='' @ fmt_e 2 prec @ ''.png'')"

definition limit_dname :: "comb \<Rightarrow> path" where
  \<comment> \<open>\<open>dname\<close> of \<open>ripples_flight.py\<close>\<close>
  "limit_dname = (\<lambda>(nAng, neRes, prec, color).
     (let freqLand = 8 * 928000 div prec;
          freqPlot = 928000 div prec;
          freqSimp = 928000 div prec
      in ''res='' @ neRes @ ''_cons=2.00e+00_tol=1.00e-10/local=F_nAng='' @ fmt_d nAng
           @ ''_prec='' @ fmt_e 2 prec @ ''/freqLand='' @ fmt_d freqLand
           @ ''_freqSimp='' @ fmt_d freqSimp @ ''_lon='' @ fmt_f True 11 6 lon
           @ ''_lat='' @ fmt_f True 10 6 lat @ ''/limit''))"

definition limit_fname :: "comb \<Rightarrow> int \<Rightarrow> path" where
  \<comment> \<open>\<open>f"{dname}/istep={istep + 1:06d}.wkb.gz"\<close>, as a function of the number printed\<close>
  "limit_fname c n = limit_dname c @ ''/istep='' @ fmt_0d 6 n @ ''.wkb.gz''"

definition outDir :: path where
  "outDir = join ''_''
     [ ''nAng='' @ join '','' (map (\<lambda>(nAng, neRes, prec, color). fmt_d nAng) combs),
       ''neRes='' @ join '','' (map (\<lambda>(nAng, neRes, prec, color). neRes) combs),
       ''prec='' @ join '','' (map (\<lambda>(nAng, neRes, prec, color). fmt_e 2 prec) combs) ]"

definition start_dir :: path where
  \<comment> \<open>\<open>f"{outDir}/lon={lon:+011.6f}_lat={lat:+010.6f}"\<close>\<close>
  "start_dir = outDir @ ''/lon='' @ fmt_f True 11 6 lon @ ''_lat='' @ fmt_f True 10 6 lat"

definition frame_path :: "int \<Rightarrow> path" where
  "frame_path distance = start_dir @ ''/dist='' @ fmt_0d 5 distance @ ''_Flight.png''"

definition mp4_path :: "int option \<Rightarrow> path" where
  \<comment> \<open>the video at full size (\<open>None\<close>) or at a maximum size\<close>
  "mp4_path maxSize =
     start_dir @ ''_Flight'' @ (case maxSize of None \<Rightarrow> '''' | Some n \<Rightarrow> fmt_0d 4 n @ ''px'') @ ''.mp4''"

section \<open>The histogram of \<open>complexity.py\<close>\<close>

type_synonym coord = "real \<times> real"

type_synonym hist = "64 word list list"

definition dLon :: real where "dLon = 10"
definition dLat :: real where "dLat = 10"
definition nLon :: int where "nLon = 36"
definition nLat :: int where "nLat = 18"

record ('c, 'g) shapes =
  wkb_loads :: "'c \<Rightarrow> 'g"
  extract_polys :: "bool \<Rightarrow> bool \<Rightarrow> 'g \<Rightarrow> 'g list"
  exterior_coords :: "'g \<Rightarrow> coord list"

text \<open>
  A coordinate is a binary64 number, and so are \<open>coord[0] + 180.0\<close>,
  \<open>90.0 - coord[1]\<close> and their quotients by \<open>10.0\<close>: each is the exact result rounded
  to the nearest number with 53 significant bits, ties to even. \<open>binade a\<close> is the
  exponent \<open>e\<close> with \<open>2\<^sup>e \<le> a < 2\<^sup>e\<^sup>+\<^sup>1\<close>; below \<open>2\<^sup>-\<^sup>1\<^sup>0\<^sup>2\<^sup>2\<close> the spacing
  stays that of the subnormal numbers. Overflow is left out: no finite coordinate reaches it
  in these three operations, since 180 and 90 are far below the spacing of the largest
  numbers and the division only makes a number smaller. The colour index below is left on
  exact numbers: a count below 67 times 255 is exact, its quotient by 66 is either a tie that
  binary64 holds exactly (at 11, 33 and 55) or at least \<open>1/22\<close> away from one, and from 67
  on the minimum is 255 either way.
\<close>

fun bit_length :: "nat \<Rightarrow> int" where
  "bit_length n = (if n = 0 then 0 else 1 + bit_length (n div 2))"

declare bit_length.simps [simp del]

definition pow2 :: "int \<Rightarrow> real" where
  "pow2 e = (if 0 \<le> e then 2 ^ nat e else 1 / 2 ^ nat (- e))"

definition binade :: "real \<Rightarrow> int" where
  \<comment> \<open>for \<open>a > 0\<close>\<close>
  "binade a =
     (if 1 \<le> a then bit_length (nat \<lfloor>a\<rfloor>) - 1 else - bit_length (nat (\<lceil>1 / a\<rceil> - 1)))"

definition binary64 :: "real \<Rightarrow> real" where
  "binary64 y =
     (if y = 0 then 0
      else (let q = pow2 (max (binade \<bar>y\<bar>) (- 1022) - 52)
            in of_int (round_half_even (y / q)) * q))"

definition float_add :: "real \<Rightarrow> real \<Rightarrow> real" where
  "float_add x y = binary64 (x + y)"

definition float_sub :: "real \<Rightarrow> real \<Rightarrow> real" where
  "float_sub x y = binary64 (x - y)"

definition float_mul :: "real \<Rightarrow> real \<Rightarrow> real" where
  "float_mul x y = binary64 (x * y)"

definition float_div :: "real \<Rightarrow> real \<Rightarrow> real" where
  \<comment> \<open>for a divisor other than zero\<close>
  "float_div x y = binary64 (x / y)"

definition pixel :: "coord \<Rightarrow> int \<times> int" where
  \<comment> \<open>\<open>(iLat, iLon)\<close> of a coordinate \<open>(coord[0], coord[1])\<close>\<close>
  "pixel coord =
     (let iLon = max 0 (min (nLon - 1) \<lfloor>float_div (float_add (fst coord) 180) dLon\<rfloor>);
          iLat = max 0 (min (nLat - 1) \<lfloor>float_div (float_sub 90 (snd coord)) dLat\<rfloor>)
      in (iLat, iLon))"

definition axis_index :: "nat \<Rightarrow> int \<Rightarrow> py_error + nat" where
  \<comment> \<open>an index along an axis of length \<open>n\<close>; negative indices count from the end\<close>
  "axis_index n i =
     (if 0 \<le> i \<and> i < int n then Inr (nat i)
      else if - int n \<le> i \<and> i < 0 then Inr (nat (i + int n))
      else Inl IndexError)"

definition zeros :: "nat \<Rightarrow> nat \<Rightarrow> hist" where
  "zeros rows cols = replicate rows (replicate cols 0)"

definition hist_shape :: "hist \<Rightarrow> bool" where
  \<comment> \<open>the shape \<open>(nLat, nLon)\<close> of the array\<close>
  "hist_shape h = (length h = 18 \<and> list_all (\<lambda>row. length row = 36) h)"

definition hist_incr :: "hist \<Rightarrow> int \<times> int \<Rightarrow> py_error + hist" where
  \<comment> \<open>\<open>histArr[iLat, iLon] += 1\<close> on \<open>uint64\<close>\<close>
  "hist_incr h = (\<lambda>(iLat, iLon).
     (case axis_index (length h) iLat of
        Inl e \<Rightarrow> Inl e
      | Inr r \<Rightarrow>
          (case axis_index (length (h ! r)) iLon of
             Inl e \<Rightarrow> Inl e
           | Inr k \<Rightarrow> Inr (h[r := (h ! r)[k := h ! r ! k + 1]]))))"

fun hist_ring :: "hist \<Rightarrow> coord list \<Rightarrow> py_error + hist" where
  "hist_ring h [] = Inr h"
| "hist_ring h (coord # coords) =
     (case hist_incr h (pixel coord) of Inl e \<Rightarrow> Inl e | Inr h' \<Rightarrow> hist_ring h' coords)"

fun hist_polys :: "('c, 'g, 'z) shapes_scheme \<Rightarrow> hist \<Rightarrow> 'g list \<Rightarrow> py_error + hist" where
  "hist_polys L h [] = Inr h"
| "hist_polys L h (allLand # rest) =
     (case hist_ring h (exterior_coords L allLand) of
        Inl e \<Rightarrow> Inl e
      | Inr h' \<Rightarrow> hist_polys L h' rest)"

definition survey :: "('c, 'g, 'z) shapes_scheme \<Rightarrow> 'c fs \<Rightarrow> comb \<Rightarrow> (py_error + hist) option" where
  \<comment> \<open>one turn of the second loop, up to the histogram; \<open>None\<close> is \<open>continue\<close>\<close>
  "survey L fs c =
     (let fname = allLands_fname c
      in if \<not> path_exists fs fname then None
         else Some (case read_file fs fname of
                      Inl e \<Rightarrow> Inl e
                    | Inr content \<Rightarrow>
                        hist_polys L (zeros (nat nLat) (nat nLon))
                          (extract_polys L False False (wkb_loads L content))))"

definition colour_index :: "64 word \<Rightarrow> int" where
  \<comment> \<open>\<open>round(min(255.0, 255.0 * histArr[iLat0, iLon0].astype(numpy.float64) / 66.0))\<close>\<close>
  "colour_index v = round_half_even (min 255 (255 * real (unat v) / 66))"

definition list_index :: "'a list \<Rightarrow> int \<Rightarrow> py_error + 'a" where
  "list_index xs i = (case axis_index (length xs) i of Inl e \<Rightarrow> Inl e | Inr k \<Rightarrow> Inr (xs ! k))"

definition pixel_colour :: "(nat \<times> nat \<times> nat) list \<Rightarrow> 64 word \<Rightarrow> py_error + nat \<times> nat \<times> nat" where
  \<comment> \<open>the colour of every pixel of a cell; \<open>turbo\<close> is \<open>cts["turbo"]\<close>\<close>
  "pixel_colour turbo v =
     (if 0 < v then list_index turbo (colour_index v) else Inr (255, 255, 255))"

subsection \<open>The image of a histogram\<close>

text \<open>
  The rest of a turn of the loop makes the picture: every cell becomes a square of
  \<open>scale \<times> scale\<close> pixels of its colour, the exterior rings are drawn over it as lines, and
  the picture is saved under the name of the combination and optimised. What \<open>PIL\<close> draws and
  encodes is a parameter: \<open>png_of_image\<close> stands for the PNG of an array of pixels with the
  lines drawn; \<open>colour_table\<close> is \<open>cts["turbo"]\<close>, whose entries are triples of bytes.
\<close>

definition scale :: nat where "scale = 100"

fun collect :: "(py_error + 'a) list \<Rightarrow> py_error + 'a list" where
  \<comment> \<open>the results in order, or the first exception\<close>
  "collect [] = Inr []"
| "collect (x # xs) =
     (case x of
        Inl e \<Rightarrow> Inl e
      | Inr y \<Rightarrow> (case collect xs of Inl e \<Rightarrow> Inl e | Inr ys \<Rightarrow> Inr (y # ys)))"

definition cell_colours ::
  "(nat \<times> nat \<times> nat) list \<Rightarrow> hist \<Rightarrow> py_error + (nat \<times> nat \<times> nat) list list" where
  \<comment> \<open>the colour of each cell; the only exception of the loops is \<open>IndexError\<close>, so the
      order in which they visit the cells does not show\<close>
  "cell_colours table h = collect (map (\<lambda>row. collect (map (pixel_colour table) row)) h)"

definition upscale :: "nat \<Rightarrow> 'a list list \<Rightarrow> 'a list list" where
  \<comment> \<open>\<open>histImgArr\<close>: pixel \<open>(iLat, iLon)\<close> has the colour of cell \<open>(iLat // s, iLon // s)\<close>\<close>
  "upscale s grid = concat (map (\<lambda>row. replicate s (concat (map (replicate s) row))) grid)"

definition line_point :: "coord \<Rightarrow> real \<times> real" where
  \<comment> \<open>\<open>(x, y)\<close> of a coordinate on the upscaled image\<close>
  "line_point coord =
     (let x = max 0 (min (real_of_int (nLon * int scale))
                      (float_div (float_mul (real scale) (float_add (fst coord) 180)) dLon));
          y = max 0 (min (real_of_int (nLat * int scale))
                      (float_div (float_mul (real scale) (float_sub 90 (snd coord))) dLat))
      in (x, y))"

fun group3 :: "string \<Rightarrow> string" where
  \<comment> \<open>a comma after every third digit, on the digits in reverse\<close>
  "group3 (a # b # c # d # ds) = a # b # c # CHR '','' # group3 (d # ds)"
| "group3 ds = ds"

definition fmt_comma_d :: "nat \<Rightarrow> string" where
  \<comment> \<open>\<open>f"{n:,d}"\<close> for \<open>n \<ge> 0\<close>\<close>
  "fmt_comma_d n = rev (group3 (rev (show_nat n)))"

definition hist_max :: "hist \<Rightarrow> nat" where
  \<comment> \<open>\<open>histArr.max()\<close>; the array is not empty\<close>
  "hist_max h = unat (foldl max 0 (concat h))"

record ('c, 'g) imaging = "('c, 'g) shapes" +
  colour_table :: "(nat \<times> nat \<times> nat) list"
  png_of_image :: "(nat \<times> nat \<times> nat) list list \<Rightarrow> (real \<times> real) list list \<Rightarrow> 'c"
  optimise_png :: "'c \<Rightarrow> 'c"

definition complexity_turn ::
  "('c, 'g) imaging \<Rightarrow> 'c world \<Rightarrow> comb \<Rightarrow> py_error + 'c world" where
  \<comment> \<open>one turn of the second loop of \<open>complexity.py\<close>; \<open>content\<close> is what the survey loaded\<close>
  \<open>complexity_turn I w c =
     (let fname = allLands_fname c;
          png = complexity_png c
      in case survey I (files w) c of
           None \<Rightarrow> Inr w
         | Some (Inl e) \<Rightarrow> Inl e
         | Some (Inr histArr) \<Rightarrow>
             (case cell_colours (colour_table I) histArr of
                Inl e \<Rightarrow> Inl e
              | Inr grid \<Rightarrow>
                  (case read_file (files w) fname of
                     Inl e \<Rightarrow> Inl e
                   | Inr content \<Rightarrow>
                       (let lines = map (\<lambda>allLand. map line_point (exterior_coords I allLand))
                                      (extract_polys I False False (wkb_loads I content))
                        in Inr (w\<lparr> files := write_file (files w) png
                                     (optimise_png I (png_of_image I (upscale scale grid) lines)),
                                   events := events w
                                     @ [Print (''Surveying "'' @ fname @ ''" ...''),
                                        Print ('' > Maximum value = '' @ fmt_comma_d (hist_max histArr) @ ''.''),
                                        Print (''Saving "'' @ png @ ''" ...'')] \<rparr>)))))\<close>

fun complexity_loop ::
  "('c, 'g) imaging \<Rightarrow> 'c world \<Rightarrow> comb list \<Rightarrow> py_error + 'c world" where
  "complexity_loop I w [] = Inr w"
| "complexity_loop I w (c # cs) =
     (case complexity_turn I w c of Inl e \<Rightarrow> Inl e | Inr w' \<Rightarrow> complexity_loop I w' cs)"

section \<open>The frames of \<open>ripples_flight.py\<close>\<close>

text \<open>
  The model starts at \<open>frames = []\<close>: the sweep is above, and the report on the distance
  flown so far, which lies between the two and writes nothing, is left out. What
  \<open>matplotlib\<close> draws and what \<open>pyguymer3\<close> encodes are parameters: \<open>savefig\<close>
  stands for the figure of a distance drawn from the land and the limits that were loaded,
  \<open>images2mp4\<close> for the video made from the frames on disk at a maximum size.
\<close>

record 'c plotting =
  savefig :: "int \<Rightarrow> 'c \<Rightarrow> 'c list \<Rightarrow> 'c"
  optimise_image :: "'c \<Rightarrow> 'c"
  images2mp4 :: "'c fs \<Rightarrow> path list \<Rightarrow> int option \<Rightarrow> 'c"

record 'c rstate = "'c world" +
  frames :: "path list"

definition limit_fnames :: "'c fs \<Rightarrow> int \<Rightarrow> path list" where
  \<comment> \<open>the loop over combinations that collects \<open>fnames\<close>\<close>
  "limit_fnames fs distance =
     foldl (\<lambda>fnames (nAng, neRes, prec, color).
              if (1000 * distance) mod prec \<noteq> 0 then fnames
              else (let istep = (1000 * distance) div prec - 1;
                        fname = limit_fname (nAng, neRes, prec, color) (istep + 1)
                    in if \<not> path_exists fs fname then fnames else fnames @ [fname]))
       [] combs"

definition limit_ok :: "'c fs \<Rightarrow> int \<Rightarrow> comb \<Rightarrow> bool" where
  \<comment> \<open>the distance is a whole number of steps of the combination and its result file is there\<close>
  "limit_ok fs distance = (\<lambda>(nAng, neRes, prec, color).
     (1000 * distance) mod prec = 0
     \<and> path_exists fs (limit_dname (nAng, neRes, prec, color) @ ''/istep=''
          @ fmt_0d 6 ((1000 * distance) div prec) @ ''.wkb.gz''))"

fun read_files :: "'c fs \<Rightarrow> path list \<Rightarrow> py_error + 'c list" where
  "read_files fs [] = Inr []"
| "read_files fs (p # ps) =
     (case read_file fs p of
        Inl e \<Rightarrow> Inl e
      | Inr c \<Rightarrow> (case read_files fs ps of Inl e \<Rightarrow> Inl e | Inr cs \<Rightarrow> Inr (c # cs)))"

definition render_frame ::
  "('c, 'y) plotting_scheme \<Rightarrow> ('c, 'z) rstate_scheme \<Rightarrow> int \<Rightarrow> path list
     \<Rightarrow> py_error + ('c, 'z) rstate_scheme" where
  \<comment> \<open>from the message \<open>Making ...\<close> to \<open>frames.append(frame)\<close>\<close>
  \<open>render_frame P st distance fnames =
     (let frame = frame_path distance;
          making = [Print (''Making "'' @ frame @ ''" ...'')]
      in if fnames = [] then Inl IndexError
         else (case read_file (files st)
                      (dirname (dirname (dirname (last fnames))) @ ''/allLands.wkb.gz'') of
                 Inl e \<Rightarrow> Inl e
               | Inr allLands \<Rightarrow>
                   (case read_files (files st) fnames of
                      Inl e \<Rightarrow> Inl e
                    | Inr limits \<Rightarrow>
                        Inr (st\<lparr> files := write_file (files st) frame
                                            (optimise_image P (savefig P distance allLands limits)),
                                 events := events st @ making
                                   @ map (\<lambda>fname. Print ('' > Loading "'' @ fname @ ''" ...'')) fnames,
                                 frames := frames st @ [frame] \<rparr>))))\<close>

definition frame_step ::
  "('c, 'y) plotting_scheme \<Rightarrow> ('c, 'z) rstate_scheme \<Rightarrow> int \<Rightarrow> py_error + ('c, 'z) rstate_scheme" where
  \<comment> \<open>one turn of the loop over distances\<close>
  "frame_step P st distance =
     (let frame = frame_path distance
      in if path_exists (files st) frame then Inr (st\<lparr>frames := frames st @ [frame]\<rparr>)
         else (let fnames = limit_fnames (files st) distance
               in if length fnames \<noteq> length combs then Inr st
                  else render_frame P st distance fnames))"

fun frames_loop ::
  "('c, 'y) plotting_scheme \<Rightarrow> ('c, 'z) rstate_scheme \<Rightarrow> int list \<Rightarrow> py_error + ('c, 'z) rstate_scheme" where
  "frames_loop P st [] = Inr st"
| "frames_loop P st (distance # dists) =
     (case frame_step P st distance of Inl e \<Rightarrow> Inl e | Inr st' \<Rightarrow> frames_loop P st' dists)"

definition save_mp4 ::
  "('c, 'y) plotting_scheme \<Rightarrow> ('c, 'z) rstate_scheme \<Rightarrow> int option \<Rightarrow> ('c, 'z) rstate_scheme" where
  \<comment> \<open>\<open>images2mp4\<close> on \<open>frames\<close>, then \<open>shutil.move\<close> of the video to its place\<close>
  \<open>save_mp4 P st maxSize =
     (let mp4 = mp4_path maxSize
      in st\<lparr> files := write_file (files st) mp4 (images2mp4 P (files st) (frames st) maxSize),
              events := events st @ [Print (''Making "'' @ mp4 @ ''" ...''),
                                     Images2mp4 (frames st) maxSize] \<rparr>)\<close>

definition ripples_movie ::
  "('c, 'y) plotting_scheme \<Rightarrow> 'c fs \<Rightarrow> py_error + 'c rstate" where
  \<comment> \<open>from \<open>frames = []\<close> to the end of the script\<close>
  "ripples_movie P fs =
     (case frames_loop P \<lparr>files = fs, events = [], frames = []\<rparr> [1..30000] of
        Inl e \<Rightarrow> Inl e
      | Inr st \<Rightarrow> Inr (foldl (save_mp4 P) (save_mp4 P st None) (map Some [512, 1024, 2048])))"

fun mp4_calls :: "event list \<Rightarrow> (path list \<times> int option) list" where
  "mp4_calls [] = []"
| "mp4_calls (Images2mp4 fr sz # es) = (fr, sz) # mp4_calls es"
| "mp4_calls (_ # es) = mp4_calls es"

section \<open>\<open>saveAllLands\<close>\<close>

text \<open>
  The geometry library is a record of parameters, one for each call the function makes:
  \<open>cartopy\<close> for the Shapefile and its records, \<open>shapely\<close> and \<open>pyguymer3\<close> for
  the geometry, \<open>gst\<close> for the interior rings. \<open>pyguymer3.geo.check\<close>, called when
  \<open>debug\<close> is set, only validates a geometry; the source notes that the Polygons are valid
  where it is called, and the model takes it to return.
\<close>

record 'g ne_record =
  NAME :: string
  geometry :: 'g

record 'g kwargs =
  avoidCountries :: "string list"
  kw_debug :: bool
  kw_dist :: real
  kw_fill :: real
  fillSpace :: string
  kw_local :: bool
  maxPlane :: "'g option"
  kw_nAng :: int
  nIter :: int
  kw_neRes :: string
  kw_simp :: real
  tol :: real

definition default_kwargs :: "'g kwargs" where
  \<comment> \<open>the defaults of the signature; \<open>__debug__\<close> is true unless Python runs with \<open>-O\<close>\<close>
  "default_kwargs =
     \<lparr> avoidCountries = [''Baikonur'', ''Iran'', ''Russia'', ''Ukraine''],
       kw_debug = True, kw_dist = - 1, kw_fill = 1, fillSpace = ''EuclideanSpace'',
       kw_local = False, maxPlane = None, kw_nAng = 9, nIter = 100, kw_neRes = ''110m'',
       kw_simp = 1 / 10, tol = 1 / 10 ^ 10 \<rparr>"

record ('c, 'g) geo = "('c, 'g) shapes" +
  natural_earth :: "string \<Rightarrow> path"
  shp_records :: "path \<Rightarrow> 'g ne_record list"
  centroid :: "'g \<Rightarrow> real \<times> real"
  area :: "'g \<Rightarrow> real"
  disjoint :: "'g \<Rightarrow> 'g \<Rightarrow> bool"
  intersection :: "'g \<Rightarrow> 'g \<Rightarrow> 'g"
  buffer :: "'g \<Rightarrow> 'g kwargs \<Rightarrow> 'g"
  unary_union :: "'g list \<Rightarrow> 'g"
  simplify :: "'g \<Rightarrow> real \<Rightarrow> 'g"
  removeInteriorRings :: "'g \<Rightarrow> 'g"
  wkb_dumps :: "'g \<Rightarrow> 'c"
  geojson_dump :: "'g \<Rightarrow> 'c"

definition tmp_name :: "('c, 'g) geo \<Rightarrow> path \<Rightarrow> 'g \<Rightarrow> path" where
  "tmp_name L dname g =
     dname @ ''/'' @ fmt_f True 11 6 (fst (centroid L g)) @ '','' @ fmt_f True 10 6 (snd (centroid L g))
       @ '','' @ fmt_f False 12 7 (area L g) @ ''.wkb.gz''"

definition poly_step :: "('c, 'g) geo \<Rightarrow> 'g kwargs \<Rightarrow> 'g list \<Rightarrow> 'g \<Rightarrow> 'g list" where
  \<comment> \<open>one turn of the loop over the Polygons of a record; \<open>buffer\<close> takes its keywords from \<open>kw\<close>\<close>
  "poly_step L kw polys poly =
     (let clipped =
            (case (if kw_local kw then maxPlane kw else None) of
               None \<Rightarrow> Some poly
             | Some plane \<Rightarrow>
                 if disjoint L plane poly then None else Some (intersection L plane poly))
      in case clipped of
           None \<Rightarrow> polys
         | Some poly1 \<Rightarrow>
             (let poly2 = (if 0 < kw_dist kw then buffer L poly1 kw else poly1)
              in polys @ extract_polys L False False poly2))"

definition save_record ::
  "('c, 'g) geo \<Rightarrow> path \<Rightarrow> 'g kwargs \<Rightarrow> 'c world \<Rightarrow> 'g ne_record \<Rightarrow> 'c world" where
  \<comment> \<open>the body of the loop over records after the test on the country\<close>
  \<open>save_record L dname kw w record =
     (let tmpName = tmp_name L dname (geometry record)
      in if path_exists (files w) tmpName then w
         else (let w1 = w\<lparr>events := events w @ [Print (''   > Making "'' @ tmpName @ ''" ...'')]\<rparr>;
                   polys = foldl (poly_step L kw) []
                             (extract_polys L True True (geometry record))
               in if polys = []
                  then w1\<lparr>events := events w1 @ [Print ''     > Skipped (no Polygons).'']\<rparr>
                  else w1\<lparr>files := write_file (files w1) tmpName
                              (wkb_dumps L (simplify L (unary_union L polys) (tol kw)))\<rparr>))\<close>

definition record_step ::
  "('c, 'g) geo \<Rightarrow> path \<Rightarrow> 'g kwargs \<Rightarrow> 'c world \<Rightarrow> 'g ne_record \<Rightarrow> 'c world" where
  "record_step L dname kw w record =
     (if NAME record \<notin> set (avoidCountries kw) then w else save_record L dname kw w record)"

definition save_records :: "('c, 'g) geo \<Rightarrow> path \<Rightarrow> 'g kwargs \<Rightarrow> 'c world \<Rightarrow> 'c world" where
  \<comment> \<open>the first half of \<open>saveAllLands\<close>: the temporary file of each country to avoid\<close>
  \<open>save_records L dname kw w =
     (let sfile = natural_earth L (kw_neRes kw);
          w1 = w\<lparr>events := events w @ [Print ('' > Loading "'' @ sfile @ ''" ...'')]\<rparr>
      in foldl (record_step L dname kw) w1 (shp_records L sfile))\<close>

fun qmatch :: "string \<Rightarrow> string \<Rightarrow> bool" where
  \<comment> \<open>a file name against a pattern whose only wildcard is \<open>?\<close>\<close>
  "qmatch [] [] = True"
| "qmatch (q # qs) (c # cs) = ((q = CHR ''?'' \<or> q = c) \<and> c \<noteq> CHR ''/'' \<and> qmatch qs cs)"
| "qmatch _ _ = False"

fun strip_prefix :: "string \<Rightarrow> string \<Rightarrow> string option" where
  "strip_prefix [] s = Some s"
| "strip_prefix (p # ps) [] = None"
| "strip_prefix (p # ps) (c # cs) = (if p = c then strip_prefix ps cs else None)"

definition glob_tmp :: "'c fs \<Rightarrow> path \<Rightarrow> path list" where
  \<comment> \<open>\<open>sorted(glob.glob(f"{dname}/????.??????,???.??????,????.???????.wkb.gz"))\<close> for a
      \<open>dname\<close> without wildcards; \<open>?\<close> does not match a leading dot\<close>
  "glob_tmp fs dname =
     sort (filter (\<lambda>p. case strip_prefix (dname @ ''/'') p of
                          None \<Rightarrow> False
                        | Some leaf \<Rightarrow> take 1 leaf \<noteq> ''.''
                            \<and> qmatch ''????.??????,???.??????,????.???????.wkb.gz'' leaf)
             (remdups (map fst fs)))"

definition load_tmp ::
  "('c, 'g) geo \<Rightarrow> 'c world \<times> 'g list \<Rightarrow> path \<Rightarrow> 'c world \<times> 'g list" where
  \<comment> \<open>one turn of the loop over the temporary files; a file that \<open>glob\<close> returned is there\<close>
  \<open>load_tmp L = (\<lambda>(w, polys) tmpName.
     (w\<lparr>events := events w @ [Print ('' > Loading "'' @ tmpName @ ''" ...'')]\<rparr>,
      polys @ (case read_file (files w) tmpName of
                 Inl e \<Rightarrow> []
               | Inr content \<Rightarrow> extract_polys L False False (wkb_loads L content))))\<close>

definition saveAllLands ::
  "('c, 'g) geo \<Rightarrow> path \<Rightarrow> path \<Rightarrow> 'g kwargs \<Rightarrow> 'c world \<Rightarrow> bool \<times> 'c world" where
  "saveAllLands L wName dname kw w0 =
     (let gName = removesuffix wName ''.wkb.gz'' @ ''.geojson'';
          w1 = save_records L dname kw w0;
          (w2, polys) = foldl (load_tmp L) (w1, []) (glob_tmp (files w1) dname)
      in if polys = [] then (False, w2)
         else (let polys1 = removeInteriorRings L (simplify L (unary_union L polys) (tol kw));
                   polys2 = (if 0 < kw_simp kw
                             then removeInteriorRings L (simplify L polys1 (kw_simp kw))
                             else polys1);
                   w3 = w2\<lparr>files := write_file (files w2) wName (wkb_dumps L polys2)\<rparr>;
                   w4 = w3\<lparr>files := write_file (files w3) gName (geojson_dump L polys2)\<rparr>
               in (True, w4)))"

section \<open>A small instance for the examples\<close>

text \<open>
  The examples below run the models on a toy geometry library: a geometry is a list of
  rings, a content is the geometry itself, and plots and videos are short strings.
\<close>

definition toy_shapes :: "(coord list list, coord list list) shapes" where
  "toy_shapes =
     \<lparr> wkb_loads = (\<lambda>c. c),
       extract_polys = (\<lambda>onlyValid repair g. map (\<lambda>ring. [ring]) g),
       exterior_coords = concat \<rparr>"

definition toy_imaging :: "(coord list list, coord list list) imaging" where
  "toy_imaging =
     \<lparr> wkb_loads = (\<lambda>c. c),
       extract_polys = (\<lambda>onlyValid repair g. map (\<lambda>ring. [ring]) g),
       exterior_coords = concat,
       colour_table = map (\<lambda>i. (i, 255 - i, 128)) [0..<256],
       png_of_image = (\<lambda>pixels lines. lines),
       optimise_png = (\<lambda>c. c) \<rparr>"

definition toy_geo :: "(coord list list, coord list list) geo" where
  "toy_geo =
     \<lparr> wkb_loads = (\<lambda>c. c),
       extract_polys = (\<lambda>onlyValid repair g. map (\<lambda>ring. [ring]) g),
       exterior_coords = concat,
       natural_earth = (\<lambda>res. ''ne_'' @ res @ ''_admin_0_countries.shp''),
       shp_records = (\<lambda>sfile.
         [ \<lparr>NAME = ''Japan'', geometry = [[(139, 35), (140, 35), (140, 36)]]\<rparr>,
           \<lparr>NAME = ''Iran'', geometry = [[(50, 30), (55, 30), (55, 35)]]\<rparr>,
           \<lparr>NAME = ''Baikonur'', geometry = []\<rparr> ]),
       centroid = (\<lambda>g. case concat g of [] \<Rightarrow> (0, 0) | c # cs \<Rightarrow> c),
       area = (\<lambda>g. of_nat (length (concat g))),
       disjoint = (\<lambda>g g'. set (concat g) \<inter> set (concat g') = {}),
       intersection = (\<lambda>g g'. map (filter (\<lambda>c. c \<in> set (concat g))) g'),
       buffer = (\<lambda>g kw. g),
       unary_union = concat,
       simplify = (\<lambda>g t. g),
       removeInteriorRings = (\<lambda>g. g),
       wkb_dumps = (\<lambda>g. g),
       geojson_dump = (\<lambda>g. g) \<rparr>"

definition toy_plotting :: "string plotting" where
  "toy_plotting =
     \<lparr> savefig = (\<lambda>distance allLands limits. ''png '' @ fmt_d distance),
       optimise_image = (\<lambda>c. c),
       images2mp4 = (\<lambda>fs fr maxSize. ''mp4 of '' @ fmt_d (int (length fr)) @ '' frames'') \<rparr>"

definition toy_results :: "string fs" where
  \<comment> \<open>the three result files of 116 km, without the land of any combination\<close>
  "toy_results =
     [ (''res=110m_cons=2.00e+00_tol=1.00e-10/local=F_nAng=9_prec=1.16e+05/freqLand=64_freqSimp=8_lon=+139.779999_lat=+35.552299/limit/istep=000001.wkb.gz'', ''limit 9''),
       (''res=50m_cons=2.00e+00_tol=1.00e-10/local=F_nAng=17_prec=5.80e+04/freqLand=128_freqSimp=16_lon=+139.779999_lat=+35.552299/limit/istep=000002.wkb.gz'', ''limit 17''),
       (''res=10m_cons=2.00e+00_tol=1.00e-10/local=F_nAng=33_prec=2.90e+04/freqLand=256_freqSimp=32_lon=+139.779999_lat=+35.552299/limit/istep=000004.wkb.gz'', ''limit 33'') ]"

definition toy_results_land :: "string fs" where
  "toy_results_land =
     (''res=10m_cons=2.00e+00_tol=1.00e-10/local=F_nAng=33_prec=2.90e+04/allLands.wkb.gz'', ''land 33'')
       # toy_results"

section \<open>Evaluating the formats\<close>

lemma show_nat_numeral:
  "show_nat (numeral k) =
     (if numeral k < (10::nat) then [digit_char (numeral k)]
      else show_nat (numeral k div 10) @ [digit_char (numeral k mod 10)])"
  by (rule show_nat.simps)

lemma show_nat_0: "show_nat 0 = ''0''"
  by (simp add: show_nat.simps digit_char_def)

lemma show_nat_1: "show_nat (Suc 0) = ''1''"
  by (simp add: show_nat.simps digit_char_def)

lemma ndigits_numeral:
  "ndigits (numeral k) = (if numeral k < (10::nat) then 1 else 1 + ndigits (numeral k div 10))"
  by (rule ndigits.simps)

lemma ndigits_0: "ndigits 0 = 1"
  by (simp add: ndigits.simps)

lemma ndigits_1: "ndigits (Suc 0) = 1"
  by (simp add: ndigits.simps)

lemma replicate_numeral: "replicate (numeral k) x = x # replicate (pred_numeral k) x"
  by (simp add: numeral_eq_Suc)

lemmas fmt_unfold =
  fmt_d_def fmt_0d_def fmt_f_def fmt_e_def fixed_digits_def round_half_even_def Let_def

lemmas fmt_eval =
  zfill_def digit_char_def show_nat_numeral show_nat_0 show_nat_1
  ndigits_numeral ndigits_0 ndigits_1 replicate_numeral

lemma fmt_spd: "fmt_f False 0 1 spd = ''500.0''"
  unfolding spd_def by (simp only: fmt_unfold) (simp add: fmt_eval)

lemma fmt_lon: "fmt_f True 0 6 lon = ''+139.779999''" "fmt_f True 11 6 lon = ''+139.779999''"
  unfolding lon_def by (simp_all only: fmt_unfold) (simp_all add: fmt_eval)

lemma fmt_lat: "fmt_f True 0 6 lat = ''+35.552299''" "fmt_f True 10 6 lat = ''+35.552299''"
  unfolding lat_def by (simp_all only: fmt_unfold) (simp_all add: fmt_eval)

lemma fmt_prec_f:
  "fmt_f False 0 1 116000 = ''116000.0''"
  "fmt_f False 0 1 58000 = ''58000.0''"
  "fmt_f False 0 1 29000 = ''29000.0''"
  by (simp_all only: fmt_unfold) (simp_all add: fmt_eval)

lemmas fmt_f_Suc = fmt_spd [unfolded One_nat_def] fmt_prec_f [unfolded One_nat_def]

lemma fmt_prec_e:
  "fmt_e 2 116000 = ''1.16e+05''"
  "fmt_e 2 58000 = ''5.80e+04''"
  "fmt_e 2 29000 = ''2.90e+04''"
  by (simp_all only: fmt_unfold) (simp_all add: fmt_eval)

lemma fmt_small_d:
  "fmt_d 9 = ''9''" "fmt_d 17 = ''17''" "fmt_d 33 = ''33''"
  "fmt_d 8 = ''8''" "fmt_d 16 = ''16''" "fmt_d 32 = ''32''"
  "fmt_d 64 = ''64''" "fmt_d 128 = ''128''" "fmt_d 256 = ''256''"
  by (simp_all only: fmt_unfold) (simp_all add: fmt_eval)

lemma durs_eq:
  "[1..24] = [1, 2, 3, 4, 5, 6, 7, 8, 9, 10, 11, 12, 13, 14, 15, 16, 17, 18, 19, 20, 21, 22, 23, 24]"
  by (simp add: upto.simps)

lemma fmt_durs:
  "map (\<lambda>dur. fmt_f False 0 2 (of_int dur / 24)) [1..24] =
     [''0.04'', ''0.08'', ''0.12'', ''0.17'', ''0.21'', ''0.25'', ''0.29'', ''0.33'',
      ''0.38'', ''0.42'', ''0.46'', ''0.50'', ''0.54'', ''0.58'', ''0.62'', ''0.67'',
      ''0.71'', ''0.75'', ''0.79'', ''0.83'', ''0.88'', ''0.92'', ''0.96'', ''1.00'']"
  unfolding durs_eq by (simp only: list.map fmt_unfold) (simp add: fmt_eval)

lemma dot_in_fmt_f: "CHR ''.'' \<in> set (fmt_f pl w p x)"
  by (simp add: fmt_f_def fixed_digits_def zfill_def Let_def)

section \<open>The sweeps\<close>

lemma subprocess_runs_append:
  "subprocess_runs (xs @ ys) = subprocess_runs xs @ subprocess_runs ys"
  by (induction xs rule: subprocess_runs.induct) simp_all

lemma subprocess_runs_run_gft:
  "subprocess_runs (run_gft a evs cmd) = subprocess_runs evs @ (if dryRun a then [] else [cmd])"
  by (simp add: run_gft_def Let_def subprocess_runs_append)

lemma subprocess_runs_loop:
  "subprocess_runs (foldl (\<lambda>evs c. run_gft a evs (f c)) evs0 cs) =
     subprocess_runs evs0 @ (if dryRun a then [] else map f cs)"
  by (induction cs arbitrary: evs0) (simp_all add: subprocess_runs_run_gft)

lemma subprocess_runs_loops:
  "subprocess_runs
     (foldl (\<lambda>evs d. foldl (\<lambda>evs c. run_gft a evs (f d c)) evs cs) evs0 ds) =
     subprocess_runs evs0 @ (if dryRun a then [] else concat (map (\<lambda>d. map (f d) cs) ds))"
  by (induction ds arbitrary: evs0) (simp_all add: subprocess_runs_loop)

lemma complexity_cmd_eval:
  "complexity_cmd pyver a (9, ''110m'', 116000, col) =
     [''python'' @ pyver, ''-m'', ''gft'', ''0.0'', ''0.0'', ''500.0'', ''--duration'', ''0.01'',
      ''--freqLand'', ''64'', ''--freqPlot'', ''8'', ''--freqSimp'', ''8'',
      ''--GSHHG-resolution'', ''c'', ''--nAng'', ''9'', ''--NE-resolution'', ''110m'',
      ''--precision'', ''116000.0''] @ (if debug a then [''--debug''] else [])"
  "complexity_cmd pyver a (17, ''50m'', 58000, col) =
     [''python'' @ pyver, ''-m'', ''gft'', ''0.0'', ''0.0'', ''500.0'', ''--duration'', ''0.01'',
      ''--freqLand'', ''128'', ''--freqPlot'', ''16'', ''--freqSimp'', ''16'',
      ''--GSHHG-resolution'', ''c'', ''--nAng'', ''17'', ''--NE-resolution'', ''50m'',
      ''--precision'', ''58000.0''] @ (if debug a then [''--debug''] else [])"
  "complexity_cmd pyver a (33, ''10m'', 29000, col) =
     [''python'' @ pyver, ''-m'', ''gft'', ''0.0'', ''0.0'', ''500.0'', ''--duration'', ''0.01'',
      ''--freqLand'', ''256'', ''--freqPlot'', ''32'', ''--freqSimp'', ''32'',
      ''--GSHHG-resolution'', ''c'', ''--nAng'', ''33'', ''--NE-resolution'', ''10m'',
      ''--precision'', ''29000.0''] @ (if debug a then [''--debug''] else [])"
  by (simp_all add: complexity_cmd_def fmt_f_Suc fmt_small_d)

lemma ripples_cmd_eval:
  "ripples_cmd pyver a dur (9, ''110m'', 116000, col) =
     [''python'' @ pyver, ''-m'', ''gft'', ''+139.779999'', ''+35.552299'', ''500.0'',
      ''--duration'', fmt_f False 0 2 (of_int dur / 24),
      ''--freqLand'', ''64'', ''--freqPlot'', ''8'', ''--freqSimp'', ''8'',
      ''--GSHHG-resolution'', ''c'', ''--nAng'', ''9'', ''--NE-resolution'', ''110m'',
      ''--precision'', ''116000.0'']
     @ (if debug a then [''--debug''] else []) @ (if plot a then [''--plot''] else [])"
  "ripples_cmd pyver a dur (17, ''50m'', 58000, col) =
     [''python'' @ pyver, ''-m'', ''gft'', ''+139.779999'', ''+35.552299'', ''500.0'',
      ''--duration'', fmt_f False 0 2 (of_int dur / 24),
      ''--freqLand'', ''128'', ''--freqPlot'', ''16'', ''--freqSimp'', ''16'',
      ''--GSHHG-resolution'', ''c'', ''--nAng'', ''17'', ''--NE-resolution'', ''50m'',
      ''--precision'', ''58000.0'']
     @ (if debug a then [''--debug''] else []) @ (if plot a then [''--plot''] else [])"
  "ripples_cmd pyver a dur (33, ''10m'', 29000, col) =
     [''python'' @ pyver, ''-m'', ''gft'', ''+139.779999'', ''+35.552299'', ''500.0'',
      ''--duration'', fmt_f False 0 2 (of_int dur / 24),
      ''--freqLand'', ''256'', ''--freqPlot'', ''32'', ''--freqSimp'', ''32'',
      ''--GSHHG-resolution'', ''c'', ''--nAng'', ''33'', ''--NE-resolution'', ''10m'',
      ''--precision'', ''29000.0'']
     @ (if debug a then [''--debug''] else []) @ (if plot a then [''--plot''] else [])"
  by (simp_all add: ripples_cmd_def fmt_f_Suc fmt_lon fmt_lat fmt_small_d)

lemma combs_eval:
  "combs = [(9, ''110m'', 116000, (1, 0, 0, 1)), (17, ''50m'', 58000, (0, 1, 0, 1)),
            (33, ''10m'', 29000, (0, 0, 1, 1))]"
  by (simp add: combs_def)

lemma dur_inj: "inj_on (\<lambda>dur. fmt_f False 0 2 (of_int dur / 24)) (set [1..24])"
proof -
  have "distinct (map (\<lambda>dur. fmt_f False 0 2 (of_int dur / 24)) [1..24])"
    unfolding fmt_durs by simp
  then show ?thesis
    by (simp only: distinct_map)
qed

lemma ripples_cmd_nth:
  "ripples_cmd pyver b dur c ! 7 = fmt_f False 0 2 (of_int dur / 24)"
  "ripples_cmd pyver b dur c ! 17 = fmt_d (fst c)"
proof -
  obtain nAng neRes prec color where c: "c = (nAng, neRes, prec, color)"
    by (cases c) auto
  show "ripples_cmd pyver b dur c ! 7 = fmt_f False 0 2 (of_int dur / 24)"
    unfolding c ripples_cmd_def by (simp add: Let_def)
  show "ripples_cmd pyver b dur c ! 17 = fmt_d (fst c)"
    unfolding c ripples_cmd_def by (simp add: Let_def)
qed

lemma nAng_inj: "c \<in> set combs \<Longrightarrow> c' \<in> set combs \<Longrightarrow> fmt_d (fst c) = fmt_d (fst c') \<Longrightarrow> c = c'"
  unfolding combs_eval by (auto simp: fmt_small_d)

lemma concat_map_product:
  "concat (map (\<lambda>d. map (g d) cs) ds) = map (\<lambda>(d, c). g d c) (List.product ds cs)"
  by (induction ds) (simp_all add: comp_def)

lemma ripples_cmds_distinct:
  "distinct (concat (map (\<lambda>dur. map (ripples_cmd pyver b dur) combs) [1..24]))"
proof -
  have "inj_on (\<lambda>(d, c). ripples_cmd pyver b d c) (set [1..24] \<times> set combs)"
  proof (rule inj_onI, clarify)
    fix d c d' c'
    assume d: "d \<in> set [1..24]" "d' \<in> set [1..24]"
      and c: "c \<in> set combs" "c' \<in> set combs"
      and eq: "ripples_cmd pyver b d c = ripples_cmd pyver b d' c'"
    from eq have "ripples_cmd pyver b d c ! 7 = ripples_cmd pyver b d' c' ! 7"
      by simp
    then have "d = d'"
      using d dur_inj by (simp only: ripples_cmd_nth) (rule inj_onD)
    moreover from eq have "ripples_cmd pyver b d c ! 17 = ripples_cmd pyver b d' c' ! 17"
      by simp
    then have "c = c'"
      using c by (simp only: ripples_cmd_nth) (rule nAng_inj)
    ultimately show "d = d' \<and> c = c'"
      by simp
  qed
  moreover have "distinct (List.product [1..24] combs)"
    by (rule distinct_product) (simp_all add: combs_def)
  ultimately show ?thesis
    unfolding concat_map_product by (simp add: distinct_map)
qed

lemma complexity_cmds_distinct: "distinct (map (complexity_cmd pyver a) combs)"
  unfolding combs_eval by (simp add: complexity_cmd_eval)

text \<open>
  C1. With \<open>--dry-run\<close> neither script passes anything to \<open>subprocess.run\<close>. Without
  it the commands passed are exactly the commands built, in the order of the loops: one for
  each of the three combinations in \<open>complexity.py\<close>, one for each of the 24 durations and
  each combination in \<open>ripples_flight.py\<close>; they are pairwise different, so each is run
  exactly once.
\<close>

theorem gft_runs_unless_dry_run:
  "subprocess_runs (complexity_sweep pyver a) =
     (if dryRun a then [] else map (complexity_cmd pyver a) combs)
   \<and> subprocess_runs (ripples_sweep pyver b) =
     (if dryRun b then [] else concat (map (\<lambda>dur. map (ripples_cmd pyver b dur) combs) [1..24]))
   \<and> distinct (map (complexity_cmd pyver a) combs)
   \<and> length (map (complexity_cmd pyver a) combs) = 3
   \<and> distinct (concat (map (\<lambda>dur. map (ripples_cmd pyver b dur) combs) [1..24]))
   \<and> length (concat (map (\<lambda>dur. map (ripples_cmd pyver b dur) combs) [1..24])) = 72"
proof -
  have "length (concat (map (\<lambda>dur. map (ripples_cmd pyver b dur) combs) [1..24])) = 72"
    unfolding durs_eq by (simp add: combs_def)
  moreover have "length (map (complexity_cmd pyver a) combs) = 3"
    by (simp add: combs_def)
  ultimately show ?thesis
    unfolding complexity_sweep_def ripples_sweep_def
    by (simp only: subprocess_runs_loop subprocess_runs_loops subprocess_runs.simps append_Nil
        ripples_cmds_distinct complexity_cmds_distinct simp_thms)
qed

theorem gft_runs_unless_dry_run_witness:
  "subprocess_runs (complexity_sweep ''3.12'' \<lparr>debug = False, dryRun = True, timeout = 60\<rparr>) = []
   \<and> subprocess_runs (complexity_sweep ''3.12'' \<lparr>debug = False, dryRun = False, timeout = 60\<rparr>) =
     [ [''python3.12'', ''-m'', ''gft'', ''0.0'', ''0.0'', ''500.0'', ''--duration'', ''0.01'',
        ''--freqLand'', ''64'', ''--freqPlot'', ''8'', ''--freqSimp'', ''8'',
        ''--GSHHG-resolution'', ''c'', ''--nAng'', ''9'', ''--NE-resolution'', ''110m'',
        ''--precision'', ''116000.0''],
       [''python3.12'', ''-m'', ''gft'', ''0.0'', ''0.0'', ''500.0'', ''--duration'', ''0.01'',
        ''--freqLand'', ''128'', ''--freqPlot'', ''16'', ''--freqSimp'', ''16'',
        ''--GSHHG-resolution'', ''c'', ''--nAng'', ''17'', ''--NE-resolution'', ''50m'',
        ''--precision'', ''58000.0''],
       [''python3.12'', ''-m'', ''gft'', ''0.0'', ''0.0'', ''500.0'', ''--duration'', ''0.01'',
        ''--freqLand'', ''256'', ''--freqPlot'', ''32'', ''--freqSimp'', ''32'',
        ''--GSHHG-resolution'', ''c'', ''--nAng'', ''33'', ''--NE-resolution'', ''10m'',
        ''--precision'', ''29000.0''] ]"
proof -
  let ?b = "\<lparr>debug = False, dryRun = True, timeout = 60,
    ffmpegPath = None, ffprobePath = None, plot = False\<rparr>"
  show ?thesis
    using gft_runs_unless_dry_run
        [of "''3.12''" "\<lparr>debug = False, dryRun = True, timeout = 60\<rparr>" ?b]
      gft_runs_unless_dry_run
        [of "''3.12''" "\<lparr>debug = False, dryRun = False, timeout = 60\<rparr>" ?b]
    by (simp add: combs_eval complexity_cmd_eval)
qed

lemma fmt_f_neq_nodot [simp]: "CHR ''.'' \<notin> set s \<Longrightarrow> fmt_f pl w p x \<noteq> s"
  using dot_in_fmt_f [of pl w p x] by auto

lemma complexity_cmd_args:
  assumes "c \<in> set combs"
  shows "arg_after ''--nAng'' (complexity_cmd pyver a c) = Some (fmt_d (fst c))
    \<and> arg_after ''--NE-resolution'' (complexity_cmd pyver a c) = Some (fst (snd c))
    \<and> arg_after ''--precision'' (complexity_cmd pyver a c)
        = Some (fmt_f False 0 1 (of_int (fst (snd (snd c)))))"
  using assms unfolding combs_eval
  by (auto simp: complexity_cmd_eval fmt_small_d fmt_f_Suc)

lemma ripples_cmd_args:
  assumes "c \<in> set combs"
  shows "arg_after ''--nAng'' (ripples_cmd pyver b dur c) = Some (fmt_d (fst c))
    \<and> arg_after ''--NE-resolution'' (ripples_cmd pyver b dur c) = Some (fst (snd c))
    \<and> arg_after ''--precision'' (ripples_cmd pyver b dur c)
        = Some (fmt_f False 0 1 (of_int (fst (snd (snd c)))))"
  using assms unfolding combs_eval
  by (auto simp: ripples_cmd_eval fmt_small_d fmt_f_Suc)

lemma comb_tuples:
  "set (map (\<lambda>(nAng, neRes, prec, color). (nAng, neRes, prec)) combs) =
     {(9, ''110m'', 116000), (17, ''50m'', 58000), (33, ''10m'', 29000)}"
  by (simp add: combs_def)

text \<open>
  C3. The tuples (angle count, coastline resolution, precision) of \<open>combs\<close> are the three
  tuples stated, and every command either script builds carries one of them as the values of
  \<open>--nAng\<close>, \<open>--NE-resolution\<close> and \<open>--precision\<close> (the precision printed with one
  decimal, as \<open>f"{prec:.1f}"\<close> does).
\<close>

theorem combs_swept:
  "set (map (\<lambda>(nAng, neRes, prec, color). (nAng, neRes, prec)) combs) =
     {(9, ''110m'', 116000), (17, ''50m'', 58000), (33, ''10m'', 29000)}
   \<and> (\<forall>cmd \<in> set (map (complexity_cmd pyver a) combs)
              \<union> set (concat (map (\<lambda>dur. map (ripples_cmd pyver b dur) combs) [1..24])).
        \<exists>(nAng, neRes, prec) \<in> {(9, ''110m'', 116000), (17, ''50m'', 58000), (33, ''10m'', 29000)}.
          arg_after ''--nAng'' cmd = Some (fmt_d nAng)
          \<and> arg_after ''--NE-resolution'' cmd = Some neRes
          \<and> arg_after ''--precision'' cmd = Some (fmt_f False 0 1 (of_int prec)))"
proof (intro conjI ballI)
  show "set (map (\<lambda>(nAng, neRes, prec, color). (nAng, neRes, prec)) combs) =
     {(9, ''110m'', 116000), (17, ''50m'', 58000), (33, ''10m'', 29000)}"
    by (rule comb_tuples)
next
  fix cmd
  assume "cmd \<in> set (map (complexity_cmd pyver a) combs)
              \<union> set (concat (map (\<lambda>dur. map (ripples_cmd pyver b dur) combs) [1..24]))"
  then have "\<exists>c \<in> set combs. cmd = complexity_cmd pyver a c
      \<or> (\<exists>dur. cmd = ripples_cmd pyver b dur c)"
    by auto
  then obtain c where c: "c \<in> set combs"
    and cmd: "cmd = complexity_cmd pyver a c \<or> (\<exists>dur. cmd = ripples_cmd pyver b dur c)"
    by blast
  from cmd have args: "arg_after ''--nAng'' cmd = Some (fmt_d (fst c))
      \<and> arg_after ''--NE-resolution'' cmd = Some (fst (snd c))
      \<and> arg_after ''--precision'' cmd = Some (fmt_f False 0 1 (of_int (fst (snd (snd c)))))"
    using complexity_cmd_args [OF c] ripples_cmd_args [OF c] by blast
  from c have "(fst c, fst (snd c), fst (snd (snd c)))
      \<in> set (map (\<lambda>(nAng, neRes, prec, color). (nAng, neRes, prec)) combs)"
    by (force simp: case_prod_beta)
  then have "(fst c, fst (snd c), fst (snd (snd c)))
      \<in> {(9, ''110m'', 116000), (17, ''50m'', 58000), (33, ''10m'', 29000)}"
    by (simp only: comb_tuples)
  with args show "\<exists>(nAng, neRes, prec) \<in> {(9, ''110m'', 116000), (17, ''50m'', 58000), (33, ''10m'', 29000)}.
          arg_after ''--nAng'' cmd = Some (fmt_d nAng)
          \<and> arg_after ''--NE-resolution'' cmd = Some neRes
          \<and> arg_after ''--precision'' cmd = Some (fmt_f False 0 1 (of_int prec))"
    by (intro bexI [of _ "(fst c, fst (snd c), fst (snd (snd c)))"]) simp_all
qed

theorem combs_swept_witness:
  "ripples_cmd ''3.12'' \<lparr>debug = False, dryRun = False, timeout = 60,
       ffmpegPath = None, ffprobePath = None, plot = True\<rparr> 24 (33, ''10m'', 29000, (0, 0, 1, 1))
     \<in> set (map (complexity_cmd ''3.12'' \<lparr>debug = False, dryRun = False, timeout = 60\<rparr>) combs)
        \<union> set (concat (map (\<lambda>dur. map (ripples_cmd ''3.12'' \<lparr>debug = False, dryRun = False,
             timeout = 60, ffmpegPath = None, ffprobePath = None, plot = True\<rparr> dur) combs) [1..24]))
   \<and> (\<exists>(nAng, neRes, prec) \<in> {(9, ''110m'', 116000), (17, ''50m'', 58000), (33, ''10m'', 29000)}.
        arg_after ''--nAng'' [''python3.12'', ''-m'', ''gft'', ''+139.779999'', ''+35.552299'',
          ''500.0'', ''--duration'', ''1.00'', ''--freqLand'', ''256'', ''--freqPlot'', ''32'',
          ''--freqSimp'', ''32'', ''--GSHHG-resolution'', ''c'', ''--nAng'', ''33'',
          ''--NE-resolution'', ''10m'', ''--precision'', ''29000.0'', ''--plot''] = Some (fmt_d nAng)
        \<and> arg_after ''--NE-resolution'' [''python3.12'', ''-m'', ''gft'', ''+139.779999'',
          ''+35.552299'', ''500.0'', ''--duration'', ''1.00'', ''--freqLand'', ''256'',
          ''--freqPlot'', ''32'', ''--freqSimp'', ''32'', ''--GSHHG-resolution'', ''c'',
          ''--nAng'', ''33'', ''--NE-resolution'', ''10m'', ''--precision'', ''29000.0'',
          ''--plot''] = Some neRes
        \<and> arg_after ''--precision'' [''python3.12'', ''-m'', ''gft'', ''+139.779999'',
          ''+35.552299'', ''500.0'', ''--duration'', ''1.00'', ''--freqLand'', ''256'',
          ''--freqPlot'', ''32'', ''--freqSimp'', ''32'', ''--GSHHG-resolution'', ''c'',
          ''--nAng'', ''33'', ''--NE-resolution'', ''10m'', ''--precision'', ''29000.0'',
          ''--plot''] = Some (fmt_f False 0 1 (of_int prec)))"
proof -
  let ?a = "\<lparr>debug = False, dryRun = False, timeout = 60\<rparr>"
  let ?b = "\<lparr>debug = False, dryRun = False, timeout = 60,
       ffmpegPath = None, ffprobePath = None, plot = True\<rparr>"
  let ?cmd = "ripples_cmd ''3.12'' ?b 24 (33, ''10m'', 29000, (0, 0, 1, 1))"
  have mem: "?cmd \<in> set (map (complexity_cmd ''3.12'' ?a) combs)
        \<union> set (concat (map (\<lambda>dur. map (ripples_cmd ''3.12'' ?b dur) combs) [1..24]))"
    unfolding durs_eq combs_eval by simp
  have val: "?cmd = [''python3.12'', ''-m'', ''gft'', ''+139.779999'', ''+35.552299'',
          ''500.0'', ''--duration'', ''1.00'', ''--freqLand'', ''256'', ''--freqPlot'', ''32'',
          ''--freqSimp'', ''32'', ''--GSHHG-resolution'', ''c'', ''--nAng'', ''33'',
          ''--NE-resolution'', ''10m'', ''--precision'', ''29000.0'', ''--plot'']"
    using fmt_durs unfolding durs_eq by (simp add: ripples_cmd_eval)
  from combs_swept [of "''3.12''" ?a ?b] mem
  have "\<exists>(nAng, neRes, prec) \<in> {(9, ''110m'', 116000), (17, ''50m'', 58000), (33, ''10m'', 29000)}.
          arg_after ''--nAng'' ?cmd = Some (fmt_d nAng)
          \<and> arg_after ''--NE-resolution'' ?cmd = Some neRes
          \<and> arg_after ''--precision'' ?cmd = Some (fmt_f False 0 1 (of_int prec))"
    by blast
  with mem show ?thesis
    unfolding val by blast
qed

section \<open>Paths\<close>

lemma limit_dname_eval:
  "limit_dname (9, ''110m'', 116000, col) =
     ''res=110m_cons=2.00e+00_tol=1.00e-10/local=F_nAng=9_prec=1.16e+05/freqLand=64_freqSimp=8_lon=+139.779999_lat=+35.552299/limit''"
  "limit_dname (17, ''50m'', 58000, col) =
     ''res=50m_cons=2.00e+00_tol=1.00e-10/local=F_nAng=17_prec=5.80e+04/freqLand=128_freqSimp=16_lon=+139.779999_lat=+35.552299/limit''"
  "limit_dname (33, ''10m'', 29000, col) =
     ''res=10m_cons=2.00e+00_tol=1.00e-10/local=F_nAng=33_prec=2.90e+04/freqLand=256_freqSimp=32_lon=+139.779999_lat=+35.552299/limit''"
  by (simp_all add: limit_dname_def fmt_small_d fmt_prec_e fmt_lon fmt_lat)

lemma comb_dname_eval:
  "comb_dname (9, ''110m'', 116000, col) = ''res=110m_cons=2.00e+00_tol=1.00e-10/local=F_nAng=9_prec=1.16e+05''"
  "comb_dname (17, ''50m'', 58000, col) = ''res=50m_cons=2.00e+00_tol=1.00e-10/local=F_nAng=17_prec=5.80e+04''"
  "comb_dname (33, ''10m'', 29000, col) = ''res=10m_cons=2.00e+00_tol=1.00e-10/local=F_nAng=33_prec=2.90e+04''"
  by (simp_all add: comb_dname_def fmt_small_d fmt_prec_e)

lemma fmt_istep_eval:
  "fmt_0d 6 1 = ''000001''" "fmt_0d 6 2 = ''000002''" "fmt_0d 6 4 = ''000004''"
  by (simp_all only: fmt_unfold) (simp_all add: fmt_eval)

section \<open>Rounding to binary64\<close>

text \<open>
  The exponent that \<open>binade\<close> computes is the right one, and the rounded number is within
  half a unit in the last place of the exact one.
\<close>

lemma bit_length_bounds:
  "0 < n \<Longrightarrow> 1 \<le> bit_length n \<and> 2 ^ nat (bit_length n - 1) \<le> n \<and> n < 2 ^ nat (bit_length n)"
proof (induction n rule: bit_length.induct)
  case (1 n)
  show ?case
  proof (cases "n div 2 = 0")
    case True
    with 1(2) have "n = 1"
      by (simp add: div_eq_0_iff) 
    then show ?thesis
      by (simp add: bit_length.simps [of "Suc 0"] bit_length.simps [of 0])
  next
    case False
    then have pos: "0 < n div 2"
      by simp
    from 1(1) [OF _ pos] 1(2)
    have ih: "1 \<le> bit_length (n div 2)" "2 ^ nat (bit_length (n div 2) - 1) \<le> n div 2"
      "n div 2 < 2 ^ nat (bit_length (n div 2))"
      by simp_all
    have bl: "bit_length n = 1 + bit_length (n div 2)"
      using 1(2) by (simp add: bit_length.simps [of n])
    have e: "nat (bit_length n - 1) = Suc (nat (bit_length (n div 2) - 1))"
      "nat (bit_length n) = Suc (nat (bit_length (n div 2)))"
      using ih(1) unfolding bl by simp_all
    have "2 * 2 ^ nat (bit_length (n div 2) - 1) \<le> n"
      using ih(2) by linarith
    moreover have "n < 2 * 2 ^ nat (bit_length (n div 2))"
      using ih(3) by linarith
    ultimately show ?thesis
      unfolding e using ih(1) bl by simp
  qed
qed

lemma binade_bounds:
  assumes "0 < a"
  shows "pow2 (binade a) \<le> a \<and> a < 2 * pow2 (binade a)"
proof (cases "1 \<le> a")
  case True
  let ?n = "nat \<lfloor>a\<rfloor>"
  have n: "0 < ?n"
    using True by simp
  note b = bit_length_bounds [OF n]
  have e: "binade a = bit_length ?n - 1" "0 \<le> bit_length ?n - 1"
    using True b [THEN conjunct1] by (simp_all add: binade_def)
  have lo: "real (2 ^ nat (bit_length ?n - 1)) \<le> real ?n"
    using b [THEN conjunct2, THEN conjunct1] by (intro of_nat_mono)
  have "real ?n \<le> a"
    using True by simp
  from order_trans [OF lo this] have l: "2 ^ nat (bit_length ?n - 1) \<le> a"
    by simp
  have "Suc ?n \<le> 2 ^ nat (bit_length ?n)"
    using b [THEN conjunct2, THEN conjunct2] by (rule Suc_leI)
  then have "real (Suc ?n) \<le> real (2 ^ nat (bit_length ?n))"
    by (intro of_nat_mono)
  moreover have "a < real (Suc ?n)"
    using True by simp linarith
  ultimately have "a < real (2 ^ nat (bit_length ?n))"
    by linarith
  then have "a < 2 ^ nat (bit_length ?n)"
    by simp
  moreover have "nat (bit_length ?n) = Suc (nat (bit_length ?n - 1))"
    using b [THEN conjunct1] by arith
  ultimately have u: "a < 2 * 2 ^ nat (bit_length ?n - 1)"
    by (simp only: power_Suc)
  show ?thesis
    using l u e by (simp add: pow2_def)
next
  case False
  let ?m = "nat (\<lceil>1 / a\<rceil> - 1)"
  have inv: "1 < 1 / a"
    using False assms by simp
  then have c: "2 \<le> \<lceil>1 / a\<rceil>"
    by (simp add: le_ceiling_iff)
  then have m: "0 < ?m"
    by simp
  note b = bit_length_bounds [OF m]
  have e: "binade a = - bit_length ?m"
    using False by (simp add: binade_def)
  have mlt: "real ?m < 1 / a"
    using c by (simp add: less_ceiling_iff) linarith
  have mge: "1 / a \<le> real ?m + 1"
    using c by (simp add: of_nat_nat) linarith
  have "Suc ?m \<le> 2 ^ nat (bit_length ?m)"
    using b [THEN conjunct2, THEN conjunct2] by (rule Suc_leI)
  then have "real (Suc ?m) \<le> real (2 ^ nat (bit_length ?m))"
    by (intro of_nat_mono)
  from order_trans [of "1 / a" "real (Suc ?m)", OF _ this] mge
  have "1 / a \<le> 2 ^ nat (bit_length ?m)"
    by simp
  then have l: "1 / 2 ^ nat (bit_length ?m) \<le> a"
    using assms by (simp add: field_simps)
  have "real (2 ^ nat (bit_length ?m - 1)) \<le> real ?m"
    using b [THEN conjunct2, THEN conjunct1] by (intro of_nat_mono)
  from le_less_trans [OF this mlt] have "2 ^ nat (bit_length ?m - 1) < 1 / a"
    by simp
  then have "a * 2 ^ nat (bit_length ?m - 1) < 1"
    using assms by (simp add: field_simps)
  moreover have "nat (bit_length ?m) = Suc (nat (bit_length ?m - 1))"
    using b [THEN conjunct1] by arith
  ultimately have u: "a < 2 * (1 / 2 ^ nat (bit_length ?m))"
    by (simp add: field_simps)
  have "0 < bit_length ?m"
    using b [THEN conjunct1] by simp
  then show ?thesis
    using l u e by (simp add: pow2_def)
qed

lemma pow2_pos: "0 < pow2 e"
  by (simp add: pow2_def)

lemma round_half_even_error: "\<bar>of_int (round_half_even x) - x\<bar> \<le> 1 / 2"
  unfolding round_half_even_def Let_def by (auto simp: abs_le_iff)

lemma binary64_error:
  "\<bar>binary64 y - y\<bar> \<le> pow2 (max (binade \<bar>y\<bar>) (- 1022) - 52) / 2"
proof (cases "y = 0")
  case True
  then show ?thesis
    using pow2_pos [of "max (binade \<bar>y\<bar>) (- 1022) - 52"] by (simp add: binary64_def)
next
  case False
  let ?q = "pow2 (max (binade \<bar>y\<bar>) (- 1022) - 52)"
  have q: "0 < ?q"
    by (rule pow2_pos)
  have "binary64 y - y = (of_int (round_half_even (y / ?q)) - y / ?q) * ?q"
    using False q by (simp add: binary64_def Let_def field_simps)
  then have "\<bar>binary64 y - y\<bar> = \<bar>of_int (round_half_even (y / ?q)) - y / ?q\<bar> * ?q"
    using q by (simp add: abs_mult)
  also have "\<dots> \<le> 1 / 2 * ?q"
    using q round_half_even_error [of "y / ?q"] by (intro mult_right_mono) simp_all
  finally show ?thesis
    by simp
qed

section \<open>The histogram\<close>

lemma round_half_even_between:
  assumes "of_int a \<le> x" and "x \<le> of_int b"
  shows "a \<le> round_half_even x \<and> round_half_even x \<le> b"
proof -
  have lo: "a \<le> \<lfloor>x\<rfloor>"
    using assms(1) by (simp add: le_floor_iff)
  have hi: "\<lfloor>x\<rfloor> \<le> b"
    using assms(2) by (simp add: floor_le_iff)
  show ?thesis
  proof (cases "x = of_int b")
    case True
    then show ?thesis
      using lo by (simp add: round_half_even_def)
  next
    case False
    with assms(2) have "x < of_int b"
      by simp
    then have "\<lfloor>x\<rfloor> < b"
      by (simp add: floor_less_iff)
    with lo show ?thesis
      by (auto simp: round_half_even_def Let_def)
  qed
qed

lemma pixel_bounds:
  "0 \<le> fst (pixel coord)" "fst (pixel coord) \<le> 17" "0 \<le> snd (pixel coord)" "snd (pixel coord) \<le> 35"
  by (simp_all add: pixel_def nLon_def nLat_def Let_def)

lemma pixel_eq:
  "pixel (x, y) =
     (max 0 (min 17 \<lfloor>float_div (float_sub 90 y) 10\<rfloor>),
      max 0 (min 35 \<lfloor>float_div (float_add x 180) 10\<rfloor>))"
  by (simp add: pixel_def nLon_def nLat_def dLon_def dLat_def Let_def)

lemma bit_length_numeral:
  "bit_length (numeral k) = (if numeral k = (0::nat) then 0 else 1 + bit_length (numeral k div 2))"
  by (rule bit_length.simps)

lemma bit_length_0: "bit_length 0 = 0"
  by (simp add: bit_length.simps)

lemma bit_length_1: "bit_length (Suc 0) = 1"
  by (simp add: bit_length.simps)

lemmas float_unfold =
  float_add_def float_sub_def float_div_def binary64_def binade_def pow2_def round_half_even_def
  Let_def

lemmas float_eval = bit_length_numeral bit_length_0 bit_length_1

lemma colour_index_bounds: "0 \<le> colour_index v" "colour_index v \<le> 255"
proof -
  have "(0::real) \<le> 255 * real (unat v) / 66"
    by (intro divide_nonneg_nonneg mult_nonneg_nonneg of_nat_0_le_iff) simp_all
  then have "of_int 0 \<le> min 255 (255 * real (unat v) / 66)"
    by simp
  moreover have "min 255 (255 * real (unat v) / 66) \<le> of_int 255"
    by simp
  ultimately have "0 \<le> round_half_even (min 255 (255 * real (unat v) / 66))
      \<and> round_half_even (min 255 (255 * real (unat v) / 66)) \<le> 255"
    by (rule round_half_even_between)
  then show "0 \<le> colour_index v" "colour_index v \<le> 255"
    by (simp_all add: colour_index_def)
qed

lemma hist_shape_row: "hist_shape h \<Longrightarrow> r < 18 \<Longrightarrow> length (h ! r) = 36"
  by (simp add: hist_shape_def list_all_length)

lemma hist_shape_zeros: "hist_shape (zeros (nat nLat) (nat nLon))"
  by (simp add: hist_shape_def zeros_def nLat_def nLon_def list_all_length)

lemma zeros_nth: "r < 18 \<Longrightarrow> k < 36 \<Longrightarrow> zeros (nat nLat) (nat nLon) ! r ! k = 0"
  by (simp add: zeros_def nLat_def nLon_def)

lemma hist_incr_ok:
  assumes "hist_shape h"
  shows "hist_incr h (pixel coord) =
     Inr (h[nat (fst (pixel coord)) :=
            (h ! nat (fst (pixel coord)))[nat (snd (pixel coord)) :=
               h ! nat (fst (pixel coord)) ! nat (snd (pixel coord)) + 1]])"
proof -
  obtain a b where ab: "pixel coord = (a, b)"
    by (cases "pixel coord")
  have bounds: "0 \<le> a" "a \<le> 17" "0 \<le> b" "b \<le> 35"
    using pixel_bounds [of coord] by (simp_all add: ab)
  have len: "length h = 18"
    using assms by (simp add: hist_shape_def)
  have "nat a < 18"
    using bounds by linarith
  with assms have row: "length (h ! nat a) = 36"
    by (rule hist_shape_row)
  show ?thesis
    using bounds by (simp add: ab hist_incr_def axis_index_def len row)
qed

lemma hist_shape_update:
  assumes "hist_shape h" and "r < 18"
  shows "hist_shape (h[r := (h ! r)[k := v]])"
  using assms by (auto simp: hist_shape_def list_all_length nth_list_update)

lemma hist_update_nth:
  assumes "hist_shape h" and "r < 18" and "k < 36" and "r' < 18" and "k' < 36"
  shows "h[r := (h ! r)[k := v]] ! r' ! k' = (if r' = r \<and> k' = k then v else h ! r' ! k')"
  using assms by (auto simp: hist_shape_def list_all_length nth_list_update)

lemma hist_ring_counts:
  assumes "hist_shape h"
  shows "\<exists>h'. hist_ring h coords = Inr h' \<and> hist_shape h'
    \<and> (\<forall>r < 18. \<forall>k < 36.
          h' ! r ! k = h ! r ! k
            + of_nat (length (filter (\<lambda>c. pixel c = (int r, int k)) coords)))"
  using assms
proof (induction coords arbitrary: h)
  case Nil
  then show ?case
    by simp
next
  case (Cons coord coords)
  let ?r = "nat (fst (pixel coord))" and ?k = "nat (snd (pixel coord))"
  let ?h1 = "h[?r := (h ! ?r)[?k := h ! ?r ! ?k + 1]]"
  have r: "?r < 18" and k: "?k < 36"
    using pixel_bounds [of coord] by linarith+
  have step: "hist_incr h (pixel coord) = Inr ?h1"
    using Cons.prems by (rule hist_incr_ok)
  have shape1: "hist_shape ?h1"
    using Cons.prems r by (rule hist_shape_update)
  from Cons.IH [OF shape1] obtain h' where h': "hist_ring ?h1 coords = Inr h'" "hist_shape h'"
    and cnt: "\<forall>r < 18. \<forall>k < 36. h' ! r ! k = ?h1 ! r ! k
            + of_nat (length (filter (\<lambda>c. pixel c = (int r, int k)) coords))"
    by blast
  have "h' ! r' ! k' = h ! r' ! k'
      + of_nat (length (filter (\<lambda>c. pixel c = (int r', int k')) (coord # coords)))"
    if "r' < 18" "k' < 36" for r' k'
  proof -
    have here: "(pixel coord = (int r', int k')) = (r' = ?r \<and> k' = ?k)"
      using pixel_bounds [of coord] by (cases "pixel coord") auto
    have "?h1 ! r' ! k' = (if r' = ?r \<and> k' = ?k then h ! ?r ! ?k + 1 else h ! r' ! k')"
      using Cons.prems r k that by (rule hist_update_nth)
    with cnt that here show ?thesis
      by auto
  qed
  with h' step show ?case
    by simp
qed

lemma hist_polys_counts:
  assumes "hist_shape h"
  shows "\<exists>h'. hist_polys L h polys = Inr h' \<and> hist_shape h'
    \<and> (\<forall>r < 18. \<forall>k < 36.
          h' ! r ! k = h ! r ! k
            + of_nat (length (filter (\<lambda>c. pixel c = (int r, int k))
                                (concat (map (exterior_coords L) polys)))))"
  using assms
proof (induction polys arbitrary: h)
  case Nil
  then show ?case
    by simp
next
  case (Cons p polys)
  from hist_ring_counts [OF Cons.prems, of "exterior_coords L p"]
  obtain h1 where h1: "hist_ring h (exterior_coords L p) = Inr h1" "hist_shape h1"
    and c1: "\<forall>r < 18. \<forall>k < 36. h1 ! r ! k = h ! r ! k
            + of_nat (length (filter (\<lambda>c. pixel c = (int r, int k)) (exterior_coords L p)))"
    by blast
  from Cons.IH [OF h1(2)] obtain h' where h': "hist_polys L h1 polys = Inr h'" "hist_shape h'"
    and c2: "\<forall>r < 18. \<forall>k < 36. h' ! r ! k = h1 ! r ! k
            + of_nat (length (filter (\<lambda>c. pixel c = (int r, int k))
                                (concat (map (exterior_coords L) polys))))"
    by blast
  from c1 c2 have "\<forall>r < 18. \<forall>k < 36. h' ! r ! k = h ! r ! k
            + of_nat (length (filter (\<lambda>c. pixel c = (int r, int k))
                                (concat (map (exterior_coords L) (p # polys)))))"
    by simp
  with h1 h' show ?case
    by simp
qed

text \<open>
  C8. The two indices of a coordinate lie in \<open>[0, 17]\<close> (latitude) and \<open>[0, 35]\<close>
  (longitude), so the increment of an array of shape \<open>18 \<times> 36\<close> never raises; the colour
  index of any count lies in \<open>[0, 255]\<close>, so the look-up in a table of 256 colours never
  raises. Coordinates are finite (real) numbers.
\<close>

theorem indices_in_bounds:
  "0 \<le> fst (pixel coord) \<and> fst (pixel coord) \<le> 17
   \<and> 0 \<le> snd (pixel coord) \<and> snd (pixel coord) \<le> 35
   \<and> (hist_shape h \<longrightarrow> (\<exists>h'. hist_incr h (pixel coord) = Inr h' \<and> hist_shape h'))
   \<and> 0 \<le> colour_index v \<and> colour_index v \<le> 255
   \<and> (length turbo = 256 \<longrightarrow> (\<exists>rgb. pixel_colour turbo v = Inr rgb))"
proof -
  have "\<exists>h'. hist_incr h (pixel coord) = Inr h' \<and> hist_shape h'" if "hist_shape h"
  proof -
    have "nat (fst (pixel coord)) < 18"
      using pixel_bounds [of coord] by linarith
    with that show ?thesis
      by (simp add: hist_incr_ok hist_shape_update)
  qed
  moreover have "\<exists>rgb. pixel_colour turbo v = Inr rgb" if "length turbo = 256"
    using that colour_index_bounds [of v]
    by (simp add: pixel_colour_def list_index_def axis_index_def del: split_paired_Ex)
  ultimately show ?thesis
    using pixel_bounds [of coord] colour_index_bounds [of v] by blast
qed

theorem indices_in_bounds_witness:
  "hist_shape (zeros 18 36) \<and> length (replicate 256 (0::nat, 0::nat, 0::nat)) = 256
   \<and> pixel (-200, 35.552299) = (5, 0)
   \<and> (\<exists>h'. hist_incr (zeros 18 36) (pixel (-200, 35.552299)) = Inr h' \<and> hist_shape h')
   \<and> colour_index 1 = 4 \<and> colour_index 67 = 255
   \<and> (\<exists>rgb. pixel_colour (replicate 256 (0, 0, 0)) 67 = Inr rgb)"
proof -
  have shape: "hist_shape (zeros 18 36)"
    using hist_shape_zeros by (simp add: nLat_def nLon_def)
  have len: "length (replicate 256 (0::nat, 0::nat, 0::nat)) = 256"
    by simp
  have px: "pixel (-200, 35.552299) = (5, 0)"
    unfolding pixel_eq by (simp only: float_unfold) (simp add: float_eval)
  have ci: "colour_index 1 = 4" "colour_index 67 = 255"
    by (simp_all add: colour_index_def round_half_even_def)
  from indices_in_bounds [of "(-200, 35.552299)" "zeros 18 36" 67 "replicate 256 (0, 0, 0)"]
    shape len px ci show ?thesis
    by simp
qed

lemma path_exists_read: "path_exists fs p \<Longrightarrow> \<exists>content. read_file fs p = Inr content"
  by (auto simp: path_exists_def read_file_def)

lemma pixel_cell:
  "(\<lambda>c. pixel c = (int r, int k)) =
     (\<lambda>(x, y). max 0 (min 35 \<lfloor>float_div (float_add x 180) 10\<rfloor>) = int k
              \<and> max 0 (min 17 \<lfloor>float_div (float_sub 90 y) 10\<rfloor>) = int r)"
  by (auto simp: fun_eq_iff pixel_eq)

lemma toy_pixels:
  "pixel (139.779999, 35.552299) = (5, 31)" "pixel (24.963341, 60.318363) = (2, 20)"
  "pixel (139.7, 35.5) = (5, 31)" "pixel (-200, 95) = (0, 0)"
  "pixel (- 1 / 10 ^ 17, 1 / 10 ^ 17) = (9, 18)" "pixel (9.999999999999998, 80) = (1, 19)"
  unfolding pixel_eq by (simp_all only: float_unfold) (simp_all add: float_eval)

text \<open>
  C6. For a combination whose \<open>allLands.wkb.gz\<close> exists the survey returns an array of
  shape \<open>18 \<times> 36\<close>, and its entry at \<open>(iLat, iLon)\<close> is the number of coordinates, over the
  exterior rings of all the Polygons of the file, whose clamped indices are \<open>(iLon, iLat)\<close>,
  as a \<open>uint64\<close>: the number itself whenever it is below \<open>2\<^sup>6\<^sup>4\<close>, and zero for a
  cell that receives no coordinate. The indices are those of the program: the sum, the
  difference and the quotients are binary64 operations, so that a coordinate within rounding
  distance of a cell boundary is counted where the program counts it.
\<close>

theorem histogram_counts:
  assumes "path_exists fs (allLands_fname c)"
  shows "\<exists>content h.
     read_file fs (allLands_fname c) = Inr content
     \<and> survey L fs c = Some (Inr h) \<and> hist_shape h
     \<and> (\<forall>iLat < 18. \<forall>iLon < 36.
          (let n = length (filter
                     (\<lambda>(x, y). max 0 (min 35 \<lfloor>float_div (float_add x 180) 10\<rfloor>) = int iLon
                              \<and> max 0 (min 17 \<lfloor>float_div (float_sub 90 y) 10\<rfloor>) = int iLat)
                     (concat (map (exterior_coords L)
                                (extract_polys L False False (wkb_loads L content)))))
           in h ! iLat ! iLon = of_nat n
              \<and> (n < 2 ^ 64 \<longrightarrow> unat (h ! iLat ! iLon) = n)
              \<and> (n = 0 \<longrightarrow> h ! iLat ! iLon = 0)))"
proof -
  from assms obtain content where content: "read_file fs (allLands_fname c) = Inr content"
    using path_exists_read by blast
  let ?polys = "extract_polys L False False (wkb_loads L content)"
  let ?coords = "concat (map (exterior_coords L) ?polys)"
  from hist_polys_counts [OF hist_shape_zeros, of L ?polys]
  obtain h where h: "hist_polys L (zeros (nat nLat) (nat nLon)) ?polys = Inr h" "hist_shape h"
    and cnt: "\<forall>r < 18. \<forall>k < 36. h ! r ! k = zeros (nat nLat) (nat nLon) ! r ! k
            + of_nat (length (filter (\<lambda>c. pixel c = (int r, int k)) ?coords))"
    by blast
  have surv: "survey L fs c = Some (Inr h)"
    using assms content h by (simp add: survey_def Let_def)
  have "h ! r ! k = of_nat (length (filter
           (\<lambda>(x, y). max 0 (min 35 \<lfloor>float_div (float_add x 180) 10\<rfloor>) = int k
                    \<and> max 0 (min 17 \<lfloor>float_div (float_sub 90 y) 10\<rfloor>) = int r) ?coords))"
    if "r < 18" "k < 36" for r k
    using cnt that by (simp add: zeros_nth pixel_cell)
  then have "\<forall>iLat < 18. \<forall>iLon < 36.
          (let n = length (filter
                     (\<lambda>(x, y). max 0 (min 35 \<lfloor>float_div (float_add x 180) 10\<rfloor>) = int iLon
                              \<and> max 0 (min 17 \<lfloor>float_div (float_sub 90 y) 10\<rfloor>) = int iLat) ?coords)
           in h ! iLat ! iLon = of_nat n
              \<and> (n < 2 ^ 64 \<longrightarrow> unat (h ! iLat ! iLon) = n)
              \<and> (n = 0 \<longrightarrow> h ! iLat ! iLon = 0))"
    by (simp add: Let_def unat_of_nat)
  with content surv h(2) show ?thesis
    by blast
qed

theorem histogram_counts_witness:
  "path_exists [(''res=110m_cons=2.00e+00_tol=1.00e-10/local=F_nAng=9_prec=1.16e+05/allLands.wkb.gz'',
                 [[(139.779999, 35.552299), (24.963341, 60.318363), (139.7, 35.5), (-200, 95)],
                  [(- 1 / 10 ^ 17, 1 / 10 ^ 17), (9.999999999999998, 80)]] :: coord list list)]
     (allLands_fname (9, ''110m'', 116000, (1, 0, 0, 1)))
   \<and> (\<exists>h. survey toy_shapes
            [(''res=110m_cons=2.00e+00_tol=1.00e-10/local=F_nAng=9_prec=1.16e+05/allLands.wkb.gz'',
              [[(139.779999, 35.552299), (24.963341, 60.318363), (139.7, 35.5), (-200, 95)],
               [(- 1 / 10 ^ 17, 1 / 10 ^ 17), (9.999999999999998, 80)]])]
            (9, ''110m'', 116000, (1, 0, 0, 1)) = Some (Inr h)
          \<and> h ! 5 ! 31 = 2 \<and> h ! 2 ! 20 = 1 \<and> h ! 0 ! 0 = 1
          \<and> h ! 9 ! 18 = 1 \<and> h ! 8 ! 17 = 0 \<and> h ! 1 ! 19 = 1 \<and> h ! 1 ! 18 = 0)"
proof -
  let ?L = toy_shapes
  let ?g = "[[(139.779999, 35.552299), (24.963341, 60.318363), (139.7, 35.5), (-200, 95)],
             [(- 1 / 10 ^ 17, 1 / 10 ^ 17), (9.999999999999998, 80)]] :: coord list list"
  let ?fs = "[(''res=110m_cons=2.00e+00_tol=1.00e-10/local=F_nAng=9_prec=1.16e+05/allLands.wkb.gz'', ?g)]"
  let ?c = "(9, ''110m'', 116000, (1, 0, 0, 1)) :: comb"
  have name: "allLands_fname ?c =
      ''res=110m_cons=2.00e+00_tol=1.00e-10/local=F_nAng=9_prec=1.16e+05/allLands.wkb.gz''"
    by (simp add: allLands_fname_def comb_dname_eval)
  have ex: "path_exists ?fs (allLands_fname ?c)"
    unfolding name by (simp add: path_exists_def)
  have rd: "read_file ?fs (allLands_fname ?c) = Inr ?g"
    unfolding name by (simp add: read_file_def)
  have coords: "concat (map (exterior_coords ?L) (extract_polys ?L False False (wkb_loads ?L ?g)))
      = [(139.779999, 35.552299), (24.963341, 60.318363), (139.7, 35.5), (-200, 95),
         (- 1 / 10 ^ 17, 1 / 10 ^ 17), (9.999999999999998, 80)]"
    by (simp add: toy_shapes_def)
  from histogram_counts [OF ex, of ?L] obtain h where h: "survey ?L ?fs ?c = Some (Inr h)"
    and cnt: "\<forall>iLat < 18. \<forall>iLon < 36.
          (let n = length (filter
                     (\<lambda>(x, y). max 0 (min 35 \<lfloor>float_div (float_add x 180) 10\<rfloor>) = int iLon
                              \<and> max 0 (min 17 \<lfloor>float_div (float_sub 90 y) 10\<rfloor>) = int iLat)
                     (concat (map (exterior_coords ?L) (extract_polys ?L False False (wkb_loads ?L ?g)))))
           in h ! iLat ! iLon = of_nat n
              \<and> (n < 2 ^ 64 \<longrightarrow> unat (h ! iLat ! iLon) = n)
              \<and> (n = 0 \<longrightarrow> h ! iLat ! iLon = 0))"
    unfolding rd by blast
  have cell: "h ! r ! k = of_nat (length (filter (\<lambda>c. pixel c = (int r, int k))
        [(139.779999, 35.552299), (24.963341, 60.318363), (139.7, 35.5), (-200, 95),
         (- 1 / 10 ^ 17, 1 / 10 ^ 17), (9.999999999999998, 80)]))"
    if "r < 18" "k < 36" for r k
    using cnt [rule_format, OF that] unfolding coords pixel_cell [symmetric] by (simp add: Let_def)
  have "h ! 5 ! 31 = 2" "h ! 2 ! 20 = 1" "h ! 0 ! 0 = 1" "h ! 9 ! 18 = 1" "h ! 8 ! 17 = 0"
    "h ! 1 ! 19 = 1" "h ! 1 ! 18 = 0"
    using cell [of 5 31] cell [of 2 20] cell [of 0 0] cell [of 9 18] cell [of 8 17]
      cell [of 1 19] cell [of 1 18]
    by (simp_all add: toy_pixels [simplified])
  then show ?thesis
    using ex h by blast
qed

section \<open>The frames\<close>

lemma map_of_filter_fst:
  "map_of (filter (\<lambda>e. fst e \<noteq> p) fs) q = (if q = p then None else map_of fs q)"
  by (induction fs) auto

lemma path_exists_write: "path_exists (write_file fs p c) q = (q = p \<or> path_exists fs q)"
  by (simp add: path_exists_def write_file_def map_of_filter_fst)

lemma read_file_write:
  "read_file (write_file fs p c) q = (if q = p then Inr c else read_file fs q)"
  by (simp add: read_file_def write_file_def map_of_filter_fst)

lemma read_files_ok:
  "list_all (path_exists fs) ps \<Longrightarrow> \<exists>cs. read_files fs ps = Inr cs"
  by (induction ps) (auto dest: path_exists_read)

lemma length_filter_all: "(length (filter Q xs) = length xs) = list_all Q xs"
proof (induction xs)
  case Nil
  then show ?case
    by simp
next
  case (Cons x xs)
  have le: "length (filter Q xs) \<le> length xs"
    by (rule length_filter_le)
  show ?case
  proof (cases "Q x")
    case True
    with Cons show ?thesis
      by simp
  next
    case False
    with le show ?thesis
      by (auto simp del: length_filter_le)
  qed
qed

lemma limit_fnames_loop:
  "foldl (\<lambda>fnames (nAng, neRes, prec, color).
              if (1000 * d) mod prec \<noteq> 0 then fnames
              else (let istep = (1000 * d) div prec - 1;
                        fname = limit_fname (nAng, neRes, prec, color) (istep + 1)
                    in if \<not> path_exists fs fname then fnames else fnames @ [fname]))
     acc cs
   = acc @ map (\<lambda>c. limit_fname c ((1000 * d) div fst (snd (snd c)))) (filter (limit_ok fs d) cs)"
  by (induction cs arbitrary: acc) (simp_all add: Let_def limit_ok_def limit_fname_def split_beta)

lemma limit_fnames_eq:
  "limit_fnames fs d =
     map (\<lambda>c. limit_fname c ((1000 * d) div fst (snd (snd c)))) (filter (limit_ok fs d) combs)"
  unfolding limit_fnames_def by (simp only: limit_fnames_loop append_Nil)

lemma limit_fnames_length:
  "(length (limit_fnames fs d) = length combs) = list_all (limit_ok fs d) combs"
  by (simp add: limit_fnames_eq length_filter_all)

lemma limit_fnames_all:
  "list_all (limit_ok fs d) combs \<Longrightarrow>
     limit_fnames fs d = map (\<lambda>c. limit_fname c ((1000 * d) div fst (snd (snd c)))) combs"
  by (simp add: limit_fnames_eq list_all_iff)

lemma limit_fnames_exist: "list_all (path_exists fs) (limit_fnames fs d)"
  by (auto simp: limit_fnames_eq list_all_iff limit_ok_def limit_fname_def)

lemma digit_char_digit: "d < 10 \<Longrightarrow> digit_char d \<in> set ''0123456789''"
  unfolding digit_char_def by (rule nth_mem) simp

lemma show_nat_digits: "set (show_nat n) \<subseteq> set ''0123456789''"
proof (induction n rule: show_nat.induct)
  case (1 n)
  show ?case
  proof (cases "n < 10")
    case True
    then show ?thesis
      using digit_char_digit [of n] by (subst show_nat.simps) simp
  next
    case False
    have "n mod 10 < 10"
      by simp
    then have "digit_char (n mod 10) \<in> set ''0123456789''"
      by (rule digit_char_digit)
    with False 1 show ?thesis
      by (subst show_nat.simps) simp
  qed
qed

lemma no_slash_fmt_0d: "CHR ''/'' \<notin> set (fmt_0d w n)"
  using show_nat_digits [of "nat n"] show_nat_digits [of "nat (- n)"]
  by (auto simp: fmt_0d_def zfill_def)

lemma dirname_leaf:
  assumes "CHR ''/'' \<notin> set leaf" and "A \<noteq> []" and "last A \<noteq> CHR ''/''"
  shows "dirname (A @ ''/'' @ leaf) = A"
proof -
  have "dropWhile (\<lambda>c. c \<noteq> CHR ''/'') (rev leaf @ CHR ''/'' # rev A)
      = dropWhile (\<lambda>c. c \<noteq> CHR ''/'') (CHR ''/'' # rev A)"
    using assms(1) by (intro dropWhile_append2) auto
  then have head: "rev (dropWhile (\<lambda>c. c \<noteq> CHR ''/'') (rev (A @ ''/'' @ leaf))) = A @ ''/''"
    by simp
  have "hd (rev A) \<noteq> CHR ''/''"
    using assms(2,3) by (simp add: hd_rev)
  with assms(2) have "dropWhile (\<lambda>c. c = CHR ''/'') (rev A) = rev A"
    by (cases "rev A") simp_all
  then have strip: "rev (dropWhile (\<lambda>c. c = CHR ''/'') (rev (A @ ''/''))) = A"
    by simp
  have "last A \<in> set A"
    using assms(2) by (rule last_in_set)
  with assms(3) have "\<exists>x \<in> set A. x \<noteq> CHR ''/''"
    by blast
  then have notall: "\<not> list_all (\<lambda>c. c = CHR ''/'') (A @ ''/'')"
    by (simp add: list_all_iff)
  show ?thesis
    unfolding dirname_def Let_def head strip using notall by simp
qed

lemma allLands_of_limit:
  "dirname (dirname (dirname (limit_fname (33, ''10m'', 29000, col) n))) @ ''/allLands.wkb.gz''
     = allLands_fname (33, ''10m'', 29000, col)"
proof -
  have "dirname (limit_fname (33, ''10m'', 29000, col) n) = limit_dname (33, ''10m'', 29000, col)"
    using dirname_leaf [of "''istep='' @ fmt_0d 6 n @ ''.wkb.gz''" "limit_dname (33, ''10m'', 29000, col)"]
    by (simp add: limit_fname_def no_slash_fmt_0d limit_dname_eval)
  then show ?thesis
    by (simp add: limit_dname_eval allLands_fname_def comb_dname_eval dirname_def)
qed

lemma outDir_eval: "outDir = ''nAng=9,17,33_neRes=110m,50m,10m_prec=1.16e+05,5.80e+04,2.90e+04''"
  by (simp add: outDir_def combs_eval fmt_small_d fmt_prec_e)

lemma start_dir_eval:
  "start_dir = ''nAng=9,17,33_neRes=110m,50m,10m_prec=1.16e+05,5.80e+04,2.90e+04/lon=+139.779999_lat=+35.552299''"
  by (simp add: start_dir_def outDir_eval fmt_lon fmt_lat)

lemma frame_path_116:
  "frame_path 116 = ''nAng=9,17,33_neRes=110m,50m,10m_prec=1.16e+05,5.80e+04,2.90e+04/lon=+139.779999_lat=+35.552299/dist=00116_Flight.png''"
proof -
  have "fmt_0d 5 116 = ''00116''"
    by (simp only: fmt_unfold) (simp add: fmt_eval)
  then show ?thesis
    by (simp add: frame_path_def start_dir_eval)
qed

lemma limit_ok_iff:
  "list_all (limit_ok fs d) combs =
     (\<forall>(nAng, neRes, prec, color) \<in> set combs.
        (1000 * d) mod prec = 0
        \<and> path_exists fs (limit_dname (nAng, neRes, prec, color) @ ''/istep=''
             @ fmt_0d 6 ((1000 * d) div prec) @ ''.wkb.gz''))"
  by (simp add: list_all_iff limit_ok_def)

lemma last_limit_fnames:
  assumes "list_all (limit_ok fs d) combs"
  shows "last (limit_fnames fs d) = limit_fname (33, ''10m'', 29000, (0, 0, 1, 1)) ((1000 * d) div 29000)"
  unfolding limit_fnames_all [OF assms] by (simp add: combs_eval)

lemma render_frame_result:
  assumes "list_all (limit_ok (files st) d) combs"
  shows "case read_file (files st) (allLands_fname (33, ''10m'', 29000, (0, 0, 1, 1))) of
           Inl e \<Rightarrow> render_frame P st d (limit_fnames (files st) d) = Inl e
         | Inr allLands \<Rightarrow>
             (\<exists>limits. read_files (files st) (limit_fnames (files st) d) = Inr limits
                \<and> render_frame P st d (limit_fnames (files st) d) =
                    Inr (st\<lparr> files := write_file (files st) (frame_path d)
                                        (optimise_image P (savefig P d allLands limits)),
                             events := events st @ [Print (''Making '' @ [CHR 0x22] @ frame_path d @ [CHR 0x22] @ '' ...'')]
                               @ map (\<lambda>fname. Print ('' > Loading '' @ [CHR 0x22] @ fname @ [CHR 0x22] @ '' ...''))
                                   (limit_fnames (files st) d),
                             frames := frames st @ [frame_path d] \<rparr>))"
proof -
  obtain limits where limits: "read_files (files st) (limit_fnames (files st) d) = Inr limits"
    using read_files_ok [OF limit_fnames_exist] by blast
  have ne: "limit_fnames (files st) d \<noteq> []"
    unfolding limit_fnames_all [OF assms] by (simp add: combs_def)
  show ?thesis
    by (simp add: render_frame_def Let_def last_limit_fnames [OF assms] allLands_of_limit limits ne
        split: sum.split)
qed

lemma frame_step_render:
  assumes "\<not> path_exists (files st) (frame_path d)" and "list_all (limit_ok (files st) d) combs"
  shows "frame_step P st d = render_frame P st d (limit_fnames (files st) d)"
proof -
  from assms(2) have "length (limit_fnames (files st) d) = length combs"
    by (simp add: limit_fnames_length)
  with assms(1) show ?thesis
    by (simp add: frame_step_def Let_def)
qed

lemma toy_results_ok:
  "list_all (limit_ok toy_results 116) combs" "list_all (limit_ok toy_results_land 116) combs"
  by (simp_all add: limit_ok_def combs_eval limit_dname_eval fmt_istep_eval path_exists_def
      toy_results_land_def toy_results_def)

lemma toy_results_no_frame:
  "\<not> path_exists toy_results (frame_path 116)" "\<not> path_exists toy_results_land (frame_path 116)"
  by (simp_all add: frame_path_116 path_exists_def toy_results_land_def toy_results_def)

lemma toy_results_no_land:
  "read_file toy_results (allLands_fname (33, ''10m'', 29000, (0, 0, 1, 1))) =
     Inl (FileNotFoundError ''res=10m_cons=2.00e+00_tol=1.00e-10/local=F_nAng=33_prec=2.90e+04/allLands.wkb.gz'')"
  by (simp add: allLands_fname_def comb_dname_eval read_file_def toy_results_def)

lemma toy_results_land:
  "read_file toy_results_land (allLands_fname (33, ''10m'', 29000, (0, 0, 1, 1))) = Inr ''land 33''"
  by (simp add: allLands_fname_def comb_dname_eval read_file_def toy_results_land_def)

text \<open>
  C4, as the code has it. When the loop reaches a distance whose frame is missing, the frame
  is skipped without a trace exactly when, for some combination, \<open>1000 * dist\<close> is not a
  multiple of the precision or the result file \<open>istep=(1000 * dist) // prec\<close> (six digits)
  is missing. Otherwise the script goes on to render, and the first thing it does is to open
  \<open>allLands.wkb.gz\<close> in the directory of the last combination: when that file exists the
  frame is drawn, written and appended to \<open>frames\<close>; when it does not, the run stops with
  \<open>FileNotFoundError\<close>.
\<close>

theorem frame_rendered_iff:
  assumes "\<not> path_exists (files st) (frame_path d)"
  shows "(frame_step P st d = Inr st) =
       (\<not> (\<forall>(nAng, neRes, prec, color) \<in> set combs.
             (1000 * d) mod prec = 0
             \<and> path_exists (files st) (limit_dname (nAng, neRes, prec, color) @ ''/istep=''
                  @ fmt_0d 6 ((1000 * d) div prec) @ ''.wkb.gz'')))
     \<and> ((\<forall>(nAng, neRes, prec, color) \<in> set combs.
             (1000 * d) mod prec = 0
             \<and> path_exists (files st) (limit_dname (nAng, neRes, prec, color) @ ''/istep=''
                  @ fmt_0d 6 ((1000 * d) div prec) @ ''.wkb.gz'')) \<longrightarrow>
          (case read_file (files st) (allLands_fname (33, ''10m'', 29000, (0, 0, 1, 1))) of
             Inl e \<Rightarrow> frame_step P st d = Inl e
           | Inr allLands \<Rightarrow>
               (\<exists>limits st'.
                  read_files (files st) (limit_fnames (files st) d) = Inr limits
                  \<and> frame_step P st d = Inr st'
                  \<and> files st' = write_file (files st) (frame_path d)
                                  (optimise_image P (savefig P d allLands limits))
                  \<and> path_exists (files st') (frame_path d)
                  \<and> frames st' = frames st @ [frame_path d])))"
proof -
  have "(frame_step P st d = Inr st) = (\<not> list_all (limit_ok (files st) d) combs)
     \<and> (list_all (limit_ok (files st) d) combs \<longrightarrow>
          (case read_file (files st) (allLands_fname (33, ''10m'', 29000, (0, 0, 1, 1))) of
             Inl e \<Rightarrow> frame_step P st d = Inl e
           | Inr allLands \<Rightarrow>
               (\<exists>limits st'.
                  read_files (files st) (limit_fnames (files st) d) = Inr limits
                  \<and> frame_step P st d = Inr st'
                  \<and> files st' = write_file (files st) (frame_path d)
                                  (optimise_image P (savefig P d allLands limits))
                  \<and> path_exists (files st') (frame_path d)
                  \<and> frames st' = frames st @ [frame_path d])))"
  proof (cases "list_all (limit_ok (files st) d) combs")
    case False
    then have "length (limit_fnames (files st) d) \<noteq> length combs"
      by (simp add: limit_fnames_length)
    with assms have "frame_step P st d = Inr st"
      by (simp add: frame_step_def Let_def)
    with False show ?thesis
      by simp
  next
    case True
    then have "length (limit_fnames (files st) d) = length combs"
      by (simp add: limit_fnames_length)
    with assms have step: "frame_step P st d = render_frame P st d (limit_fnames (files st) d)"
      by (simp add: frame_step_def Let_def)
    note r = render_frame_result [OF True, of P]
    show ?thesis
    proof (cases "read_file (files st) (allLands_fname (33, ''10m'', 29000, (0, 0, 1, 1)))")
      case (Inl e)
      with r step True show ?thesis
        by simp
    next
      case (Inr allLands)
      with r obtain limits where limits: "read_files (files st) (limit_fnames (files st) d) = Inr limits"
        and res: "render_frame P st d (limit_fnames (files st) d) =
                      Inr (st\<lparr> files := write_file (files st) (frame_path d)
                                          (optimise_image P (savefig P d allLands limits)),
                               events := events st @ [Print (''Making '' @ [CHR 0x22] @ frame_path d @ [CHR 0x22] @ '' ...'')]
                                 @ map (\<lambda>fname. Print ('' > Loading '' @ [CHR 0x22] @ fname @ [CHR 0x22] @ '' ...''))
                                     (limit_fnames (files st) d),
                               frames := frames st @ [frame_path d] \<rparr>)"
        by auto
      have ne: "frame_step P st d \<noteq> Inr st"
      proof
        assume "frame_step P st d = Inr st"
        with step res have "frames st = frames st @ [frame_path d]"
          by (metis (no_types, lifting) rstate.select_convs(1) rstate.surjective rstate.update_convs(1)
              sum.inject(2) world.select_convs world.update_convs)
        then show False
          by simp
      qed
      from step res limits Inr True ne show ?thesis
        by (simp add: path_exists_write)
    qed
  qed
  then show ?thesis
    unfolding limit_ok_iff .
qed

theorem frame_rendered_iff_witness:
  "\<not> path_exists toy_results_land (frame_path 116)
   \<and> (\<exists>st'. frame_step toy_plotting \<lparr>files = toy_results_land, events = [], frames = []\<rparr> 116 = Inr st'
          \<and> path_exists (files st') (frame_path 116)
          \<and> frames st' = [frame_path 116])"
proof -
  let ?st = "\<lparr>files = toy_results_land, events = [], frames = []\<rparr>"
  have no: "\<not> path_exists (files ?st) (frame_path 116)"
    using toy_results_no_frame(2) by simp
  have ok: "\<forall>(nAng, neRes, prec, color) \<in> set combs.
             (1000 * 116) mod prec = 0
             \<and> path_exists (files ?st) (limit_dname (nAng, neRes, prec, color) @ ''/istep=''
                  @ fmt_0d 6 ((1000 * 116) div prec) @ ''.wkb.gz'')"
    using toy_results_ok(2) unfolding limit_ok_iff by simp
  from frame_rendered_iff [OF no, of toy_plotting, THEN conjunct2, THEN mp, OF ok]
  show ?thesis
    using toy_results_no_frame(2) by (auto simp: toy_results_land)
qed

text \<open>
  C4 as stated fails where the three result files of a distance are there and the land of the
  last combination is not: all the conditions of the claim hold at 116 km, and the frame is
  neither rendered nor skipped, the run stops.
\<close>

theorem frame_not_rendered_counterexample:
  "\<not> path_exists toy_results (frame_path 116)
   \<and> (1000 * 116) mod 116000 = (0::int)
   \<and> path_exists toy_results (limit_dname (9, ''110m'', 116000, (1, 0, 0, 1)) @ ''/istep=''
        @ fmt_0d 6 ((1000 * 116) div 116000) @ ''.wkb.gz'')
   \<and> (1000 * 116) mod 58000 = (0::int)
   \<and> path_exists toy_results (limit_dname (17, ''50m'', 58000, (0, 1, 0, 1)) @ ''/istep=''
        @ fmt_0d 6 ((1000 * 116) div 58000) @ ''.wkb.gz'')
   \<and> (1000 * 116) mod 29000 = (0::int)
   \<and> path_exists toy_results (limit_dname (33, ''10m'', 29000, (0, 0, 1, 1)) @ ''/istep=''
        @ fmt_0d 6 ((1000 * 116) div 29000) @ ''.wkb.gz'')
   \<and> frame_step toy_plotting \<lparr>files = toy_results, events = [], frames = []\<rparr> 116 =
       Inl (FileNotFoundError
         ''res=10m_cons=2.00e+00_tol=1.00e-10/local=F_nAng=33_prec=2.90e+04/allLands.wkb.gz'')"
proof -
  let ?st = "\<lparr>files = toy_results, events = [], frames = []\<rparr>"
  have no: "\<not> path_exists (files ?st) (frame_path 116)"
    using toy_results_no_frame(1) by simp
  have ok: "list_all (limit_ok (files ?st) 116) combs"
    using toy_results_ok(1) by simp
  have "frame_step toy_plotting ?st 116 =
       Inl (FileNotFoundError
         ''res=10m_cons=2.00e+00_tol=1.00e-10/local=F_nAng=33_prec=2.90e+04/allLands.wkb.gz'')"
    using render_frame_result [OF ok, of toy_plotting]
    unfolding frame_step_render [OF no ok] by (simp add: toy_results_no_land)
  moreover have "path_exists toy_results (limit_dname (9, ''110m'', 116000, (1, 0, 0, 1)) @ ''/istep=''
        @ fmt_0d 6 ((1000 * 116) div 116000) @ ''.wkb.gz'')"
    "path_exists toy_results (limit_dname (17, ''50m'', 58000, (0, 1, 0, 1)) @ ''/istep=''
        @ fmt_0d 6 ((1000 * 116) div 58000) @ ''.wkb.gz'')"
    "path_exists toy_results (limit_dname (33, ''10m'', 29000, (0, 0, 1, 1)) @ ''/istep=''
        @ fmt_0d 6 ((1000 * 116) div 29000) @ ''.wkb.gz'')"
    using toy_results_ok(1) by (simp_all add: limit_ok_def combs_eval)
  ultimately show ?thesis
    using toy_results_no_frame(1) by simp
qed

section \<open>The list of frames\<close>

lemma frame_step_frames:
  assumes "frame_step P st d = Inr st'"
  shows "(frames st' = frames st \<or> frames st' = frames st @ [frame_path d])
    \<and> mp4_calls (events st') = mp4_calls (events st)
    \<and> (\<forall>p. path_exists (files st) p \<longrightarrow> path_exists (files st') p)
    \<and> (frames st' \<noteq> frames st \<longrightarrow> path_exists (files st') (frame_path d))"
proof (cases "path_exists (files st) (frame_path d)")
  case True
  with assms show ?thesis
    by (auto simp: frame_step_def)
next
  case no: False
  show ?thesis
  proof (cases "list_all (limit_ok (files st) d) combs")
    case False
    then have "length (limit_fnames (files st) d) \<noteq> length combs"
      by (simp add: limit_fnames_length)
    with assms no show ?thesis
      by (simp add: frame_step_def Let_def)
  next
    case True
    have calls: "mp4_calls (xs @ Print s # map (\<lambda>fname. Print (f fname)) ys) = mp4_calls xs"
      for xs s f ys
      by (induction xs rule: mp4_calls.induct) (simp_all, induction ys, simp_all)
    from assms have "render_frame P st d (limit_fnames (files st) d) = Inr st'"
      by (simp only: frame_step_render [OF no True])
    then show ?thesis
      by (auto simp: render_frame_def Let_def path_exists_write calls split: sum.splits if_splits)
  qed
qed

lemma frames_loop_frames:
  assumes "frames_loop P st ds = Inr st'" and "distinct ds"
    and "list_all (path_exists (files st)) (frames st)"
  shows "\<exists>Q. frames st' = frames st @ map frame_path (filter Q ds)
    \<and> mp4_calls (events st') = mp4_calls (events st)
    \<and> list_all (path_exists (files st')) (frames st')"
  using assms
proof (induction ds arbitrary: st)
  case Nil
  then show ?case
    by simp
next
  case (Cons d ds)
  from Cons.prems(1) obtain st1 where step: "frame_step P st d = Inr st1"
    and rest: "frames_loop P st1 ds = Inr st'"
    by (auto split: sum.splits)
  note f = frame_step_frames [OF step]
  have ex1: "list_all (path_exists (files st1)) (frames st1)"
    using f Cons.prems(3) by (auto simp: list_all_iff)
  from Cons.IH [OF rest _ ex1] Cons.prems(2)
  obtain Q where Q: "frames st' = frames st1 @ map frame_path (filter Q ds)"
    and calls: "mp4_calls (events st') = mp4_calls (events st1)"
    and ex: "list_all (path_exists (files st')) (frames st')"
    by auto
  let ?Q = "\<lambda>x. if x = d then frames st1 \<noteq> frames st else Q x"
  have "filter ?Q ds = filter Q ds"
    using Cons.prems(2) by (intro filter_cong) auto
  with Q f have "frames st' = frames st @ map frame_path (filter ?Q (d # ds))"
    by auto
  with calls ex f show ?case
    by metis
qed

lemma frames_loop_all_exist:
  assumes "list_all (\<lambda>d. path_exists (files st) (frame_path d)) ds"
  shows "frames_loop P st ds = Inr (st\<lparr>frames := frames st @ map frame_path ds\<rparr>)"
  using assms
proof (induction ds arbitrary: st)
  case Nil
  then show ?case
    by simp
next
  case (Cons d ds)
  then have step: "frame_step P st d = Inr (st\<lparr>frames := frames st @ [frame_path d]\<rparr>)"
    by (simp add: frame_step_def)
  from Cons.prems
  have "list_all (\<lambda>x. path_exists (files (st\<lparr>frames := frames st @ [frame_path d]\<rparr>)) (frame_path x)) ds"
    by simp
  from Cons.IH [OF this] step show ?case
    by simp
qed

lemma mp4_calls_append: "mp4_calls (xs @ ys) = mp4_calls xs @ mp4_calls ys"
  by (induction xs rule: mp4_calls.induct) simp_all

lemma save_mp4_effect:
  "frames (save_mp4 P st sz) = frames st"
  "mp4_calls (events (save_mp4 P st sz)) = mp4_calls (events st) @ [(frames st, sz)]"
  "path_exists (files st) p \<Longrightarrow> path_exists (files (save_mp4 P st sz)) p"
  by (simp_all add: save_mp4_def Let_def mp4_calls_append path_exists_write)

lemma strict_sorted_distances: "sorted_wrt (<) [1..30000]" "distinct [1..30000]"
  by (simp_all add: strict_sorted_iff)

text \<open>
  C10. When the script gets as far as the videos, the list \<open>frames\<close> holds the paths of
  the frames of a strictly increasing sequence of distances between 1 and 30000, so no
  distance occurs twice; every one of them is on disk, having been found there or written just
  before it was appended; and the four calls of \<open>images2mp4\<close> (full size, then 512, 1024
  and 2048 pixels) all receive this same list.
\<close>

theorem frames_in_order:
  assumes "ripples_movie P fs = Inr st"
  shows "\<exists>ds. sorted_wrt (<) ds \<and> set ds \<subseteq> {1..30000}
    \<and> frames st = map frame_path ds
    \<and> list_all (path_exists (files st)) (frames st)
    \<and> mp4_calls (events st) =
        [(frames st, None), (frames st, Some 512), (frames st, Some 1024), (frames st, Some 2048)]"
proof -
  let ?st0 = "\<lparr>files = fs, events = [], frames = []\<rparr>"
  from assms obtain st1 where loop: "frames_loop P ?st0 [1..30000] = Inr st1"
    and st: "st = foldl (save_mp4 P) (save_mp4 P st1 None) (map Some [512, 1024, 2048])"
    by (auto simp: ripples_movie_def split: sum.splits)
  from frames_loop_frames [OF loop strict_sorted_distances(2)]
  obtain Q where Q: "frames st1 = map frame_path (filter Q [1..30000])"
    and calls: "mp4_calls (events st1) = []"
    and ex: "list_all (path_exists (files st1)) (frames st1)"
    by auto
  have fr: "frames st = frames st1"
    by (simp add: st save_mp4_effect)
  have "sorted_wrt (<) (filter Q [1..30000])"
    using strict_sorted_distances(1) by (rule sorted_wrt_filter)
  moreover have "set (filter Q [1..30000]) \<subseteq> {1..30000}"
    by auto
  moreover have "list_all (path_exists (files st)) (frames st)"
    using ex by (simp add: fr list_all_iff st save_mp4_effect)
  moreover have "mp4_calls (events st) =
        [(frames st, None), (frames st, Some 512), (frames st, Some 1024), (frames st, Some 2048)]"
    by (simp add: st save_mp4_effect calls)
  ultimately show ?thesis
    using Q fr by metis
qed

theorem frames_in_order_witness:
  "\<exists>st. ripples_movie toy_plotting (map (\<lambda>d. (frame_path d, ''png'')) [1..30000]) = Inr st
     \<and> frames st = map frame_path [1..30000]
     \<and> (\<exists>ds. sorted_wrt (<) ds \<and> frames st = map frame_path ds)
     \<and> mp4_calls (events st) =
         [(frames st, None), (frames st, Some 512), (frames st, Some 1024), (frames st, Some 2048)]"
proof -
  let ?fs = "map (\<lambda>d. (frame_path d, ''png'')) [1..30000]"
  let ?st0 = "\<lparr>files = ?fs, events = [], frames = []\<rparr>"
  have "path_exists ?fs (frame_path d)" if "d \<in> set [1..30000]" for d
  proof -
    have "frame_path d \<in> fst ` set ?fs"
      using that by force
    then show ?thesis
      by (simp only: path_exists_def map_of_eq_None_iff) simp
  qed
  then have "list_all (\<lambda>d. path_exists (files ?st0) (frame_path d)) [1..30000]"
    by (simp add: list_all_iff)
  from frames_loop_all_exist [OF this, of toy_plotting]
  have loop: "frames_loop toy_plotting ?st0 [1..30000] = Inr (?st0\<lparr>frames := map frame_path [1..30000]\<rparr>)"
    by simp
  let ?st = "foldl (save_mp4 toy_plotting)
       (save_mp4 toy_plotting (?st0\<lparr>frames := map frame_path [1..30000]\<rparr>) None)
       (map Some [512, 1024, 2048])"
  have run: "ripples_movie toy_plotting ?fs = Inr ?st"
    by (simp only: ripples_movie_def loop sum.case)
  have fr: "frames ?st = map frame_path [1..30000]"
    by (simp add: save_mp4_effect)
  from frames_in_order [OF run] fr run show ?thesis
    by blast
qed

section \<open>Outputs that are already there\<close>

lemma toy_tmp_name:
  "tmp_name toy_geo ''tmp'' [[(50, 30), (55, 30), (55, 35)]] =
     ''tmp/+050.000000,+30.000000,0003.0000000.wkb.gz''"
proof -
  have "fmt_f True 11 6 50 = ''+050.000000''" "fmt_f True 10 6 30 = ''+30.000000''"
    "fmt_f False 12 7 3 = ''0003.0000000''"
    by (simp_all only: fmt_unfold) (simp_all add: fmt_eval)
  then show ?thesis
    by (simp add: tmp_name_def toy_geo_def)
qed

text \<open>
  C2. A record whose temporary file is already there leaves the files and the messages as
  they are: nothing is computed and nothing is written. A distance whose frame is already
  there only appends the path of the frame to \<open>frames\<close>: no file is read, drawn or written.
\<close>

theorem existing_output_kept:
  "(path_exists (files w) (tmp_name L dname (geometry r)) \<longrightarrow> record_step L dname kw w r = w)
   \<and> (path_exists (files st) (frame_path d) \<longrightarrow>
        frame_step P st d = Inr (st\<lparr>frames := frames st @ [frame_path d]\<rparr>))"
  by (simp add: record_step_def save_record_def frame_step_def Let_def)

theorem existing_output_kept_witness:
  "path_exists [(''tmp/+050.000000,+30.000000,0003.0000000.wkb.gz'', [[(0, 0)]] :: coord list list)]
     (tmp_name toy_geo ''tmp'' (geometry \<lparr>NAME = ''Iran'', geometry = [[(50, 30), (55, 30), (55, 35)]]\<rparr>))
   \<and> record_step toy_geo ''tmp'' default_kwargs
        \<lparr>files = [(''tmp/+050.000000,+30.000000,0003.0000000.wkb.gz'', [[(0, 0)]])], events = []\<rparr>
        \<lparr>NAME = ''Iran'', geometry = [[(50, 30), (55, 30), (55, 35)]]\<rparr>
      = \<lparr>files = [(''tmp/+050.000000,+30.000000,0003.0000000.wkb.gz'', [[(0, 0)]])], events = []\<rparr>
   \<and> path_exists [(frame_path 116, ''old'')] (frame_path 116)
   \<and> frame_step toy_plotting \<lparr>files = [(frame_path 116, ''old'')], events = [], frames = []\<rparr> 116
      = Inr \<lparr>files = [(frame_path 116, ''old'')], events = [], frames = [frame_path 116]\<rparr>"
proof -
  let ?w = "\<lparr>files = [(''tmp/+050.000000,+30.000000,0003.0000000.wkb.gz'', [[(0, 0)]] :: coord list list)],
            events = []\<rparr>"
  let ?r = "\<lparr>NAME = ''Iran'', geometry = [[(50, 30), (55, 30), (55, 35)]] :: coord list list\<rparr>"
  let ?st = "\<lparr>files = [(frame_path 116, ''old'')], events = [], frames = []\<rparr>"
  have a: "path_exists (files ?w) (tmp_name toy_geo ''tmp'' (geometry ?r))"
    by (simp add: toy_tmp_name path_exists_def)
  have b: "path_exists (files ?st) (frame_path 116)"
    by (simp add: path_exists_def)
  from existing_output_kept [of ?w toy_geo "''tmp''" ?r default_kwargs ?st 116 toy_plotting] a b
  show ?thesis
    by simp
qed

section \<open>What \<open>saveAllLands\<close> returns and whom it saves\<close>

lemma load_tmp_loop:
  \<open>foldl (load_tmp L) (w, polys) ts =
     (w\<lparr>events := events w @ map (\<lambda>t. Print ('' > Loading "'' @ t @ ''" ...'')) ts\<rparr>,
      polys @ concat (map (\<lambda>t. case read_file (files w) t of
                                   Inl e \<Rightarrow> []
                                 | Inr content \<Rightarrow> extract_polys L False False (wkb_loads L content))
                        ts))\<close>
  by (induction ts arbitrary: w polys) (simp_all add: load_tmp_def)

lemma concat_map_Nil_iff: "(concat (map f xs) = []) = (\<forall>x \<in> set xs. f x = [])"
  by (induction xs) auto

text \<open>
  C5. \<open>saveAllLands\<close> returns \<open>True\<close> exactly when one of the temporary files that
  the pattern finds in \<open>dname\<close>, after the loop over the records, holds a Polygon. When it
  returns \<open>False\<close> the files are those the loop over the records left: neither \<open>wName\<close>
  nor the GeoJSON file is written. When it returns \<open>True\<close> both are written, with the same
  geometry, and exist afterwards.
\<close>

theorem saveAllLands_returns:
  "fst (saveAllLands L wName dname kw w0) =
     (\<exists>t \<in> set (glob_tmp (files (save_records L dname kw w0)) dname).
        \<exists>content. read_file (files (save_records L dname kw w0)) t = Inr content
          \<and> extract_polys L False False (wkb_loads L content) \<noteq> [])
   \<and> (\<not> fst (saveAllLands L wName dname kw w0) \<longrightarrow>
        files (snd (saveAllLands L wName dname kw w0)) = files (save_records L dname kw w0))
   \<and> (fst (saveAllLands L wName dname kw w0) \<longrightarrow>
        (\<exists>g. files (snd (saveAllLands L wName dname kw w0)) =
               write_file (write_file (files (save_records L dname kw w0)) wName (wkb_dumps L g))
                 (removesuffix wName ''.wkb.gz'' @ ''.geojson'') (geojson_dump L g))
        \<and> path_exists (files (snd (saveAllLands L wName dname kw w0))) wName
        \<and> path_exists (files (snd (saveAllLands L wName dname kw w0)))
             (removesuffix wName ''.wkb.gz'' @ ''.geojson''))"
proof -
  let ?w1 = "save_records L dname kw w0"
  let ?ts = "glob_tmp (files ?w1) dname"
  let ?ld = "\<lambda>t. case read_file (files ?w1) t of
                    Inl e \<Rightarrow> []
                  | Inr content \<Rightarrow> extract_polys L False False (wkb_loads L content)"
  let ?polys = "concat (map ?ld ?ts)"
  have iff: "(?polys \<noteq> []) =
     (\<exists>t \<in> set ?ts. \<exists>content. read_file (files ?w1) t = Inr content
          \<and> extract_polys L False False (wkb_loads L content) \<noteq> [])"
  proof -
    have "(?ld t \<noteq> []) = (\<exists>content. read_file (files ?w1) t = Inr content
          \<and> extract_polys L False False (wkb_loads L content) \<noteq> [])" for t
      by (cases "read_file (files ?w1) t") simp_all
    then show ?thesis
      by (simp add: concat_map_Nil_iff)
  qed
  show ?thesis
  proof (cases "?polys = []")
    case True
    then have "saveAllLands L wName dname kw w0 =
        (False, ?w1\<lparr>events := events ?w1 @ map (\<lambda>t. Print ('' > Loading '' @ [CHR 0x22] @ t @ [CHR 0x22] @ '' ...'')) ?ts\<rparr>)"
      by (simp add: saveAllLands_def Let_def load_tmp_loop)
    with True iff show ?thesis
      by simp
  next
    case False
    then have "fst (saveAllLands L wName dname kw w0)"
      and "\<exists>g. files (snd (saveAllLands L wName dname kw w0)) =
               write_file (write_file (files ?w1) wName (wkb_dumps L g))
                 (removesuffix wName ''.wkb.gz'' @ ''.geojson'') (geojson_dump L g)"
      by (auto simp: saveAllLands_def Let_def load_tmp_loop)
    moreover from this have "path_exists (files (snd (saveAllLands L wName dname kw w0))) wName"
      and "path_exists (files (snd (saveAllLands L wName dname kw w0)))
             (removesuffix wName ''.wkb.gz'' @ ''.geojson'')"
      by (auto simp: path_exists_write)
    ultimately show ?thesis
      using False iff by simp
  qed
qed

lemma toy_save_records:
  "files (save_records toy_geo ''tmp'' default_kwargs \<lparr>files = [], events = []\<rparr>) =
     [(''tmp/+050.000000,+30.000000,0003.0000000.wkb.gz'', [[(50, 30), (55, 30), (55, 35)]])]"
  "files (save_records toy_geo ''tmp'' (default_kwargs\<lparr>avoidCountries := []\<rparr>) \<lparr>files = [], events = []\<rparr>) = []"
proof -
  have iran: "tmp_name toy_geo ''tmp'' (geometry \<lparr>NAME = ''Iran'', geometry = [[(50, 30), (55, 30), (55, 35)]]\<rparr>)
      = ''tmp/+050.000000,+30.000000,0003.0000000.wkb.gz''"
    by (simp add: toy_tmp_name)
  have recs: "shp_records toy_geo sfile =
         [ \<lparr>NAME = ''Japan'', geometry = [[(139, 35), (140, 35), (140, 36)]]\<rparr>,
           \<lparr>NAME = ''Iran'', geometry = [[(50, 30), (55, 30), (55, 35)]]\<rparr>,
           \<lparr>NAME = ''Baikonur'', geometry = []\<rparr> ]" for sfile
    by (simp add: toy_geo_def)
  have avoid: "avoidCountries (default_kwargs :: coord list list kwargs) =
      [''Baikonur'', ''Iran'', ''Russia'', ''Ukraine'']"
    by (simp add: default_kwargs_def)
  have step: "save_record toy_geo ''tmp'' default_kwargs w \<lparr>NAME = ''Iran'', geometry = [[(50, 30), (55, 30), (55, 35)]]\<rparr>
      = w\<lparr>events := events w @ [Print (''   > Making '' @ [CHR 0x22] @ ''tmp/+050.000000,+30.000000,0003.0000000.wkb.gz'' @ [CHR 0x22] @ '' ...'')],
           files := write_file (files w) ''tmp/+050.000000,+30.000000,0003.0000000.wkb.gz'' [[(50, 30), (55, 30), (55, 35)]]\<rparr>"
    if "files w = []" for w :: "coord list list world"
    unfolding save_record_def iran using that
    by (simp add: Let_def path_exists_def poly_step_def default_kwargs_def toy_geo_def)
  have empty: "save_record toy_geo ''tmp'' default_kwargs w \<lparr>NAME = ''Baikonur'', geometry = []\<rparr>
      = w\<lparr>events := events w @ [Print (''   > Making '' @ [CHR 0x22] @ tmp_name toy_geo ''tmp'' [] @ [CHR 0x22] @ '' ...''),
           Print ''     > Skipped (no Polygons).'']\<rparr>"
    if "\<not> path_exists (files w) (tmp_name toy_geo ''tmp'' [])" for w :: "coord list list world"
    unfolding save_record_def using that
    by (simp add: Let_def toy_geo_def)
  have other: "\<not> path_exists [(''tmp/+050.000000,+30.000000,0003.0000000.wkb.gz'', c)] (tmp_name toy_geo ''tmp'' [])"
    for c :: "coord list list"
  proof -
    have "fmt_f True 11 6 0 = ''+000.000000''"
      by (simp only: fmt_unfold) (simp add: fmt_eval)
    then show ?thesis
      by (simp add: tmp_name_def toy_geo_def path_exists_def)
  qed
  show "files (save_records toy_geo ''tmp'' default_kwargs \<lparr>files = [], events = []\<rparr>) =
     [(''tmp/+050.000000,+30.000000,0003.0000000.wkb.gz'', [[(50, 30), (55, 30), (55, 35)]])]"
    by (simp add: save_records_def recs record_step_def step empty other write_file_def Let_def avoid)
  show "files (save_records toy_geo ''tmp'' (default_kwargs\<lparr>avoidCountries := []\<rparr>) \<lparr>files = [], events = []\<rparr>) = []"
    by (simp add: save_records_def recs record_step_def Let_def)
qed

theorem saveAllLands_returns_witness:
  "fst (saveAllLands toy_geo ''allLands.wkb.gz'' ''tmp'' default_kwargs \<lparr>files = [], events = []\<rparr>)
   \<and> path_exists (files (snd (saveAllLands toy_geo ''allLands.wkb.gz'' ''tmp'' default_kwargs
        \<lparr>files = [], events = []\<rparr>))) ''allLands.wkb.gz''
   \<and> path_exists (files (snd (saveAllLands toy_geo ''allLands.wkb.gz'' ''tmp'' default_kwargs
        \<lparr>files = [], events = []\<rparr>))) ''allLands.geojson''
   \<and> \<not> fst (saveAllLands toy_geo ''allLands.wkb.gz'' ''tmp'' (default_kwargs\<lparr>avoidCountries := []\<rparr>)
        \<lparr>files = [], events = []\<rparr>)
   \<and> files (snd (saveAllLands toy_geo ''allLands.wkb.gz'' ''tmp'' (default_kwargs\<lparr>avoidCountries := []\<rparr>)
        \<lparr>files = [], events = []\<rparr>)) = []"
proof -
  let ?w0 = "\<lparr>files = [], events = []\<rparr> :: coord list list world"
  have glob: "glob_tmp [(''tmp/+050.000000,+30.000000,0003.0000000.wkb.gz'', c)] ''tmp''
      = [''tmp/+050.000000,+30.000000,0003.0000000.wkb.gz'']" for c :: "coord list list"
    by (simp add: glob_tmp_def)
  have glob0: "glob_tmp ([] :: coord list list fs) ''tmp'' = []"
    by (simp add: glob_tmp_def)
  have suffix: "removesuffix ''allLands.wkb.gz'' ''.wkb.gz'' = ''allLands''"
    by (simp add: removesuffix_def)
  have yes: "\<exists>t \<in> set (glob_tmp (files (save_records toy_geo ''tmp'' default_kwargs ?w0)) ''tmp'').
        \<exists>content. read_file (files (save_records toy_geo ''tmp'' default_kwargs ?w0)) t = Inr content
          \<and> extract_polys toy_geo False False (wkb_loads toy_geo content) \<noteq> []"
    unfolding toy_save_records glob by (simp add: read_file_def toy_geo_def)
  have no: "\<not> (\<exists>t \<in> set (glob_tmp (files (save_records toy_geo ''tmp'' (default_kwargs\<lparr>avoidCountries := []\<rparr>) ?w0)) ''tmp'').
        \<exists>content. read_file (files (save_records toy_geo ''tmp'' (default_kwargs\<lparr>avoidCountries := []\<rparr>) ?w0)) t = Inr content
          \<and> extract_polys toy_geo False False (wkb_loads toy_geo content) \<noteq> [])"
    unfolding toy_save_records glob0 by simp
  from saveAllLands_returns [of toy_geo "''allLands.wkb.gz''" "''tmp''" default_kwargs ?w0] yes
  have a: "fst (saveAllLands toy_geo ''allLands.wkb.gz'' ''tmp'' default_kwargs ?w0)
   \<and> path_exists (files (snd (saveAllLands toy_geo ''allLands.wkb.gz'' ''tmp'' default_kwargs ?w0))) ''allLands.wkb.gz''
   \<and> path_exists (files (snd (saveAllLands toy_geo ''allLands.wkb.gz'' ''tmp'' default_kwargs ?w0))) ''allLands.geojson''"
    unfolding suffix by simp
  from saveAllLands_returns [of toy_geo "''allLands.wkb.gz''" "''tmp''" "default_kwargs\<lparr>avoidCountries := []\<rparr>" ?w0] no
  have b: "\<not> fst (saveAllLands toy_geo ''allLands.wkb.gz'' ''tmp'' (default_kwargs\<lparr>avoidCountries := []\<rparr>) ?w0)
   \<and> files (snd (saveAllLands toy_geo ''allLands.wkb.gz'' ''tmp'' (default_kwargs\<lparr>avoidCountries := []\<rparr>) ?w0)) = []"
    by (simp add: toy_save_records)
  from a b show ?thesis
    by simp
qed

lemma geo_records_update:
  "wkb_loads (L\<lparr>shp_records := f\<rparr>) = wkb_loads L"
  "extract_polys (L\<lparr>shp_records := f\<rparr>) = extract_polys L"
  "natural_earth (L\<lparr>shp_records := f\<rparr>) = natural_earth L"
  "centroid (L\<lparr>shp_records := f\<rparr>) = centroid L"
  "area (L\<lparr>shp_records := f\<rparr>) = area L"
  "disjoint (L\<lparr>shp_records := f\<rparr>) = disjoint L"
  "intersection (L\<lparr>shp_records := f\<rparr>) = intersection L"
  "buffer (L\<lparr>shp_records := f\<rparr>) = buffer L"
  "unary_union (L\<lparr>shp_records := f\<rparr>) = unary_union L"
  "simplify (L\<lparr>shp_records := f\<rparr>) = simplify L"
  "removeInteriorRings (L\<lparr>shp_records := f\<rparr>) = removeInteriorRings L"
  "wkb_dumps (L\<lparr>shp_records := f\<rparr>) = wkb_dumps L"
  "geojson_dump (L\<lparr>shp_records := f\<rparr>) = geojson_dump L"
  by simp_all

lemma poly_step_records: "poly_step (L\<lparr>shp_records := f\<rparr>) = poly_step L"
  unfolding fun_eq_iff poly_step_def geo_records_update by simp

lemma record_step_records: "record_step (L\<lparr>shp_records := f\<rparr>) = record_step L"
  unfolding fun_eq_iff record_step_def save_record_def tmp_name_def poly_step_records
    geo_records_update by simp

lemma record_loop_filter:
  "foldl (record_step L dname kw) w (filter (\<lambda>r. NAME r \<in> set (avoidCountries kw)) rs)
     = foldl (record_step L dname kw) w rs"
  by (induction rs arbitrary: w) (simp_all add: record_step_def)

lemma poly_loop:
  "foldl (poly_step L kw) acc ps
     = acc @ concat (map (\<lambda>poly.
         case (if kw_local kw then maxPlane kw else None) of
           None \<Rightarrow> extract_polys L False False (if 0 < kw_dist kw then buffer L poly kw else poly)
         | Some plane \<Rightarrow>
             if disjoint L plane poly then []
             else extract_polys L False False
                    (if 0 < kw_dist kw then buffer L (intersection L plane poly) kw
                     else intersection L plane poly)) ps)"
proof (induction ps arbitrary: acc)
  case Nil
  show ?case by simp
next
  case (Cons p ps)
  show ?case
    unfolding foldl_Cons Cons.IH
    by (simp add: poly_step_def Let_def split: option.splits)
qed

lemma world_events_neq:
  "w\<lparr>events := events w @ e # es\<rparr> \<noteq> w"
  "w\<lparr>files := f, events := events w @ e # es\<rparr> \<noteq> w"
proof -
  have "length (events (w\<lparr>events := events w @ e # es\<rparr>)) \<noteq> length (events w)"
    "length (events (w\<lparr>files := f, events := events w @ e # es\<rparr>)) \<noteq> length (events w)"
    by simp_all
  then show "w\<lparr>events := events w @ e # es\<rparr> \<noteq> w"
    "w\<lparr>files := f, events := events w @ e # es\<rparr> \<noteq> w"
    by metis+
qed

text \<open>
  C9. The countries to avoid are, by default, Baikonur, Iran, Russia and Ukraine. A record
  of any other country is skipped: it changes neither the files nor the messages, and the
  result of \<open>saveAllLands\<close> is the same as if the Shapefile held the records of the
  countries to avoid alone. A record of a country to avoid is processed only when its
  temporary file is not there yet: then the message \<open>Making\<close> is printed, its Polygons are
  clipped to the plane when \<open>local\<close> is set and a plane is given, buffered when the distance
  is positive and collected, and either their simplified union is written to the temporary
  file or, when there is none, the message \<open>Skipped\<close> is printed. When the temporary file is
  there the record is skipped like a record of another country. So a record changes anything
  if and only if its country is to be avoided and its temporary file is missing.
\<close>

theorem only_avoided_countries:
  \<open>avoidCountries (default_kwargs :: 'g kwargs) = [''Baikonur'', ''Iran'', ''Russia'', ''Ukraine'']
   \<and> (NAME r \<notin> set (avoidCountries kw) \<longrightarrow> record_step L dname kw w r = w)
   \<and> (NAME r \<in> set (avoidCountries kw) \<longrightarrow>
        (let tmpName = tmp_name L dname (geometry r);
             polys = concat (map (\<lambda>poly.
                 case (if kw_local kw then maxPlane kw else None) of
                   None \<Rightarrow> extract_polys L False False
                             (if 0 < kw_dist kw then buffer L poly kw else poly)
                 | Some plane \<Rightarrow>
                     if disjoint L plane poly then []
                     else extract_polys L False False
                            (if 0 < kw_dist kw then buffer L (intersection L plane poly) kw
                             else intersection L plane poly))
               (extract_polys L True True (geometry r)))
         in record_step L dname kw w r =
              (if path_exists (files w) tmpName then w
               else if polys = []
               then w\<lparr>events := events w @ [Print (''   > Making "'' @ tmpName @ ''" ...''),
                                            Print ''     > Skipped (no Polygons).'']\<rparr>
               else w\<lparr>files := write_file (files w) tmpName
                                 (wkb_dumps L (simplify L (unary_union L polys) (tol kw))),
                       events := events w @ [Print (''   > Making "'' @ tmpName @ ''" ...'')]\<rparr>)))
   \<and> (record_step L dname kw w r \<noteq> w \<longleftrightarrow>
        NAME r \<in> set (avoidCountries kw) \<and> \<not> path_exists (files w) (tmp_name L dname (geometry r)))
   \<and> saveAllLands
        (L\<lparr>shp_records := \<lambda>sfile. filter (\<lambda>r. NAME r \<in> set (avoidCountries kw)) (shp_records L sfile)\<rparr>)
        wName dname kw w0
      = saveAllLands (L :: ('c, 'g) geo) wName dname kw w0\<close>
proof -
  let ?tmp = "tmp_name L dname (geometry r)"
  let ?polys = "concat (map (\<lambda>poly.
                 case (if kw_local kw then maxPlane kw else None) of
                   None \<Rightarrow> extract_polys L False False
                             (if 0 < kw_dist kw then buffer L poly kw else poly)
                 | Some plane \<Rightarrow>
                     if disjoint L plane poly then []
                     else extract_polys L False False
                            (if 0 < kw_dist kw then buffer L (intersection L plane poly) kw
                             else intersection L plane poly))
               (extract_polys L True True (geometry r)))"
  have loop: "foldl (poly_step L kw) [] (extract_polys L True True (geometry r)) = ?polys"
    unfolding poly_loop by simp
  have body: \<open>save_record L dname kw w r =
      (if path_exists (files w) ?tmp then w
       else if ?polys = []
       then w\<lparr>events := events w @ [Print (''   > Making "'' @ ?tmp @ ''" ...''),
                                    Print ''     > Skipped (no Polygons).'']\<rparr>
       else w\<lparr>files := write_file (files w) ?tmp
                         (wkb_dumps L (simplify L (unary_union L ?polys) (tol kw))),
               events := events w @ [Print (''   > Making "'' @ ?tmp @ ''" ...'')]\<rparr>)\<close>
    unfolding save_record_def Let_def loop by simp
  have changed: "save_record L dname kw w r \<noteq> w \<longleftrightarrow> \<not> path_exists (files w) ?tmp"
    unfolding body by (simp add: world_events_neq)
  have filtered: "saveAllLands
        (L\<lparr>shp_records := \<lambda>sfile. filter (\<lambda>r. NAME r \<in> set (avoidCountries kw)) (shp_records L sfile)\<rparr>)
        wName dname kw w0
      = saveAllLands L wName dname kw w0"
    unfolding saveAllLands_def save_records_def load_tmp_def record_step_records geo_records_update
    by (simp add: record_loop_filter)
  have "avoidCountries (default_kwargs :: 'g kwargs) = [''Baikonur'', ''Iran'', ''Russia'', ''Ukraine'']"
    by (simp add: default_kwargs_def)
  moreover have "NAME r \<notin> set (avoidCountries kw) \<longrightarrow> record_step L dname kw w r = w"
    by (simp add: record_step_def)
  moreover have "NAME r \<in> set (avoidCountries kw) \<longrightarrow> record_step L dname kw w r = save_record L dname kw w r"
    by (simp add: record_step_def)
  moreover have "record_step L dname kw w r \<noteq> w \<longleftrightarrow>
        NAME r \<in> set (avoidCountries kw) \<and> \<not> path_exists (files w) ?tmp"
    using changed by (simp add: record_step_def)
  ultimately show ?thesis
    unfolding Let_def using body filtered by presburger
qed

theorem only_avoided_countries_witness:
  \<open>NAME \<lparr>NAME = ''Japan'', geometry = [[(139, 35), (140, 35), (140, 36)]] :: coord list list\<rparr>
      \<notin> set (avoidCountries (default_kwargs :: coord list list kwargs))
   \<and> record_step toy_geo ''tmp'' default_kwargs \<lparr>files = [], events = []\<rparr>
        \<lparr>NAME = ''Japan'', geometry = [[(139, 35), (140, 35), (140, 36)]]\<rparr>
      = \<lparr>files = [], events = []\<rparr>
   \<and> NAME \<lparr>NAME = ''Iran'', geometry = [[(50, 30), (55, 30), (55, 35)]] :: coord list list\<rparr>
      \<in> set (avoidCountries (default_kwargs :: coord list list kwargs))
   \<and> record_step toy_geo ''tmp'' default_kwargs \<lparr>files = [], events = []\<rparr>
        \<lparr>NAME = ''Iran'', geometry = [[(50, 30), (55, 30), (55, 35)]]\<rparr>
      = \<lparr>files = [(''tmp/+050.000000,+30.000000,0003.0000000.wkb.gz'', [[(50, 30), (55, 30), (55, 35)]])],
         events = [Print ''   > Making "tmp/+050.000000,+30.000000,0003.0000000.wkb.gz" ...'']\<rparr>
   \<and> NAME \<lparr>NAME = ''Baikonur'', geometry = [] :: coord list list\<rparr>
      \<in> set (avoidCountries (default_kwargs :: coord list list kwargs))
   \<and> record_step toy_geo ''tmp'' default_kwargs \<lparr>files = [], events = []\<rparr>
        \<lparr>NAME = ''Baikonur'', geometry = []\<rparr>
      = \<lparr>files = [],
         events = [Print ''   > Making "tmp/+000.000000,+00.000000,0000.0000000.wkb.gz" ...'',
                   Print ''     > Skipped (no Polygons).'']\<rparr>\<close>
proof -
  let ?w = "\<lparr>files = [], events = []\<rparr> :: coord list list world"
  let ?japan = "\<lparr>NAME = ''Japan'', geometry = [[(139, 35), (140, 35), (140, 36)]] :: coord list list\<rparr>"
  let ?iran = "\<lparr>NAME = ''Iran'', geometry = [[(50, 30), (55, 30), (55, 35)]] :: coord list list\<rparr>"
  let ?baikonur = "\<lparr>NAME = ''Baikonur'', geometry = [] :: coord list list\<rparr>"
  have j: "NAME ?japan \<notin> set (avoidCountries (default_kwargs :: coord list list kwargs))"
    by (simp add: default_kwargs_def)
  have i: "NAME ?iran \<in> set (avoidCountries (default_kwargs :: coord list list kwargs))"
    by (simp add: default_kwargs_def)
  have k: "NAME ?baikonur \<in> set (avoidCountries (default_kwargs :: coord list list kwargs))"
    by (simp add: default_kwargs_def)
  have empty_name: "tmp_name toy_geo ''tmp'' [] = ''tmp/+000.000000,+00.000000,0000.0000000.wkb.gz''"
  proof -
    have "fmt_f True 11 6 0 = ''+000.000000''" "fmt_f True 10 6 0 = ''+00.000000''"
      "fmt_f False 12 7 0 = ''0000.0000000''"
      by (simp_all only: fmt_unfold) (simp_all add: fmt_eval)
    then show ?thesis
      by (simp add: tmp_name_def toy_geo_def)
  qed
  have lib: "kw_local (default_kwargs :: coord list list kwargs) = False"
    "\<not> 0 < kw_dist (default_kwargs :: coord list list kwargs)"
    "extract_polys toy_geo = (\<lambda>onlyValid repair g. map (\<lambda>ring. [ring]) g)"
    "unary_union toy_geo = concat" "simplify toy_geo = (\<lambda>g t. g)" "wkb_dumps toy_geo = (\<lambda>g. g)"
    by (simp_all add: default_kwargs_def toy_geo_def)
  from only_avoided_countries [of ?japan default_kwargs toy_geo "''tmp''" ?w, THEN conjunct2, THEN conjunct1] j
  have a: "record_step toy_geo ''tmp'' default_kwargs ?w ?japan = ?w"
    by blast
  from only_avoided_countries [of ?iran default_kwargs toy_geo "''tmp''" ?w,
      THEN conjunct2, THEN conjunct2, THEN conjunct1, THEN mp, OF i]
  have b: \<open>record_step toy_geo ''tmp'' default_kwargs ?w ?iran
      = \<lparr>files = [(''tmp/+050.000000,+30.000000,0003.0000000.wkb.gz'', [[(50, 30), (55, 30), (55, 35)]])],
         events = [Print ''   > Making "tmp/+050.000000,+30.000000,0003.0000000.wkb.gz" ...'']\<rparr>\<close>
    unfolding Let_def by (simp add: toy_tmp_name lib path_exists_def write_file_def)
  from only_avoided_countries [of ?baikonur default_kwargs toy_geo "''tmp''" ?w,
      THEN conjunct2, THEN conjunct2, THEN conjunct1, THEN mp, OF k]
  have c: \<open>record_step toy_geo ''tmp'' default_kwargs ?w ?baikonur
      = \<lparr>files = [],
         events = [Print ''   > Making "tmp/+000.000000,+00.000000,0000.0000000.wkb.gz" ...'',
                   Print ''     > Skipped (no Polygons).'']\<rparr>\<close>
    unfolding Let_def by (simp add: empty_name lib path_exists_def)
  from j a i b k c show ?thesis
    by (intro conjI)
qed

theorem avoided_record_skipped_counterexample:
  \<open>NAME \<lparr>NAME = ''Iran'', geometry = [[(50, 30), (55, 30), (55, 35)]] :: coord list list\<rparr>
      \<in> set (avoidCountries (default_kwargs :: coord list list kwargs))
   \<and> record_step toy_geo ''tmp'' default_kwargs
        \<lparr>files = [(''tmp/+050.000000,+30.000000,0003.0000000.wkb.gz'', [[(0, 0)]])],
          events = [Print '' > Loading "ne_110m_admin_0_countries.shp" ...'']\<rparr>
        \<lparr>NAME = ''Iran'', geometry = [[(50, 30), (55, 30), (55, 35)]]\<rparr>
      = \<lparr>files = [(''tmp/+050.000000,+30.000000,0003.0000000.wkb.gz'', [[(0, 0)]])],
         events = [Print '' > Loading "ne_110m_admin_0_countries.shp" ...'']\<rparr>
   \<and> record_step toy_geo ''tmp'' default_kwargs
        \<lparr>files = [(''tmp/+050.000000,+30.000000,0003.0000000.wkb.gz'', [[(0, 0)]])],
          events = [Print '' > Loading "ne_110m_admin_0_countries.shp" ...'']\<rparr>
        \<lparr>NAME = ''Iran'', geometry = [[(50, 30), (55, 30), (55, 35)]]\<rparr>
      = record_step toy_geo ''tmp'' default_kwargs
        \<lparr>files = [(''tmp/+050.000000,+30.000000,0003.0000000.wkb.gz'', [[(0, 0)]])],
          events = [Print '' > Loading "ne_110m_admin_0_countries.shp" ...'']\<rparr>
        \<lparr>NAME = ''Japan'', geometry = [[(50, 30), (55, 30), (55, 35)]]\<rparr>\<close>
  by (simp add: record_step_def save_record_def toy_tmp_name path_exists_def default_kwargs_def)

section \<open>The files a script touches\<close>

lemma map_of_write_file:
  "map_of (write_file fs p c) q = (if q = p then Some c else map_of fs q)"
  by (simp add: write_file_def map_of_filter_fst)

lemma survey_reads:
  assumes "map_of fs (allLands_fname c) = map_of fs' (allLands_fname c)"
  shows "survey L fs c = survey L fs' c"
  using assms by (simp add: survey_def path_exists_def read_file_def Let_def)

lemma complexity_turn_reads:
  assumes "events w = events w'"
    and "map_of (files w) (allLands_fname c) = map_of (files w') (allLands_fname c)"
    and "map_of (files w) (complexity_png c) = map_of (files w') (complexity_png c)"
  shows "rel_sum (=)
           (\<lambda>u u'. events u = events u'
              \<and> map_of (files u) (allLands_fname c) = map_of (files u') (allLands_fname c)
              \<and> map_of (files u) (complexity_png c) = map_of (files u') (complexity_png c))
           (complexity_turn I w c) (complexity_turn I w' c)"
proof -
  have ev: "events w' = events w"
    and al: "map_of (files w') (allLands_fname c) = map_of (files w) (allLands_fname c)"
    and pn: "map_of (files w') (complexity_png c) = map_of (files w) (complexity_png c)"
    using assms by simp_all
  have s: "survey I (files w') c = survey I (files w) c"
    using al by (rule survey_reads)
  have r: "read_file (files w') (allLands_fname c) = read_file (files w) (allLands_fname c)"
    using al by (simp add: read_file_def)
  show ?thesis
  proof (cases "survey I (files w) c")
    case None
    then show ?thesis
      by (simp add: complexity_turn_def Let_def s ev al pn)
  next
    case (Some x)
    show ?thesis
    proof (cases x)
      case (Inl e)
      with Some show ?thesis
        by (simp add: complexity_turn_def Let_def s)
    next
      case (Inr h)
      show ?thesis
      proof (cases "cell_colours (colour_table I) h")
        case Inl
        with Some Inr show ?thesis
          by (simp add: complexity_turn_def Let_def s)
      next
        case grid: (Inr grid)
        show ?thesis
        proof (cases "read_file (files w) (allLands_fname c)")
          case Inl
          with Some Inr grid show ?thesis
            by (simp add: complexity_turn_def Let_def s r)
        next
          case content: (Inr content)
          with Some Inr grid show ?thesis
            by (simp add: complexity_turn_def Let_def s r ev al map_of_write_file)
        qed
      qed
    qed
  qed
qed

lemma complexity_turn_writes:
  assumes "complexity_turn I w c = Inr u" and "p \<noteq> complexity_png c"
  shows "map_of (files u) p = map_of (files w) p"
  using assms unfolding complexity_turn_def Let_def
  by (auto simp: map_of_write_file split: option.splits sum.splits)

lemma collect_ok:
  assumes "\<forall>x \<in> set xs. \<exists>y. x = Inr y"
  shows "\<exists>ys. collect xs = Inr ys"
  using assms by (induction xs) auto

lemma cell_colours_ok:
  assumes "length table = 256"
  shows "\<exists>grid. cell_colours table h = Inr grid"
proof -
  have px: "\<exists>rgb. pixel_colour table v = Inr rgb" for v
    using assms colour_index_bounds [of v]
    by (simp add: pixel_colour_def list_index_def axis_index_def del: split_paired_Ex)
  have "\<exists>ys. collect (map (pixel_colour table) row) = Inr ys" for row
    by (rule collect_ok) (use px in auto)
  then show ?thesis
    unfolding cell_colours_def by (intro collect_ok) auto
qed

lemma complexity_turn_runs:
  assumes "path_exists (files w) (allLands_fname c)" and "length (colour_table I) = 256"
  shows \<open>\<exists>h content. complexity_turn I w c =
           Inr (w\<lparr> files := write_file (files w) (complexity_png c) content,
                    events := events w
                      @ [Print (''Surveying "'' @ allLands_fname c @ ''" ...''),
                         Print ('' > Maximum value = '' @ fmt_comma_d (hist_max h) @ ''.''),
                         Print (''Saving "'' @ complexity_png c @ ''" ...'')] \<rparr>)\<close>
proof -
  from assms(1) obtain content where rd: "read_file (files w) (allLands_fname c) = Inr content"
    by (auto simp: path_exists_def read_file_def)
  from hist_polys_counts [OF hist_shape_zeros, of I "extract_polys I False False (wkb_loads I content)"]
  obtain h where h: "hist_polys I (zeros (nat nLat) (nat nLon))
      (extract_polys I False False (wkb_loads I content)) = Inr h"
    by blast
  have s: "survey I (files w) c = Some (Inr h)"
    using assms(1) by (simp add: survey_def rd h)
  from cell_colours_ok [OF assms(2)] obtain grid where g: "cell_colours (colour_table I) h = Inr grid"
    by blast
  have "complexity_turn I w c =
      Inr (w\<lparr> files := write_file (files w) (complexity_png c)
                 (optimise_png I (png_of_image I (upscale scale grid)
                    (map (\<lambda>allLand. map line_point (exterior_coords I allLand))
                       (extract_polys I False False (wkb_loads I content))))),
               events := events w
                 @ [Print (''Surveying '' @ [CHR 0x22] @ allLands_fname c @ [CHR 0x22] @ '' ...''),
                    Print ('' > Maximum value = '' @ fmt_comma_d (hist_max h) @ ''.''),
                    Print (''Saving '' @ [CHR 0x22] @ complexity_png c @ [CHR 0x22] @ '' ...'')] \<rparr>)"
    by (simp add: complexity_turn_def Let_def s g rd)
  then show ?thesis
    by (intro exI [of _ h] exI [of _ "optimise_png I (png_of_image I (upscale scale grid)
                    (map (\<lambda>allLand. map line_point (exterior_coords I allLand))
                       (extract_polys I False False (wkb_loads I content))))"]) simp
qed

lemma read_files_cong:
  assumes "\<forall>p \<in> set ps. map_of fs p = map_of fs' p"
  shows "read_files fs ps = read_files fs' ps"
  using assms by (induction ps) (auto simp: read_file_def split: option.splits sum.splits)

lemma limit_fnames_reads:
  assumes "\<forall>(nAng, neRes, prec, color) \<in> set combs.
             map_of fs (limit_fname (nAng, neRes, prec, color) ((1000 * d) div prec))
               = map_of fs' (limit_fname (nAng, neRes, prec, color) ((1000 * d) div prec))"
  shows "limit_fnames fs d = limit_fnames fs' d"
proof -
  have "limit_ok fs d c = limit_ok fs' d c" if "c \<in> set combs" for c
    using assms that by (cases c) (auto simp: limit_ok_def path_exists_def limit_fname_def)
  then have "filter (limit_ok fs d) combs = filter (limit_ok fs' d) combs"
    by (intro filter_cong) auto
  then show ?thesis
    by (simp add: limit_fnames_eq)
qed

lemma frame_step_reads:
  assumes ev: "events st = events st'" and fr: "frames st = frames st'"
    and fp: "map_of (files st) (frame_path d) = map_of (files st') (frame_path d)"
    and al: "map_of (files st) (allLands_fname (33, ''10m'', 29000, (0, 0, 1, 1)))
               = map_of (files st') (allLands_fname (33, ''10m'', 29000, (0, 0, 1, 1)))"
    and li: "\<forall>(nAng, neRes, prec, color) \<in> set combs.
             map_of (files st) (limit_fname (nAng, neRes, prec, color) ((1000 * d) div prec))
               = map_of (files st') (limit_fname (nAng, neRes, prec, color) ((1000 * d) div prec))"
  shows "rel_sum (=)
           (\<lambda>u u'. events u = events u' \<and> frames u = frames u'
              \<and> map_of (files u) (frame_path d) = map_of (files u') (frame_path d))
           (frame_step P st d) (frame_step P st' d)"
proof -
  have ex: "path_exists (files st') (frame_path d) = path_exists (files st) (frame_path d)"
    using fp by (simp add: path_exists_def)
  have fn: "limit_fnames (files st') d = limit_fnames (files st) d"
    using li by (intro limit_fnames_reads [symmetric])
  show ?thesis
  proof (cases "path_exists (files st) (frame_path d)")
    case True
    then show ?thesis
      using ev fr fp by (simp add: frame_step_def ex)
  next
    case no: False
    show ?thesis
    proof (cases "list_all (limit_ok (files st) d) combs")
      case False
      then have "length (limit_fnames (files st) d) \<noteq> length combs"
        by (simp add: limit_fnames_length)
      then show ?thesis
        using no ev fr fp by (simp add: frame_step_def ex fn)
    next
      case True
      have no': "\<not> path_exists (files st') (frame_path d)"
        using no ex by simp
      have True': "list_all (limit_ok (files st') d) combs"
        using True fn by (simp add: limit_fnames_length [symmetric])
      let ?F = "limit_fnames (files st) d"
      have F: "?F = map (\<lambda>c. limit_fname c ((1000 * d) div fst (snd (snd c)))) combs"
        by (rule limit_fnames_all [OF True])
      have ne: "?F \<noteq> []"
        unfolding F by (simp add: combs_eval)
      have land: "dirname (dirname (dirname (last ?F))) @ ''/allLands.wkb.gz''
          = allLands_fname (33, ''10m'', 29000, (0, 0, 1, 1))"
        unfolding last_limit_fnames [OF True] by (rule allLands_of_limit)
      have rl: "read_file (files st') (allLands_fname (33, ''10m'', 29000, (0, 0, 1, 1)))
          = read_file (files st) (allLands_fname (33, ''10m'', 29000, (0, 0, 1, 1)))"
        using al by (simp add: read_file_def)
      have "\<forall>p \<in> set ?F. map_of (files st') p = map_of (files st) p"
        unfolding F using li by auto
      then have rf: "read_files (files st') ?F = read_files (files st) ?F"
        by (rule read_files_cong)
      have "frame_step P st d = render_frame P st d ?F"
        by (rule frame_step_render [OF no True])
      moreover have "frame_step P st' d = render_frame P st' d ?F"
        using frame_step_render [OF no' True'] by (simp add: fn)
      ultimately show ?thesis
        unfolding render_frame_def Let_def land rl rf using ne ev fr
        by (simp add: map_of_write_file split: sum.splits)
    qed
  qed
qed

lemma frame_step_writes:
  assumes "frame_step P st d = Inr u" and "p \<noteq> frame_path d"
  shows "map_of (files u) p = map_of (files st) p"
  using assms unfolding frame_step_def render_frame_def Let_def
  by (auto simp: map_of_write_file split: if_splits sum.splits)

lemma save_mp4_writes:
  "map_of (files (save_mp4 P st sz)) p =
     (if p = mp4_path sz then Some (images2mp4 P (files st) (frames st) sz) else map_of (files st) p)"
  by (simp add: save_mp4_def Let_def map_of_write_file)

lemma record_step_writes:
  assumes "p \<noteq> tmp_name L dname (geometry r)"
  shows "map_of (files (record_step L dname kw w r)) p = map_of (files w) p"
  using assms by (simp add: record_step_def save_record_def Let_def map_of_write_file)

lemma record_loop_writes:
  assumes "p \<notin> set (map (\<lambda>r. tmp_name L dname (geometry r)) rs)"
  shows "map_of (files (foldl (record_step L dname kw) w rs)) p = map_of (files w) p"
  using assms by (induction rs arbitrary: w) (simp_all add: record_step_writes)

lemma saveAllLands_writes:
  assumes "p \<noteq> wName" and "p \<noteq> removesuffix wName ''.wkb.gz'' @ ''.geojson''"
    and "p \<notin> set (map (\<lambda>r. tmp_name L dname (geometry r)) (shp_records L (natural_earth L (kw_neRes kw))))"
  shows "map_of (files (snd (saveAllLands L wName dname kw w0))) p = map_of (files w0) p"
proof -
  have "map_of (files (save_records L dname kw w0)) p = map_of (files w0) p"
    unfolding save_records_def Let_def using assms(3) by (simp add: record_loop_writes)
  then show ?thesis
    using assms(1,2) by (simp add: saveAllLands_def Let_def load_tmp_loop map_of_write_file)
qed

lemma complexity_png_eval:
  "complexity_png (9, ''110m'', 116000, col) = ''complexity_res=110m_cons=2.00e+00_nAng=9_prec=1.16e+05.png''"
  "complexity_png (17, ''50m'', 58000, col) = ''complexity_res=50m_cons=2.00e+00_nAng=17_prec=5.80e+04.png''"
  "complexity_png (33, ''10m'', 29000, col) = ''complexity_res=10m_cons=2.00e+00_nAng=33_prec=2.90e+04.png''"
  by (simp_all add: complexity_png_def fmt_small_d fmt_prec_e)

lemma toy_tmp_names:
  "tmp_name toy_geo ''tmp'' [[(139, 35), (140, 35), (140, 36)]] =
     ''tmp/+139.000000,+35.000000,0003.0000000.wkb.gz''"
  "tmp_name toy_geo ''tmp'' [] = ''tmp/+000.000000,+00.000000,0000.0000000.wkb.gz''"
proof -
  have "fmt_f True 11 6 139 = ''+139.000000''" "fmt_f True 10 6 35 = ''+35.000000''"
    "fmt_f False 12 7 3 = ''0003.0000000''" "fmt_f True 11 6 0 = ''+000.000000''"
    "fmt_f True 10 6 0 = ''+00.000000''" "fmt_f False 12 7 0 = ''0000.0000000''"
    by (simp_all only: fmt_unfold) (simp_all add: fmt_eval)
  then show "tmp_name toy_geo ''tmp'' [[(139, 35), (140, 35), (140, 36)]] =
     ''tmp/+139.000000,+35.000000,0003.0000000.wkb.gz''"
    "tmp_name toy_geo ''tmp'' [] = ''tmp/+000.000000,+00.000000,0000.0000000.wkb.gz''"
    by (simp_all add: tmp_name_def toy_geo_def)
qed

text \<open>
  C7. The files of the results are addressed by convention. The result file of a step, the
  land of a combination, the picture of its complexity, the frame of a distance, the four
  videos and the temporary file of a record each have a path that is a function of their
  parameters alone, in the layout the claim quotes: the resolution, the angle count, the
  precision (and the two frequencies derived from it), the longitude and latitude of the start,
  the step index, the distance, the maximum size, the centroid and the area are printed into
  the components of the path. For the three combinations that are swept the paths are spelled
  out. Equal parameters give equal paths; the colour of a combination plays no part.

  These are all the files the models touch. A survey depends on the file system only through
  the land of its combination. A turn of the loop of \<open>complexity.py\<close> depends on it only
  through the land and the picture of its combination, and changes nothing but the picture. A
  turn of the loop over distances depends on it only through the frame of the distance, the
  result files of that distance in the three combinations and the land of the last
  combination, and changes nothing but the frame. Saving a video changes nothing but the video,
  a record of the Shapefile nothing but its temporary file, and \<open>saveAllLands\<close> nothing but
  the temporary files of the records and the two files it is asked to write.
\<close>

theorem paths_by_convention:
  \<open>limit_fname (nAng, neRes, prec, color) n =
     ''res='' @ neRes @ ''_cons=2.00e+00_tol=1.00e-10/local=F_nAng='' @ fmt_d nAng
       @ ''_prec='' @ fmt_e 2 prec
       @ ''/freqLand='' @ fmt_d (8 * 928000 div prec) @ ''_freqSimp='' @ fmt_d (928000 div prec)
       @ ''_lon='' @ fmt_f True 11 6 lon @ ''_lat='' @ fmt_f True 10 6 lat
       @ ''/limit/istep='' @ fmt_0d 6 n @ ''.wkb.gz''
   \<and> allLands_fname (nAng, neRes, prec, color) =
     ''res='' @ neRes @ ''_cons=2.00e+00_tol=1.00e-10/local=F_nAng='' @ fmt_d nAng
       @ ''_prec='' @ fmt_e 2 prec @ ''/allLands.wkb.gz''
   \<and> complexity_png (nAng, neRes, prec, color) =
     ''complexity_res='' @ neRes @ ''_cons=2.00e+00_nAng='' @ fmt_d nAng
       @ ''_prec='' @ fmt_e 2 prec @ ''.png''
   \<and> frame_path d =
     ''nAng=9,17,33_neRes=110m,50m,10m_prec=1.16e+05,5.80e+04,2.90e+04/lon=+139.779999_lat=+35.552299/dist=''
       @ fmt_0d 5 d @ ''_Flight.png''
   \<and> mp4_path None =
     ''nAng=9,17,33_neRes=110m,50m,10m_prec=1.16e+05,5.80e+04,2.90e+04/lon=+139.779999_lat=+35.552299_Flight.mp4''
   \<and> mp4_path (Some m) =
     ''nAng=9,17,33_neRes=110m,50m,10m_prec=1.16e+05,5.80e+04,2.90e+04/lon=+139.779999_lat=+35.552299_Flight''
       @ fmt_0d 4 m @ ''px.mp4''
   \<and> tmp_name G dname g =
     dname @ ''/'' @ fmt_f True 11 6 (fst (centroid G g)) @ '','' @ fmt_f True 10 6 (snd (centroid G g))
       @ '','' @ fmt_f False 12 7 (area G g) @ ''.wkb.gz''
   \<and> map allLands_fname combs =
     [''res=110m_cons=2.00e+00_tol=1.00e-10/local=F_nAng=9_prec=1.16e+05/allLands.wkb.gz'',
      ''res=50m_cons=2.00e+00_tol=1.00e-10/local=F_nAng=17_prec=5.80e+04/allLands.wkb.gz'',
      ''res=10m_cons=2.00e+00_tol=1.00e-10/local=F_nAng=33_prec=2.90e+04/allLands.wkb.gz'']
   \<and> map complexity_png combs =
     [''complexity_res=110m_cons=2.00e+00_nAng=9_prec=1.16e+05.png'',
      ''complexity_res=50m_cons=2.00e+00_nAng=17_prec=5.80e+04.png'',
      ''complexity_res=10m_cons=2.00e+00_nAng=33_prec=2.90e+04.png'']
   \<and> map (\<lambda>c. limit_fname c n) combs =
     [''res=110m_cons=2.00e+00_tol=1.00e-10/local=F_nAng=9_prec=1.16e+05/freqLand=64_freqSimp=8_lon=+139.779999_lat=+35.552299/limit/istep=''
        @ fmt_0d 6 n @ ''.wkb.gz'',
      ''res=50m_cons=2.00e+00_tol=1.00e-10/local=F_nAng=17_prec=5.80e+04/freqLand=128_freqSimp=16_lon=+139.779999_lat=+35.552299/limit/istep=''
        @ fmt_0d 6 n @ ''.wkb.gz'',
      ''res=10m_cons=2.00e+00_tol=1.00e-10/local=F_nAng=33_prec=2.90e+04/freqLand=256_freqSimp=32_lon=+139.779999_lat=+35.552299/limit/istep=''
        @ fmt_0d 6 n @ ''.wkb.gz'']
   \<and> (nAng = nAng' \<and> neRes = neRes' \<and> prec = prec' \<and> n = n' \<longrightarrow>
        limit_fname (nAng, neRes, prec, color) n = limit_fname (nAng', neRes', prec', color') n'
        \<and> allLands_fname (nAng, neRes, prec, color) = allLands_fname (nAng', neRes', prec', color')
        \<and> complexity_png (nAng, neRes, prec, color) = complexity_png (nAng', neRes', prec', color'))
   \<and> (map_of fs (allLands_fname c) = map_of fs' (allLands_fname c) \<longrightarrow>
        survey L fs c = survey L fs' c)
   \<and> (events w = events w'
        \<and> (\<forall>p \<in> set [allLands_fname c, complexity_png c]. map_of (files w) p = map_of (files w') p) \<longrightarrow>
        rel_sum (=)
          (\<lambda>u u'. events u = events u'
             \<and> (\<forall>p \<in> set [allLands_fname c, complexity_png c]. map_of (files u) p = map_of (files u') p))
          (complexity_turn I w c) (complexity_turn I w' c))
   \<and> (\<forall>u p. complexity_turn I w c = Inr u \<and> p \<noteq> complexity_png c \<longrightarrow>
          map_of (files u) p = map_of (files w) p)
   \<and> (events st = events st' \<and> frames st = frames st'
        \<and> (\<forall>p \<in> set (frame_path d # allLands_fname (33, ''10m'', 29000, (0, 0, 1, 1))
                        # map (\<lambda>(nAng, neRes, prec, color).
                                 limit_fname (nAng, neRes, prec, color) ((1000 * d) div prec)) combs).
              map_of (files st) p = map_of (files st') p) \<longrightarrow>
        rel_sum (=)
          (\<lambda>u u'. events u = events u' \<and> frames u = frames u'
             \<and> map_of (files u) (frame_path d) = map_of (files u') (frame_path d))
          (frame_step P st d) (frame_step P st' d))
   \<and> (\<forall>u p. frame_step P st d = Inr u \<and> p \<noteq> frame_path d \<longrightarrow>
          map_of (files u) p = map_of (files st) p)
   \<and> (\<forall>p. map_of (files (save_mp4 P st sz)) p =
          (if p = mp4_path sz then Some (images2mp4 P (files st) (frames st) sz)
           else map_of (files st) p))
   \<and> (\<forall>p. p \<noteq> tmp_name G dname (geometry r) \<longrightarrow>
          map_of (files (record_step G dname kw w1 r)) p = map_of (files w1) p)
   \<and> (\<forall>p. p \<notin> set (wName # (removesuffix wName ''.wkb.gz'' @ ''.geojson'')
                      # map (\<lambda>r. tmp_name G dname (geometry r))
                          (shp_records G (natural_earth G (kw_neRes kw)))) \<longrightarrow>
          map_of (files (snd (saveAllLands G wName dname kw w1))) p = map_of (files w1) p)\<close>
proof -
  have a1: "limit_fname (nAng, neRes, prec, color) n =
     ''res='' @ neRes @ ''_cons=2.00e+00_tol=1.00e-10/local=F_nAng='' @ fmt_d nAng
       @ ''_prec='' @ fmt_e 2 prec
       @ ''/freqLand='' @ fmt_d (8 * 928000 div prec) @ ''_freqSimp='' @ fmt_d (928000 div prec)
       @ ''_lon='' @ fmt_f True 11 6 lon @ ''_lat='' @ fmt_f True 10 6 lat
       @ ''/limit/istep='' @ fmt_0d 6 n @ ''.wkb.gz''"
    by (simp add: limit_fname_def limit_dname_def Let_def)
  have a2: "allLands_fname (nAng, neRes, prec, color) =
     ''res='' @ neRes @ ''_cons=2.00e+00_tol=1.00e-10/local=F_nAng='' @ fmt_d nAng
       @ ''_prec='' @ fmt_e 2 prec @ ''/allLands.wkb.gz''"
    by (simp add: allLands_fname_def comb_dname_def)
  have a3: "complexity_png (nAng, neRes, prec, color) =
     ''complexity_res='' @ neRes @ ''_cons=2.00e+00_nAng='' @ fmt_d nAng
       @ ''_prec='' @ fmt_e 2 prec @ ''.png''"
    by (simp add: complexity_png_def)
  have a4: "frame_path d =
     ''nAng=9,17,33_neRes=110m,50m,10m_prec=1.16e+05,5.80e+04,2.90e+04/lon=+139.779999_lat=+35.552299/dist=''
       @ fmt_0d 5 d @ ''_Flight.png''"
    by (simp add: frame_path_def start_dir_eval)
  have a5: "mp4_path None =
     ''nAng=9,17,33_neRes=110m,50m,10m_prec=1.16e+05,5.80e+04,2.90e+04/lon=+139.779999_lat=+35.552299_Flight.mp4''"
    by (simp add: mp4_path_def start_dir_eval)
  have a6: "mp4_path (Some m) =
     ''nAng=9,17,33_neRes=110m,50m,10m_prec=1.16e+05,5.80e+04,2.90e+04/lon=+139.779999_lat=+35.552299_Flight''
       @ fmt_0d 4 m @ ''px.mp4''"
    by (simp add: mp4_path_def start_dir_eval)
  have a7: "tmp_name G dname g =
     dname @ ''/'' @ fmt_f True 11 6 (fst (centroid G g)) @ '','' @ fmt_f True 10 6 (snd (centroid G g))
       @ '','' @ fmt_f False 12 7 (area G g) @ ''.wkb.gz''"
    by (simp add: tmp_name_def)
  have b1: "map allLands_fname combs =
     [''res=110m_cons=2.00e+00_tol=1.00e-10/local=F_nAng=9_prec=1.16e+05/allLands.wkb.gz'',
      ''res=50m_cons=2.00e+00_tol=1.00e-10/local=F_nAng=17_prec=5.80e+04/allLands.wkb.gz'',
      ''res=10m_cons=2.00e+00_tol=1.00e-10/local=F_nAng=33_prec=2.90e+04/allLands.wkb.gz'']"
    by (simp add: combs_eval allLands_fname_def comb_dname_eval)
  have b2: "map complexity_png combs =
     [''complexity_res=110m_cons=2.00e+00_nAng=9_prec=1.16e+05.png'',
      ''complexity_res=50m_cons=2.00e+00_nAng=17_prec=5.80e+04.png'',
      ''complexity_res=10m_cons=2.00e+00_nAng=33_prec=2.90e+04.png'']"
    by (simp add: combs_eval complexity_png_eval)
  have b3: "map (\<lambda>c. limit_fname c n) combs =
     [''res=110m_cons=2.00e+00_tol=1.00e-10/local=F_nAng=9_prec=1.16e+05/freqLand=64_freqSimp=8_lon=+139.779999_lat=+35.552299/limit/istep=''
        @ fmt_0d 6 n @ ''.wkb.gz'',
      ''res=50m_cons=2.00e+00_tol=1.00e-10/local=F_nAng=17_prec=5.80e+04/freqLand=128_freqSimp=16_lon=+139.779999_lat=+35.552299/limit/istep=''
        @ fmt_0d 6 n @ ''.wkb.gz'',
      ''res=10m_cons=2.00e+00_tol=1.00e-10/local=F_nAng=33_prec=2.90e+04/freqLand=256_freqSimp=32_lon=+139.779999_lat=+35.552299/limit/istep=''
        @ fmt_0d 6 n @ ''.wkb.gz'']"
    by (simp add: combs_eval limit_fname_def limit_dname_eval)
  have c1: "nAng = nAng' \<and> neRes = neRes' \<and> prec = prec' \<and> n = n' \<longrightarrow>
        limit_fname (nAng, neRes, prec, color) n = limit_fname (nAng', neRes', prec', color') n'
        \<and> allLands_fname (nAng, neRes, prec, color) = allLands_fname (nAng', neRes', prec', color')
        \<and> complexity_png (nAng, neRes, prec, color) = complexity_png (nAng', neRes', prec', color')"
    by (simp add: limit_fname_def limit_dname_def allLands_fname_def comb_dname_def
        complexity_png_def Let_def)
  have d1: "map_of fs (allLands_fname c) = map_of fs' (allLands_fname c) \<longrightarrow>
        survey L fs c = survey L fs' c"
    by (rule impI) (rule survey_reads)
  have d2: "events w = events w'
        \<and> (\<forall>p \<in> set [allLands_fname c, complexity_png c]. map_of (files w) p = map_of (files w') p) \<longrightarrow>
        rel_sum (=)
          (\<lambda>u u'. events u = events u'
             \<and> (\<forall>p \<in> set [allLands_fname c, complexity_png c]. map_of (files u) p = map_of (files u') p))
          (complexity_turn I w c) (complexity_turn I w' c)"
    using complexity_turn_reads [of w w' c I] by simp
  have d3: "\<forall>u p. complexity_turn I w c = Inr u \<and> p \<noteq> complexity_png c \<longrightarrow>
          map_of (files u) p = map_of (files w) p"
    using complexity_turn_writes by blast
  have d4: "events st = events st' \<and> frames st = frames st'
        \<and> (\<forall>p \<in> set (frame_path d # allLands_fname (33, ''10m'', 29000, (0, 0, 1, 1))
                        # map (\<lambda>(nAng, neRes, prec, color).
                                 limit_fname (nAng, neRes, prec, color) ((1000 * d) div prec)) combs).
              map_of (files st) p = map_of (files st') p) \<longrightarrow>
        rel_sum (=)
          (\<lambda>u u'. events u = events u' \<and> frames u = frames u'
             \<and> map_of (files u) (frame_path d) = map_of (files u') (frame_path d))
          (frame_step P st d) (frame_step P st' d)"
  proof
    assume h: "events st = events st' \<and> frames st = frames st'
        \<and> (\<forall>p \<in> set (frame_path d # allLands_fname (33, ''10m'', 29000, (0, 0, 1, 1))
                        # map (\<lambda>(nAng, neRes, prec, color).
                                 limit_fname (nAng, neRes, prec, color) ((1000 * d) div prec)) combs).
              map_of (files st) p = map_of (files st') p)"
    then have "\<forall>(nAng, neRes, prec, color) \<in> set combs.
             map_of (files st) (limit_fname (nAng, neRes, prec, color) ((1000 * d) div prec))
               = map_of (files st') (limit_fname (nAng, neRes, prec, color) ((1000 * d) div prec))"
      by (simp add: combs_eval)
    with h show "rel_sum (=)
          (\<lambda>u u'. events u = events u' \<and> frames u = frames u'
             \<and> map_of (files u) (frame_path d) = map_of (files u') (frame_path d))
          (frame_step P st d) (frame_step P st' d)"
      by (intro frame_step_reads) simp_all
  qed
  have d5: "\<forall>u p. frame_step P st d = Inr u \<and> p \<noteq> frame_path d \<longrightarrow>
          map_of (files u) p = map_of (files st) p"
    using frame_step_writes by blast
  have d6: "\<forall>p. map_of (files (save_mp4 P st sz)) p =
          (if p = mp4_path sz then Some (images2mp4 P (files st) (frames st) sz)
           else map_of (files st) p)"
    by (simp add: save_mp4_writes)
  have d7: "\<forall>p. p \<noteq> tmp_name G dname (geometry r) \<longrightarrow>
          map_of (files (record_step G dname kw w1 r)) p = map_of (files w1) p"
    by (simp add: record_step_writes)
  have d8: "\<forall>p. p \<notin> set (wName # (removesuffix wName ''.wkb.gz'' @ ''.geojson'')
                      # map (\<lambda>r. tmp_name G dname (geometry r))
                          (shp_records G (natural_earth G (kw_neRes kw)))) \<longrightarrow>
          map_of (files (snd (saveAllLands G wName dname kw w1))) p = map_of (files w1) p"
    by (simp add: saveAllLands_writes)
  from a1 a2 a3 a4 a5 a6 a7 b1 b2 b3 c1 d1 d2 d3 d4 d5 d6 d7 d8 show ?thesis
    by (intro conjI)
qed

theorem paths_by_convention_witness:
  \<open>frame_path 116 = ''nAng=9,17,33_neRes=110m,50m,10m_prec=1.16e+05,5.80e+04,2.90e+04/lon=+139.779999_lat=+35.552299/dist=00116_Flight.png''
   \<and> mp4_path (Some 512) = ''nAng=9,17,33_neRes=110m,50m,10m_prec=1.16e+05,5.80e+04,2.90e+04/lon=+139.779999_lat=+35.552299_Flight0512px.mp4''
   \<and> limit_fname (33, ''10m'', 29000, (0, 0, 1, 1)) 4 = limit_fname (33, ''10m'', 29000, (1, 0, 0, 1)) 4
   \<and> complexity_png (33, ''10m'', 29000, (0, 0, 1, 1)) = complexity_png (33, ''10m'', 29000, (1, 0, 0, 1))
   \<and> map_of ([(''res=110m_cons=2.00e+00_tol=1.00e-10/local=F_nAng=9_prec=1.16e+05/allLands.wkb.gz'', [[(139.7, 35.5), (24.9, 60.3)]])] :: coord list list fs) (allLands_fname (9, ''110m'', 116000, (1, 0, 0, 1)))
      = map_of [(''notes.txt'', []), (''res=110m_cons=2.00e+00_tol=1.00e-10/local=F_nAng=9_prec=1.16e+05/allLands.wkb.gz'', [[(139.7, 35.5), (24.9, 60.3)]])] (allLands_fname (9, ''110m'', 116000, (1, 0, 0, 1)))
   \<and> survey toy_shapes [(''res=110m_cons=2.00e+00_tol=1.00e-10/local=F_nAng=9_prec=1.16e+05/allLands.wkb.gz'', [[(139.7, 35.5), (24.9, 60.3)]])] (9, ''110m'', 116000, (1, 0, 0, 1))
      = survey toy_shapes [(''notes.txt'', []), (''res=110m_cons=2.00e+00_tol=1.00e-10/local=F_nAng=9_prec=1.16e+05/allLands.wkb.gz'', [[(139.7, 35.5), (24.9, 60.3)]])] (9, ''110m'', 116000, (1, 0, 0, 1))
   \<and> rel_sum (=)
        (\<lambda>u u'. events u = events u'
           \<and> map_of (files u) (allLands_fname (9, ''110m'', 116000, (1, 0, 0, 1))) = map_of (files u') (allLands_fname (9, ''110m'', 116000, (1, 0, 0, 1)))
           \<and> map_of (files u) (complexity_png (9, ''110m'', 116000, (1, 0, 0, 1))) = map_of (files u') (complexity_png (9, ''110m'', 116000, (1, 0, 0, 1))))
        (complexity_turn toy_imaging \<lparr>files = [(''res=110m_cons=2.00e+00_tol=1.00e-10/local=F_nAng=9_prec=1.16e+05/allLands.wkb.gz'', [[(139.7, 35.5), (24.9, 60.3)]])], events = []\<rparr> (9, ''110m'', 116000, (1, 0, 0, 1)))
        (complexity_turn toy_imaging \<lparr>files = [(''notes.txt'', []), (''res=110m_cons=2.00e+00_tol=1.00e-10/local=F_nAng=9_prec=1.16e+05/allLands.wkb.gz'', [[(139.7, 35.5), (24.9, 60.3)]])], events = []\<rparr> (9, ''110m'', 116000, (1, 0, 0, 1)))
   \<and> (\<exists>u. complexity_turn toy_imaging \<lparr>files = [(''notes.txt'', []), (''res=110m_cons=2.00e+00_tol=1.00e-10/local=F_nAng=9_prec=1.16e+05/allLands.wkb.gz'', [[(139.7, 35.5), (24.9, 60.3)]])], events = []\<rparr> (9, ''110m'', 116000, (1, 0, 0, 1)) = Inr u
          \<and> ''notes.txt'' \<noteq> complexity_png (9, ''110m'', 116000, (1, 0, 0, 1))
          \<and> map_of (files u) ''notes.txt'' = Some [])
   \<and> map_of toy_results_land (frame_path 116) = map_of ((''notes.txt'', ''x'') # toy_results_land) (frame_path 116)
   \<and> rel_sum (=)
        (\<lambda>u u'. events u = events u' \<and> frames u = frames u'
           \<and> map_of (files u) (frame_path 116) = map_of (files u') (frame_path 116))
        (frame_step toy_plotting \<lparr>files = toy_results_land, events = [], frames = []\<rparr> 116)
        (frame_step toy_plotting \<lparr>files = (''notes.txt'', ''x'') # toy_results_land, events = [], frames = []\<rparr> 116)
   \<and> (\<exists>u. frame_step toy_plotting \<lparr>files = toy_results_land, events = [], frames = []\<rparr> 116 = Inr u
          \<and> ''res=10m_cons=2.00e+00_tol=1.00e-10/local=F_nAng=33_prec=2.90e+04/allLands.wkb.gz'' \<noteq> frame_path 116
          \<and> map_of (files u) ''res=10m_cons=2.00e+00_tol=1.00e-10/local=F_nAng=33_prec=2.90e+04/allLands.wkb.gz'' = Some ''land 33'')
   \<and> ''notes.txt'' \<noteq> tmp_name toy_geo ''tmp'' (geometry \<lparr>NAME = ''Iran'', geometry = [[(50, 30), (55, 30), (55, 35)]]\<rparr>)
   \<and> map_of (files (record_step toy_geo ''tmp'' default_kwargs \<lparr>files = [(''notes.txt'', [])], events = []\<rparr>
                      \<lparr>NAME = ''Iran'', geometry = [[(50, 30), (55, 30), (55, 35)]]\<rparr>)) ''notes.txt'' = Some []
   \<and> map_of (files (snd (saveAllLands toy_geo ''all.wkb.gz'' ''tmp'' default_kwargs
                           \<lparr>files = [(''notes.txt'', [])], events = []\<rparr>))) ''notes.txt'' = Some []\<close>
proof -
  let ?c = "(9, ''110m'', 116000, (1, 0, 0, 1)) :: comb"
  let ?fs = "[(''res=110m_cons=2.00e+00_tol=1.00e-10/local=F_nAng=9_prec=1.16e+05/allLands.wkb.gz'', [[(139.7, 35.5), (24.9, 60.3)]])] :: coord list list fs"
  let ?fs' = "[(''notes.txt'', []), (''res=110m_cons=2.00e+00_tol=1.00e-10/local=F_nAng=9_prec=1.16e+05/allLands.wkb.gz'', [[(139.7, 35.5), (24.9, 60.3)]])] :: coord list list fs"
  let ?w = "\<lparr>files = ?fs, events = []\<rparr>"
  let ?w' = "\<lparr>files = ?fs', events = []\<rparr>"
  let ?st = "\<lparr>files = toy_results_land, events = [], frames = []\<rparr>"
  let ?st' = "\<lparr>files = (''notes.txt'', ''x'') # toy_results_land, events = [], frames = []\<rparr>"
  let ?iran = "\<lparr>NAME = ''Iran'', geometry = [[(50, 30), (55, 30), (55, 35)]]\<rparr> :: coord list list ne_record"
  let ?wn = "\<lparr>files = [(''notes.txt'', [])], events = []\<rparr> :: coord list list world"
  have land: "allLands_fname ?c = ''res=110m_cons=2.00e+00_tol=1.00e-10/local=F_nAng=9_prec=1.16e+05/allLands.wkb.gz''"
    by (simp add: allLands_fname_def comb_dname_eval)
  have land33: "allLands_fname (33, ''10m'', 29000, (0, 0, 1, 1)) = ''res=10m_cons=2.00e+00_tol=1.00e-10/local=F_nAng=33_prec=2.90e+04/allLands.wkb.gz''"
    by (simp add: allLands_fname_def comb_dname_eval)
  have png: "complexity_png ?c = ''complexity_res=110m_cons=2.00e+00_nAng=9_prec=1.16e+05.png''"
    by (rule complexity_png_eval)
  have d116: "fmt_0d 5 116 = ''00116''" "fmt_0d 4 512 = ''0512''"
    by (simp_all only: fmt_unfold) (simp_all add: fmt_eval)
  from paths_by_convention [where d = 116, THEN conjunct2, THEN conjunct2, THEN conjunct2, THEN conjunct1]
  have w1: "frame_path 116 = ''nAng=9,17,33_neRes=110m,50m,10m_prec=1.16e+05,5.80e+04,2.90e+04/lon=+139.779999_lat=+35.552299/dist=00116_Flight.png''"
    by (simp add: d116)
  from paths_by_convention [where m = 512, THEN conjunct2, THEN conjunct2, THEN conjunct2, THEN conjunct2, THEN conjunct2, THEN conjunct1]
  have w2: "mp4_path (Some 512) = ''nAng=9,17,33_neRes=110m,50m,10m_prec=1.16e+05,5.80e+04,2.90e+04/lon=+139.779999_lat=+35.552299_Flight0512px.mp4''"
    by (simp add: d116)
  from paths_by_convention [where nAng = 33 and neRes = "''10m''" and prec = 29000 and n = 4
      and color = "(0, 0, 1, 1)" and nAng' = 33 and neRes' = "''10m''" and prec' = 29000 and n' = 4
      and color' = "(1, 0, 0, 1)", THEN conjunct2, THEN conjunct2, THEN conjunct2, THEN conjunct2, THEN conjunct2, THEN conjunct2, THEN conjunct2, THEN conjunct2, THEN conjunct2, THEN conjunct2, THEN conjunct1]
  have w3: "limit_fname (33, ''10m'', 29000, (0, 0, 1, 1)) 4 = limit_fname (33, ''10m'', 29000, (1, 0, 0, 1)) 4"
    and w3b: "complexity_png (33, ''10m'', 29000, (0, 0, 1, 1)) = complexity_png (33, ''10m'', 29000, (1, 0, 0, 1))"
    by simp_all
  have h4: "map_of ?fs (allLands_fname ?c) = map_of ?fs' (allLands_fname ?c)"
    by (simp add: land)
  from paths_by_convention [where fs = ?fs and fs' = ?fs' and c = ?c and L = toy_shapes, THEN conjunct2, THEN conjunct2, THEN conjunct2, THEN conjunct2, THEN conjunct2, THEN conjunct2, THEN conjunct2, THEN conjunct2, THEN conjunct2, THEN conjunct2, THEN conjunct2, THEN conjunct1, THEN mp, OF h4]
  have w4: "survey toy_shapes ?fs ?c = survey toy_shapes ?fs' ?c" .
  have h5: "events ?w = events ?w' \<and> (\<forall>p \<in> set [allLands_fname ?c, complexity_png ?c]. map_of (files ?w) p = map_of (files ?w') p)"
    by (simp add: land png)
  from paths_by_convention [where w = ?w and w' = ?w' and c = ?c and I = toy_imaging, THEN conjunct2, THEN conjunct2, THEN conjunct2, THEN conjunct2, THEN conjunct2, THEN conjunct2, THEN conjunct2, THEN conjunct2, THEN conjunct2, THEN conjunct2, THEN conjunct2, THEN conjunct2, THEN conjunct1, THEN mp, OF h5]
  have w5: "rel_sum (=)
        (\<lambda>u u'. events u = events u'
           \<and> map_of (files u) (allLands_fname ?c) = map_of (files u') (allLands_fname ?c)
           \<and> map_of (files u) (complexity_png ?c) = map_of (files u') (complexity_png ?c))
        (complexity_turn toy_imaging ?w ?c) (complexity_turn toy_imaging ?w' ?c)"
    by simp
  have "path_exists (files ?w') (allLands_fname ?c)" "length (colour_table toy_imaging) = 256"
    by (simp_all add: land path_exists_def toy_imaging_def)
  from complexity_turn_runs [OF this] obtain u where u: "complexity_turn toy_imaging ?w' ?c = Inr u"
    by blast
  have n6: "''notes.txt'' \<noteq> complexity_png ?c"
    by (simp add: png)
  from paths_by_convention [where w = ?w' and c = ?c and I = toy_imaging, THEN conjunct2, THEN conjunct2, THEN conjunct2, THEN conjunct2, THEN conjunct2, THEN conjunct2, THEN conjunct2, THEN conjunct2, THEN conjunct2, THEN conjunct2, THEN conjunct2, THEN conjunct2, THEN conjunct2, THEN conjunct1, rule_format, OF conjI, OF u n6]
  have "map_of (files u) ''notes.txt'' = Some []"
    by simp
  with u n6 have w6: "\<exists>u. complexity_turn toy_imaging ?w' ?c = Inr u
          \<and> ''notes.txt'' \<noteq> complexity_png ?c \<and> map_of (files u) ''notes.txt'' = Some []"
    by blast
  have h7: "map_of toy_results_land (frame_path 116) = map_of ((''notes.txt'', ''x'') # toy_results_land) (frame_path 116)"
    by (simp add: frame_path_116)
  have h7b: "events ?st = events ?st' \<and> frames ?st = frames ?st'
        \<and> (\<forall>p \<in> set (frame_path 116 # allLands_fname (33, ''10m'', 29000, (0, 0, 1, 1))
                        # map (\<lambda>(nAng, neRes, prec, color).
                                 limit_fname (nAng, neRes, prec, color) ((1000 * 116) div prec)) combs).
              map_of (files ?st) p = map_of (files ?st') p)"
    using h7 by (simp add: land33 combs_eval limit_fname_def limit_dname_eval fmt_istep_eval)
  from paths_by_convention [where st = ?st and st' = ?st' and d = 116 and P = toy_plotting, THEN conjunct2, THEN conjunct2, THEN conjunct2, THEN conjunct2, THEN conjunct2, THEN conjunct2, THEN conjunct2, THEN conjunct2, THEN conjunct2, THEN conjunct2, THEN conjunct2, THEN conjunct2, THEN conjunct2, THEN conjunct2, THEN conjunct1, THEN mp, OF h7b]
  have w7: "rel_sum (=)
        (\<lambda>u u'. events u = events u' \<and> frames u = frames u'
           \<and> map_of (files u) (frame_path 116) = map_of (files u') (frame_path 116))
        (frame_step toy_plotting ?st 116)
        (frame_step toy_plotting ?st' 116)" .
  have ok: "list_all (limit_ok (files ?st) 116) combs" and no: "\<not> path_exists (files ?st) (frame_path 116)"
    using toy_results_ok(2) toy_results_no_frame(2) by simp_all
  from render_frame_result [OF ok, of toy_plotting] frame_step_render [OF no ok, of toy_plotting]
  obtain v where v: "frame_step toy_plotting ?st 116 = Inr v"
    by (auto simp: toy_results_land)
  have n8: "''res=10m_cons=2.00e+00_tol=1.00e-10/local=F_nAng=33_prec=2.90e+04/allLands.wkb.gz'' \<noteq> frame_path 116"
    by (simp add: frame_path_116)
  from paths_by_convention [where st = ?st and d = 116 and P = toy_plotting, THEN conjunct2, THEN conjunct2, THEN conjunct2, THEN conjunct2, THEN conjunct2, THEN conjunct2, THEN conjunct2, THEN conjunct2, THEN conjunct2, THEN conjunct2, THEN conjunct2, THEN conjunct2, THEN conjunct2, THEN conjunct2, THEN conjunct2, THEN conjunct1, rule_format, OF conjI, OF v n8]
  have "map_of (files v) ''res=10m_cons=2.00e+00_tol=1.00e-10/local=F_nAng=33_prec=2.90e+04/allLands.wkb.gz'' = Some ''land 33''"
    by (simp add: toy_results_land_def)
  with v n8 have w8: "\<exists>u. frame_step toy_plotting ?st 116 = Inr u
          \<and> ''res=10m_cons=2.00e+00_tol=1.00e-10/local=F_nAng=33_prec=2.90e+04/allLands.wkb.gz'' \<noteq> frame_path 116
          \<and> map_of (files u) ''res=10m_cons=2.00e+00_tol=1.00e-10/local=F_nAng=33_prec=2.90e+04/allLands.wkb.gz'' = Some ''land 33''"
    by blast
  have h9: "''notes.txt'' \<noteq> tmp_name toy_geo ''tmp'' (geometry ?iran)"
    by (simp add: toy_tmp_name)
  from paths_by_convention [where G = toy_geo and dname = "''tmp''" and r = ?iran and kw = default_kwargs and ?w1.0 = ?wn, THEN conjunct2, THEN conjunct2, THEN conjunct2, THEN conjunct2, THEN conjunct2, THEN conjunct2, THEN conjunct2, THEN conjunct2, THEN conjunct2, THEN conjunct2, THEN conjunct2, THEN conjunct2, THEN conjunct2, THEN conjunct2, THEN conjunct2, THEN conjunct2, THEN conjunct2, THEN conjunct1, rule_format, OF h9]
  have w9: "map_of (files (record_step toy_geo ''tmp'' default_kwargs ?wn ?iran)) ''notes.txt'' = Some []"
    by simp
  have h10: "''notes.txt'' \<notin> set (''all.wkb.gz'' # (removesuffix ''all.wkb.gz'' ''.wkb.gz'' @ ''.geojson'')
      # map (\<lambda>r. tmp_name toy_geo ''tmp'' (geometry r))
          (shp_records toy_geo (natural_earth toy_geo (kw_neRes (default_kwargs :: coord list list kwargs)))))"
  proof -
    have "shp_records toy_geo s =
        [\<lparr>NAME = ''Japan'', geometry = [[(139, 35), (140, 35), (140, 36)]]\<rparr>,
         \<lparr>NAME = ''Iran'', geometry = [[(50, 30), (55, 30), (55, 35)]]\<rparr>,
         \<lparr>NAME = ''Baikonur'', geometry = []\<rparr>]" for s
      by (simp add: toy_geo_def)
    then show ?thesis
      by (simp add: toy_tmp_name toy_tmp_names removesuffix_def)
  qed
  from paths_by_convention [where G = toy_geo and dname = "''tmp''" and kw = default_kwargs and ?w1.0 = ?wn
      and wName = "''all.wkb.gz''", THEN conjunct2, THEN conjunct2, THEN conjunct2, THEN conjunct2, THEN conjunct2, THEN conjunct2, THEN conjunct2, THEN conjunct2, THEN conjunct2, THEN conjunct2, THEN conjunct2, THEN conjunct2, THEN conjunct2, THEN conjunct2, THEN conjunct2, THEN conjunct2, THEN conjunct2, THEN conjunct2, rule_format, OF h10]
  have w10: "map_of (files (snd (saveAllLands toy_geo ''all.wkb.gz'' ''tmp'' default_kwargs ?wn))) ''notes.txt'' = Some []"
    by simp
  from w1 w2 w3 w3b h4 w4 w5 w6 h7 w7 w8 h9 w9 w10 show ?thesis
    by (intro conjI)
qed

end
